theory Spec2Isabelle
  imports Complex_Main
begin

section \<open>Texts\<close>

text \<open>
  A Python \<^verbatim>\<open>str\<close> is a sequence of Unicode code points; it is modelled as a list of
  natural numbers, one per code point, so that \<^verbatim>\<open>len\<close>, slicing and \<^verbatim>\<open>chr\<close> count
  what Python counts. \<open>asc\<close> turns a literal of the source into its code points.

  The character classes the program relies on are modelled as follows.
  \<^item> White space (\<^verbatim>\<open>str.strip()\<close>, the regular expression class \<^verbatim>\<open>\s\<close>): the code
    points for which \<^verbatim>\<open>str.isspace\<close> holds.
  \<^item> Letter case (\<^verbatim>\<open>str.lower()\<close>, \<^verbatim>\<open>str.upper()\<close>) and the digit class \<^verbatim>\<open>\d\<close>: the
    tables of the Python runtime, here those of Unicode 14.0 (CPython 3.11), written
    out below for the code points beyond ASCII.
  \<^item> \<^verbatim>\<open>re.IGNORECASE\<close>: a literal of a pattern matches the code points that the
    regular expression engine takes for the same letter, see \<open>ci_literal\<close>.
\<close>

type_synonym pystr = "nat list"

definition asc :: "string \<Rightarrow> pystr" where
  "asc s = map of_char s"

definition is_space :: "nat \<Rightarrow> bool" where
  "is_space c \<longleftrightarrow>
     (9 \<le> c \<and> c \<le> 13) \<or> (28 \<le> c \<and> c \<le> 32) \<or> c = 133 \<or> c = 160 \<or> c = 5760 \<or>
     (8192 \<le> c \<and> c \<le> 8202) \<or> c = 8232 \<or> c = 8233 \<or> c = 8239 \<or> c = 8287 \<or> c = 12288"

definition is_upper :: "nat \<Rightarrow> bool" where
  "is_upper c \<longleftrightarrow> 65 \<le> c \<and> c \<le> 90"

text \<open>The two cases of the ASCII letters.\<close>

definition lower_char :: "nat \<Rightarrow> nat" where
  "lower_char c = (if is_upper c then c + 32 else c)"

definition upper_char :: "nat \<Rightarrow> nat" where
  "upper_char c = (if 97 \<le> c \<and> c \<le> 122 then c - 32 else c)"

subsection \<open>The Unicode tables of the runtime\<close>

text \<open>
  The decimal digits (category Nd) come in runs of ten, zero to nine; beyond ASCII
  the runs start at the code points of \<open>decimal_zeros\<close>. \<^verbatim>\<open>\d\<close> matches exactly the
  decimal digits.
\<close>

definition decimal_zeros :: "nat list" where
  "decimal_zeros =
     [1632, 1776, 1984, 2406, 2534, 2662, 2790, 2918, 3046, 3174, 3302, 3430, 3558, 3664, 3792,
      3872, 4160, 4240, 6112, 6160, 6470, 6608, 6784, 6800, 6992, 7088, 7232, 7248, 42528,
      43216, 43264, 43472, 43504, 43600, 44016, 65296, 66720, 68912, 69734, 69872, 69942, 70096,
      70384, 70736, 70864, 71248, 71360, 71472, 71904, 72016, 72784, 73040, 73120, 92768, 92864,
      93008, 120782, 120792, 120802, 120812, 120822, 123200, 123632, 125264, 130032]"

definition is_digit :: "nat \<Rightarrow> bool" where
  "is_digit c \<longleftrightarrow>
     (if c < 128 then 48 \<le> c \<and> c \<le> 57
      else list_ex (\<lambda>z. z \<le> c \<and> c < z + 10) decimal_zeros)"

text \<open>
  A case table lists runs of code points: \<open>(lo, hi, step, target)\<close> sends \<open>lo\<close> to
  \<open>target\<close>, \<open>lo + step\<close> to \<open>target + step\<close> and so on up to \<open>hi\<close>. A code point in
  no run is its own image.
\<close>

definition in_run :: "nat \<Rightarrow> nat \<times> nat \<times> nat \<times> nat \<Rightarrow> bool" where
  "in_run c e = (case e of (lo, hi, step, target) \<Rightarrow> lo \<le> c \<and> c \<le> hi \<and> (c - lo) mod step = 0)"

definition lookup :: "(nat \<times> nat \<times> nat \<times> nat) list \<Rightarrow> nat \<Rightarrow> nat" where
  "lookup tab c =
     (case find (in_run c) tab of
        None \<Rightarrow> c
      | Some (lo, hi, step, target) \<Rightarrow> target + (c - lo))"

text \<open>
  The lower-case images of the code points beyond ASCII that have one code point as
  image. U+0130 is the only code point with a longer image and U+03A3 the only one
  whose image depends on its place in the text; \<open>lower_cp\<close> and \<open>lower_from\<close> treat
  them.
\<close>

definition lower_table :: "(nat \<times> nat \<times> nat \<times> nat) list" where
  "lower_table =
     [(192, 214, 1, 224), (216, 222, 1, 248), (256, 302, 2, 257), (306, 310, 2, 307),
      (313, 327, 2, 314), (330, 374, 2, 331), (376, 376, 1, 255), (377, 381, 2, 378),
      (385, 385, 1, 595), (386, 388, 2, 387), (390, 390, 1, 596), (391, 391, 1, 392),
      (393, 394, 1, 598), (395, 395, 1, 396), (398, 398, 1, 477), (399, 399, 1, 601),
      (400, 400, 1, 603), (401, 401, 1, 402), (403, 403, 1, 608), (404, 404, 1, 611),
      (406, 406, 1, 617), (407, 407, 1, 616), (408, 408, 1, 409), (412, 412, 1, 623),
      (413, 413, 1, 626), (415, 415, 1, 629), (416, 420, 2, 417), (422, 422, 1, 640),
      (423, 423, 1, 424), (425, 425, 1, 643), (428, 428, 1, 429), (430, 430, 1, 648),
      (431, 431, 1, 432), (433, 434, 1, 650), (435, 437, 2, 436), (439, 439, 1, 658),
      (440, 440, 1, 441), (444, 444, 1, 445), (452, 452, 1, 454), (453, 453, 1, 454),
      (455, 455, 1, 457), (456, 456, 1, 457), (458, 458, 1, 460), (459, 475, 2, 460),
      (478, 494, 2, 479), (497, 497, 1, 499), (498, 500, 2, 499), (502, 502, 1, 405),
      (503, 503, 1, 447), (504, 542, 2, 505), (544, 544, 1, 414), (546, 562, 2, 547),
      (570, 570, 1, 11365), (571, 571, 1, 572), (573, 573, 1, 410), (574, 574, 1, 11366),
      (577, 577, 1, 578), (579, 579, 1, 384), (580, 580, 1, 649), (581, 581, 1, 652),
      (582, 590, 2, 583), (880, 882, 2, 881), (886, 886, 1, 887), (895, 895, 1, 1011),
      (902, 902, 1, 940), (904, 906, 1, 941), (908, 908, 1, 972), (910, 911, 1, 973),
      (913, 929, 1, 945), (931, 939, 1, 963), (975, 975, 1, 983), (984, 1006, 2, 985),
      (1012, 1012, 1, 952), (1015, 1015, 1, 1016), (1017, 1017, 1, 1010), (1018, 1018, 1, 1019),
      (1021, 1023, 1, 891), (1024, 1039, 1, 1104), (1040, 1071, 1, 1072), (1120, 1152, 2, 1121),
      (1162, 1214, 2, 1163), (1216, 1216, 1, 1231), (1217, 1229, 2, 1218),
      (1232, 1326, 2, 1233), (1329, 1366, 1, 1377), (4256, 4293, 1, 11520),
      (4295, 4295, 1, 11559), (4301, 4301, 1, 11565), (5024, 5103, 1, 43888),
      (5104, 5109, 1, 5112), (7312, 7354, 1, 4304), (7357, 7359, 1, 4349),
      (7680, 7828, 2, 7681), (7838, 7838, 1, 223), (7840, 7934, 2, 7841), (7944, 7951, 1, 7936),
      (7960, 7965, 1, 7952), (7976, 7983, 1, 7968), (7992, 7999, 1, 7984),
      (8008, 8013, 1, 8000), (8025, 8031, 2, 8017), (8040, 8047, 1, 8032),
      (8072, 8079, 1, 8064), (8088, 8095, 1, 8080), (8104, 8111, 1, 8096),
      (8120, 8121, 1, 8112), (8122, 8123, 1, 8048), (8124, 8124, 1, 8115),
      (8136, 8139, 1, 8050), (8140, 8140, 1, 8131), (8152, 8153, 1, 8144),
      (8154, 8155, 1, 8054), (8168, 8169, 1, 8160), (8170, 8171, 1, 8058),
      (8172, 8172, 1, 8165), (8184, 8185, 1, 8056), (8186, 8187, 1, 8060),
      (8188, 8188, 1, 8179), (8486, 8486, 1, 969), (8490, 8490, 1, 107), (8491, 8491, 1, 229),
      (8498, 8498, 1, 8526), (8544, 8559, 1, 8560), (8579, 8579, 1, 8580),
      (9398, 9423, 1, 9424), (11264, 11311, 1, 11312), (11360, 11360, 1, 11361),
      (11362, 11362, 1, 619), (11363, 11363, 1, 7549), (11364, 11364, 1, 637),
      (11367, 11371, 2, 11368), (11373, 11373, 1, 593), (11374, 11374, 1, 625),
      (11375, 11375, 1, 592), (11376, 11376, 1, 594), (11378, 11378, 1, 11379),
      (11381, 11381, 1, 11382), (11390, 11391, 1, 575), (11392, 11490, 2, 11393),
      (11499, 11501, 2, 11500), (11506, 11506, 1, 11507), (42560, 42604, 2, 42561),
      (42624, 42650, 2, 42625), (42786, 42798, 2, 42787), (42802, 42862, 2, 42803),
      (42873, 42875, 2, 42874), (42877, 42877, 1, 7545), (42878, 42886, 2, 42879),
      (42891, 42891, 1, 42892), (42893, 42893, 1, 613), (42896, 42898, 2, 42897),
      (42902, 42920, 2, 42903), (42922, 42922, 1, 614), (42923, 42923, 1, 604),
      (42924, 42924, 1, 609), (42925, 42925, 1, 620), (42926, 42926, 1, 618),
      (42928, 42928, 1, 670), (42929, 42929, 1, 647), (42930, 42930, 1, 669),
      (42931, 42931, 1, 43859), (42932, 42946, 2, 42933), (42948, 42948, 1, 42900),
      (42949, 42949, 1, 642), (42950, 42950, 1, 7566), (42951, 42953, 2, 42952),
      (42960, 42960, 1, 42961), (42966, 42968, 2, 42967), (42997, 42997, 1, 42998),
      (65313, 65338, 1, 65345), (66560, 66599, 1, 66600), (66736, 66771, 1, 66776),
      (66928, 66938, 1, 66967), (66940, 66954, 1, 66979), (66956, 66962, 1, 66995),
      (66964, 66965, 1, 67003), (68736, 68786, 1, 68800), (71840, 71871, 1, 71872),
      (93760, 93791, 1, 93792), (125184, 125217, 1, 125218)]"

text \<open>
  The upper-case images of the code points beyond ASCII: those with one code point
  as image, then those with a longer image.
\<close>

definition upper_table :: "(nat \<times> nat \<times> nat \<times> nat) list" where
  "upper_table =
     [(181, 181, 1, 924), (224, 246, 1, 192), (248, 254, 1, 216), (255, 255, 1, 376),
      (257, 303, 2, 256), (305, 305, 1, 73), (307, 311, 2, 306), (314, 328, 2, 313),
      (331, 375, 2, 330), (378, 382, 2, 377), (383, 383, 1, 83), (384, 384, 1, 579),
      (387, 389, 2, 386), (392, 392, 1, 391), (396, 396, 1, 395), (402, 402, 1, 401),
      (405, 405, 1, 502), (409, 409, 1, 408), (410, 410, 1, 573), (414, 414, 1, 544),
      (417, 421, 2, 416), (424, 424, 1, 423), (429, 429, 1, 428), (432, 432, 1, 431),
      (436, 438, 2, 435), (441, 441, 1, 440), (445, 445, 1, 444), (447, 447, 1, 503),
      (453, 453, 1, 452), (454, 454, 1, 452), (456, 456, 1, 455), (457, 457, 1, 455),
      (459, 459, 1, 458), (460, 460, 1, 458), (462, 476, 2, 461), (477, 477, 1, 398),
      (479, 495, 2, 478), (498, 498, 1, 497), (499, 499, 1, 497), (501, 501, 1, 500),
      (505, 543, 2, 504), (547, 563, 2, 546), (572, 572, 1, 571), (575, 576, 1, 11390),
      (578, 578, 1, 577), (583, 591, 2, 582), (592, 592, 1, 11375), (593, 593, 1, 11373),
      (594, 594, 1, 11376), (595, 595, 1, 385), (596, 596, 1, 390), (598, 599, 1, 393),
      (601, 601, 1, 399), (603, 603, 1, 400), (604, 604, 1, 42923), (608, 608, 1, 403),
      (609, 609, 1, 42924), (611, 611, 1, 404), (613, 613, 1, 42893), (614, 614, 1, 42922),
      (616, 616, 1, 407), (617, 617, 1, 406), (618, 618, 1, 42926), (619, 619, 1, 11362),
      (620, 620, 1, 42925), (623, 623, 1, 412), (625, 625, 1, 11374), (626, 626, 1, 413),
      (629, 629, 1, 415), (637, 637, 1, 11364), (640, 640, 1, 422), (642, 642, 1, 42949),
      (643, 643, 1, 425), (647, 647, 1, 42929), (648, 648, 1, 430), (649, 649, 1, 580),
      (650, 651, 1, 433), (652, 652, 1, 581), (658, 658, 1, 439), (669, 669, 1, 42930),
      (670, 670, 1, 42928), (837, 837, 1, 921), (881, 883, 2, 880), (887, 887, 1, 886),
      (891, 893, 1, 1021), (940, 940, 1, 902), (941, 943, 1, 904), (945, 961, 1, 913),
      (962, 962, 1, 931), (963, 971, 1, 931), (972, 972, 1, 908), (973, 974, 1, 910),
      (976, 976, 1, 914), (977, 977, 1, 920), (981, 981, 1, 934), (982, 982, 1, 928),
      (983, 983, 1, 975), (985, 1007, 2, 984), (1008, 1008, 1, 922), (1009, 1009, 1, 929),
      (1010, 1010, 1, 1017), (1011, 1011, 1, 895), (1013, 1013, 1, 917), (1016, 1016, 1, 1015),
      (1019, 1019, 1, 1018), (1072, 1103, 1, 1040), (1104, 1119, 1, 1024),
      (1121, 1153, 2, 1120), (1163, 1215, 2, 1162), (1218, 1230, 2, 1217),
      (1231, 1231, 1, 1216), (1233, 1327, 2, 1232), (1377, 1414, 1, 1329),
      (4304, 4346, 1, 7312), (4349, 4351, 1, 7357), (5112, 5117, 1, 5104),
      (7296, 7296, 1, 1042), (7297, 7297, 1, 1044), (7298, 7298, 1, 1054),
      (7299, 7300, 1, 1057), (7301, 7301, 1, 1058), (7302, 7302, 1, 1066),
      (7303, 7303, 1, 1122), (7304, 7304, 1, 42570), (7545, 7545, 1, 42877),
      (7549, 7549, 1, 11363), (7566, 7566, 1, 42950), (7681, 7829, 2, 7680),
      (7835, 7835, 1, 7776), (7841, 7935, 2, 7840), (7936, 7943, 1, 7944),
      (7952, 7957, 1, 7960), (7968, 7975, 1, 7976), (7984, 7991, 1, 7992),
      (8000, 8005, 1, 8008), (8017, 8023, 2, 8025), (8032, 8039, 1, 8040),
      (8048, 8049, 1, 8122), (8050, 8053, 1, 8136), (8054, 8055, 1, 8154),
      (8056, 8057, 1, 8184), (8058, 8059, 1, 8170), (8060, 8061, 1, 8186),
      (8112, 8113, 1, 8120), (8126, 8126, 1, 921), (8144, 8145, 1, 8152), (8160, 8161, 1, 8168),
      (8165, 8165, 1, 8172), (8526, 8526, 1, 8498), (8560, 8575, 1, 8544),
      (8580, 8580, 1, 8579), (9424, 9449, 1, 9398), (11312, 11359, 1, 11264),
      (11361, 11361, 1, 11360), (11365, 11365, 1, 570), (11366, 11366, 1, 574),
      (11368, 11372, 2, 11367), (11379, 11379, 1, 11378), (11382, 11382, 1, 11381),
      (11393, 11491, 2, 11392), (11500, 11502, 2, 11499), (11507, 11507, 1, 11506),
      (11520, 11557, 1, 4256), (11559, 11559, 1, 4295), (11565, 11565, 1, 4301),
      (42561, 42605, 2, 42560), (42625, 42651, 2, 42624), (42787, 42799, 2, 42786),
      (42803, 42863, 2, 42802), (42874, 42876, 2, 42873), (42879, 42887, 2, 42878),
      (42892, 42892, 1, 42891), (42897, 42899, 2, 42896), (42900, 42900, 1, 42948),
      (42903, 42921, 2, 42902), (42933, 42947, 2, 42932), (42952, 42954, 2, 42951),
      (42961, 42961, 1, 42960), (42967, 42969, 2, 42966), (42998, 42998, 1, 42997),
      (43859, 43859, 1, 42931), (43888, 43967, 1, 5024), (65345, 65370, 1, 65313),
      (66600, 66639, 1, 66560), (66776, 66811, 1, 66736), (66967, 66977, 1, 66928),
      (66979, 66993, 1, 66940), (66995, 67001, 1, 66956), (67003, 67004, 1, 66964),
      (68800, 68850, 1, 68736), (71872, 71903, 1, 71840), (93792, 93823, 1, 93760),
      (125218, 125251, 1, 125184)]"

definition upper_special :: "(nat \<times> pystr) list" where
  "upper_special =
     [(223, [83, 83]), (329, [700, 78]), (496, [74, 780]), (912, [921, 776, 769]),
      (944, [933, 776, 769]), (1415, [1333, 1362]), (7830, [72, 817]), (7831, [84, 776]),
      (7832, [87, 778]), (7833, [89, 778]), (7834, [65, 702]), (8016, [933, 787]),
      (8018, [933, 787, 768]), (8020, [933, 787, 769]), (8022, [933, 787, 834]),
      (8064, [7944, 921]), (8065, [7945, 921]), (8066, [7946, 921]), (8067, [7947, 921]),
      (8068, [7948, 921]), (8069, [7949, 921]), (8070, [7950, 921]), (8071, [7951, 921]),
      (8072, [7944, 921]), (8073, [7945, 921]), (8074, [7946, 921]), (8075, [7947, 921]),
      (8076, [7948, 921]), (8077, [7949, 921]), (8078, [7950, 921]), (8079, [7951, 921]),
      (8080, [7976, 921]), (8081, [7977, 921]), (8082, [7978, 921]), (8083, [7979, 921]),
      (8084, [7980, 921]), (8085, [7981, 921]), (8086, [7982, 921]), (8087, [7983, 921]),
      (8088, [7976, 921]), (8089, [7977, 921]), (8090, [7978, 921]), (8091, [7979, 921]),
      (8092, [7980, 921]), (8093, [7981, 921]), (8094, [7982, 921]), (8095, [7983, 921]),
      (8096, [8040, 921]), (8097, [8041, 921]), (8098, [8042, 921]), (8099, [8043, 921]),
      (8100, [8044, 921]), (8101, [8045, 921]), (8102, [8046, 921]), (8103, [8047, 921]),
      (8104, [8040, 921]), (8105, [8041, 921]), (8106, [8042, 921]), (8107, [8043, 921]),
      (8108, [8044, 921]), (8109, [8045, 921]), (8110, [8046, 921]), (8111, [8047, 921]),
      (8114, [8122, 921]), (8115, [913, 921]), (8116, [902, 921]), (8118, [913, 834]),
      (8119, [913, 834, 921]), (8124, [913, 921]), (8130, [8138, 921]), (8131, [919, 921]),
      (8132, [905, 921]), (8134, [919, 834]), (8135, [919, 834, 921]), (8140, [919, 921]),
      (8146, [921, 776, 768]), (8147, [921, 776, 769]), (8150, [921, 834]),
      (8151, [921, 776, 834]), (8162, [933, 776, 768]), (8163, [933, 776, 769]),
      (8164, [929, 787]), (8166, [933, 834]), (8167, [933, 776, 834]), (8178, [8186, 921]),
      (8179, [937, 921]), (8180, [911, 921]), (8182, [937, 834]), (8183, [937, 834, 921]),
      (8188, [937, 921]), (64256, [70, 70]), (64257, [70, 73]), (64258, [70, 76]),
      (64259, [70, 70, 73]), (64260, [70, 70, 76]), (64261, [83, 84]), (64262, [83, 84]),
      (64275, [1348, 1350]), (64276, [1348, 1333]), (64277, [1348, 1339]),
      (64278, [1358, 1350]), (64279, [1348, 1341])]"

text \<open>
  The final-sigma rule of \<^verbatim>\<open>str.lower()\<close> skips the code points that are
  case-ignorable and asks of the first other one whether it is cased. The runs of
  \<open>case_ignorable_table\<close> are the case-ignorable code points, those of \<open>cased_table\<close>
  the cased code points that are not case-ignorable.
\<close>

definition cased_table :: "(nat \<times> nat) list" where
  "cased_table =
     [(65, 90), (97, 122), (170, 170), (181, 181), (186, 186), (192, 214), (216, 246),
      (248, 442), (444, 447), (452, 659), (661, 687), (880, 883), (886, 887), (891, 893),
      (895, 895), (902, 902), (904, 906), (908, 908), (910, 929), (931, 1013), (1015, 1153),
      (1162, 1327), (1329, 1366), (1376, 1416), (4256, 4293), (4295, 4295), (4301, 4301),
      (4304, 4346), (4349, 4351), (5024, 5109), (5112, 5117), (7296, 7304), (7312, 7354),
      (7357, 7359), (7424, 7467), (7531, 7543), (7545, 7578), (7680, 7957), (7960, 7965),
      (7968, 8005), (8008, 8013), (8016, 8023), (8025, 8025), (8027, 8027), (8029, 8029),
      (8031, 8061), (8064, 8116), (8118, 8124), (8126, 8126), (8130, 8132), (8134, 8140),
      (8144, 8147), (8150, 8155), (8160, 8172), (8178, 8180), (8182, 8188), (8450, 8450),
      (8455, 8455), (8458, 8467), (8469, 8469), (8473, 8477), (8484, 8484), (8486, 8486),
      (8488, 8488), (8490, 8493), (8495, 8500), (8505, 8505), (8508, 8511), (8517, 8521),
      (8526, 8526), (8544, 8575), (8579, 8580), (9398, 9449), (11264, 11387), (11390, 11492),
      (11499, 11502), (11506, 11507), (11520, 11557), (11559, 11559), (11565, 11565),
      (42560, 42605), (42624, 42651), (42786, 42863), (42865, 42887), (42891, 42894),
      (42896, 42954), (42960, 42961), (42963, 42963), (42965, 42969), (42997, 42998),
      (43002, 43002), (43824, 43866), (43872, 43880), (43888, 43967), (64256, 64262),
      (64275, 64279), (65313, 65338), (65345, 65370), (66560, 66639), (66736, 66771),
      (66776, 66811), (66928, 66938), (66940, 66954), (66956, 66962), (66964, 66965),
      (66967, 66977), (66979, 66993), (66995, 67001), (67003, 67004), (68736, 68786),
      (68800, 68850), (71840, 71903), (93760, 93823), (119808, 119892), (119894, 119964),
      (119966, 119967), (119970, 119970), (119973, 119974), (119977, 119980), (119982, 119993),
      (119995, 119995), (119997, 120003), (120005, 120069), (120071, 120074), (120077, 120084),
      (120086, 120092), (120094, 120121), (120123, 120126), (120128, 120132), (120134, 120134),
      (120138, 120144), (120146, 120485), (120488, 120512), (120514, 120538), (120540, 120570),
      (120572, 120596), (120598, 120628), (120630, 120654), (120656, 120686), (120688, 120712),
      (120714, 120744), (120746, 120770), (120772, 120779), (122624, 122633), (122635, 122654),
      (125184, 125251), (127280, 127305), (127312, 127337), (127344, 127369)]"

definition case_ignorable_table :: "(nat \<times> nat) list" where
  "case_ignorable_table =
     [(39, 39), (46, 46), (58, 58), (94, 94), (96, 96), (168, 168), (173, 173), (175, 175),
      (180, 180), (183, 184), (688, 879), (884, 885), (890, 890), (900, 901), (903, 903),
      (1155, 1161), (1369, 1369), (1375, 1375), (1425, 1469), (1471, 1471), (1473, 1474),
      (1476, 1477), (1479, 1479), (1524, 1524), (1536, 1541), (1552, 1562), (1564, 1564),
      (1600, 1600), (1611, 1631), (1648, 1648), (1750, 1757), (1759, 1768), (1770, 1773),
      (1807, 1807), (1809, 1809), (1840, 1866), (1958, 1968), (2027, 2037), (2042, 2042),
      (2045, 2045), (2070, 2093), (2137, 2139), (2184, 2184), (2192, 2193), (2200, 2207),
      (2249, 2306), (2362, 2362), (2364, 2364), (2369, 2376), (2381, 2381), (2385, 2391),
      (2402, 2403), (2417, 2417), (2433, 2433), (2492, 2492), (2497, 2500), (2509, 2509),
      (2530, 2531), (2558, 2558), (2561, 2562), (2620, 2620), (2625, 2626), (2631, 2632),
      (2635, 2637), (2641, 2641), (2672, 2673), (2677, 2677), (2689, 2690), (2748, 2748),
      (2753, 2757), (2759, 2760), (2765, 2765), (2786, 2787), (2810, 2815), (2817, 2817),
      (2876, 2876), (2879, 2879), (2881, 2884), (2893, 2893), (2901, 2902), (2914, 2915),
      (2946, 2946), (3008, 3008), (3021, 3021), (3072, 3072), (3076, 3076), (3132, 3132),
      (3134, 3136), (3142, 3144), (3146, 3149), (3157, 3158), (3170, 3171), (3201, 3201),
      (3260, 3260), (3263, 3263), (3270, 3270), (3276, 3277), (3298, 3299), (3328, 3329),
      (3387, 3388), (3393, 3396), (3405, 3405), (3426, 3427), (3457, 3457), (3530, 3530),
      (3538, 3540), (3542, 3542), (3633, 3633), (3636, 3642), (3654, 3662), (3761, 3761),
      (3764, 3772), (3782, 3782), (3784, 3789), (3864, 3865), (3893, 3893), (3895, 3895),
      (3897, 3897), (3953, 3966), (3968, 3972), (3974, 3975), (3981, 3991), (3993, 4028),
      (4038, 4038), (4141, 4144), (4146, 4151), (4153, 4154), (4157, 4158), (4184, 4185),
      (4190, 4192), (4209, 4212), (4226, 4226), (4229, 4230), (4237, 4237), (4253, 4253),
      (4348, 4348), (4957, 4959), (5906, 5908), (5938, 5939), (5970, 5971), (6002, 6003),
      (6068, 6069), (6071, 6077), (6086, 6086), (6089, 6099), (6103, 6103), (6109, 6109),
      (6155, 6159), (6211, 6211), (6277, 6278), (6313, 6313), (6432, 6434), (6439, 6440),
      (6450, 6450), (6457, 6459), (6679, 6680), (6683, 6683), (6742, 6742), (6744, 6750),
      (6752, 6752), (6754, 6754), (6757, 6764), (6771, 6780), (6783, 6783), (6823, 6823),
      (6832, 6862), (6912, 6915), (6964, 6964), (6966, 6970), (6972, 6972), (6978, 6978),
      (7019, 7027), (7040, 7041), (7074, 7077), (7080, 7081), (7083, 7085), (7142, 7142),
      (7144, 7145), (7149, 7149), (7151, 7153), (7212, 7219), (7222, 7223), (7288, 7293),
      (7376, 7378), (7380, 7392), (7394, 7400), (7405, 7405), (7412, 7412), (7416, 7417),
      (7468, 7530), (7544, 7544), (7579, 7679), (8125, 8125), (8127, 8129), (8141, 8143),
      (8157, 8159), (8173, 8175), (8189, 8190), (8203, 8207), (8216, 8217), (8228, 8228),
      (8231, 8231), (8234, 8238), (8288, 8292), (8294, 8303), (8305, 8305), (8319, 8319),
      (8336, 8348), (8400, 8432), (11388, 11389), (11503, 11505), (11631, 11631),
      (11647, 11647), (11744, 11775), (11823, 11823), (12293, 12293), (12330, 12333),
      (12337, 12341), (12347, 12347), (12441, 12446), (12540, 12542), (40981, 40981),
      (42232, 42237), (42508, 42508), (42607, 42610), (42612, 42621), (42623, 42623),
      (42652, 42655), (42736, 42737), (42752, 42785), (42864, 42864), (42888, 42890),
      (42994, 42996), (43000, 43001), (43010, 43010), (43014, 43014), (43019, 43019),
      (43045, 43046), (43052, 43052), (43204, 43205), (43232, 43249), (43263, 43263),
      (43302, 43309), (43335, 43345), (43392, 43394), (43443, 43443), (43446, 43449),
      (43452, 43453), (43471, 43471), (43493, 43494), (43561, 43566), (43569, 43570),
      (43573, 43574), (43587, 43587), (43596, 43596), (43632, 43632), (43644, 43644),
      (43696, 43696), (43698, 43700), (43703, 43704), (43710, 43711), (43713, 43713),
      (43741, 43741), (43756, 43757), (43763, 43764), (43766, 43766), (43867, 43871),
      (43881, 43883), (44005, 44005), (44008, 44008), (44013, 44013), (64286, 64286),
      (64434, 64450), (65024, 65039), (65043, 65043), (65056, 65071), (65106, 65106),
      (65109, 65109), (65279, 65279), (65287, 65287), (65294, 65294), (65306, 65306),
      (65342, 65342), (65344, 65344), (65392, 65392), (65438, 65439), (65507, 65507),
      (65529, 65531), (66045, 66045), (66272, 66272), (66422, 66426), (67456, 67461),
      (67463, 67504), (67506, 67514), (68097, 68099), (68101, 68102), (68108, 68111),
      (68152, 68154), (68159, 68159), (68325, 68326), (68900, 68903), (69291, 69292),
      (69446, 69456), (69506, 69509), (69633, 69633), (69688, 69702), (69744, 69744),
      (69747, 69748), (69759, 69761), (69811, 69814), (69817, 69818), (69821, 69821),
      (69826, 69826), (69837, 69837), (69888, 69890), (69927, 69931), (69933, 69940),
      (70003, 70003), (70016, 70017), (70070, 70078), (70089, 70092), (70095, 70095),
      (70191, 70193), (70196, 70196), (70198, 70199), (70206, 70206), (70367, 70367),
      (70371, 70378), (70400, 70401), (70459, 70460), (70464, 70464), (70502, 70508),
      (70512, 70516), (70712, 70719), (70722, 70724), (70726, 70726), (70750, 70750),
      (70835, 70840), (70842, 70842), (70847, 70848), (70850, 70851), (71090, 71093),
      (71100, 71101), (71103, 71104), (71132, 71133), (71219, 71226), (71229, 71229),
      (71231, 71232), (71339, 71339), (71341, 71341), (71344, 71349), (71351, 71351),
      (71453, 71455), (71458, 71461), (71463, 71467), (71727, 71735), (71737, 71738),
      (71995, 71996), (71998, 71998), (72003, 72003), (72148, 72151), (72154, 72155),
      (72160, 72160), (72193, 72202), (72243, 72248), (72251, 72254), (72263, 72263),
      (72273, 72278), (72281, 72283), (72330, 72342), (72344, 72345), (72752, 72758),
      (72760, 72765), (72767, 72767), (72850, 72871), (72874, 72880), (72882, 72883),
      (72885, 72886), (73009, 73014), (73018, 73018), (73020, 73021), (73023, 73029),
      (73031, 73031), (73104, 73105), (73109, 73109), (73111, 73111), (73459, 73460),
      (78896, 78904), (92912, 92916), (92976, 92982), (92992, 92995), (94031, 94031),
      (94095, 94111), (94176, 94177), (94179, 94180), (110576, 110579), (110581, 110587),
      (110589, 110590), (113821, 113822), (113824, 113827), (118528, 118573), (118576, 118598),
      (119143, 119145), (119155, 119170), (119173, 119179), (119210, 119213), (119362, 119364),
      (121344, 121398), (121403, 121452), (121461, 121461), (121476, 121476), (121499, 121503),
      (121505, 121519), (122880, 122886), (122888, 122904), (122907, 122913), (122915, 122916),
      (122918, 122922), (123184, 123197), (123566, 123566), (123628, 123631), (125136, 125142),
      (125252, 125259), (127995, 127999), (917505, 917505), (917536, 917631), (917760, 917999)]"

definition cased :: "nat \<Rightarrow> bool" where
  "cased c = list_ex (\<lambda>(lo, hi). lo \<le> c \<and> c \<le> hi) cased_table"

definition case_ignorable :: "nat \<Rightarrow> bool" where
  "case_ignorable c = list_ex (\<lambda>(lo, hi). lo \<le> c \<and> c \<le> hi) case_ignorable_table"

subsection \<open>Letter case\<close>

text \<open>
  \<^verbatim>\<open>s.lower()\<close> replaces every code point by its lower-case image. The capital sigma
  U+03A3 becomes the final sigma U+03C2 when a cased code point comes before it and
  none comes after it, case-ignorable code points skipped on both sides, and the
  small sigma U+03C3 otherwise. \<open>lower_from\<close> carries the code points already passed,
  the nearest first.
\<close>

definition final_sigma :: "pystr \<Rightarrow> pystr \<Rightarrow> bool" where
  "final_sigma before after \<longleftrightarrow>
     (case dropWhile case_ignorable before of [] \<Rightarrow> False | c # r \<Rightarrow> cased c) \<and>
     (case dropWhile case_ignorable after of [] \<Rightarrow> True | c # r \<Rightarrow> \<not> cased c)"

definition lower_cp :: "nat \<Rightarrow> pystr" where
  "lower_cp c =
     (if c < 128 then [lower_char c]
      else if c = 304 then [105, 775]
      else [lookup lower_table c])"

fun lower_from :: "pystr \<Rightarrow> pystr \<Rightarrow> pystr" where
  "lower_from before [] = []"
| "lower_from before (c # cs) =
     (if c = 931 then [if final_sigma before cs then 962 else 963] else lower_cp c)
     @ lower_from (c # before) cs"

definition lower :: "pystr \<Rightarrow> pystr" where
  "lower s = lower_from [] s"

text \<open>\<^verbatim>\<open>s.upper()\<close> replaces every code point by its upper-case image.\<close>

definition upper_cp :: "nat \<Rightarrow> pystr" where
  "upper_cp c =
     (if c < 128 then [upper_char c]
      else
        (case map_of upper_special c of
           Some cps \<Rightarrow> cps
         | None \<Rightarrow> [lookup upper_table c]))"

definition upper :: "pystr \<Rightarrow> pystr" where
  "upper s = concat (map upper_cp s)"

text \<open>\<^verbatim>\<open>s.startswith(p)\<close> and the substring test \<^verbatim>\<open>p in s\<close>.\<close>

fun starts_with :: "'a list \<Rightarrow> 'a list \<Rightarrow> bool" where
  "starts_with [] s = True"
| "starts_with (p # ps) [] = False"
| "starts_with (p # ps) (c # cs) = (p = c \<and> starts_with ps cs)"

fun contains :: "'a list \<Rightarrow> 'a list \<Rightarrow> bool" where
  "contains p [] = (p = [])"
| "contains p (c # cs) = (starts_with p (c # cs) \<or> contains p cs)"

text \<open>\<^verbatim>\<open>s.strip()\<close>: white space removed at both ends.\<close>

definition lstrip :: "pystr \<Rightarrow> pystr" where
  "lstrip s = dropWhile is_space s"

definition rstrip :: "pystr \<Rightarrow> pystr" where
  "rstrip s = rev (dropWhile is_space (rev s))"

definition strip :: "pystr \<Rightarrow> pystr" where
  "strip s = rstrip (lstrip s)"

text \<open>\<^verbatim>\<open>sep.join(parts)\<close>.\<close>

fun join :: "pystr \<Rightarrow> pystr list \<Rightarrow> pystr" where
  "join sep [] = []"
| "join sep [x] = x"
| "join sep (x # y # ys) = x @ sep @ join sep (y # ys)"

text \<open>
  \<^verbatim>\<open>chr(n)\<close> is the one-character string of code point \<open>n\<close>, and raises ValueError
  beyond U+10FFFF.
\<close>

datatype py_error = ValueError | AttributeError

definition chr_py :: "nat \<Rightarrow> py_error + pystr" where
  "chr_py n = (if n < 1114112 then Inr [n] else Inl ValueError)"

section \<open>Data model\<close>

text \<open>
  \<^verbatim>\<open>CouncilMember\<close>: the dataclass with the fields \<^verbatim>\<open>id\<close>, \<^verbatim>\<open>model\<close> and \<^verbatim>\<open>role\<close>, and
  its property \<^verbatim>\<open>label\<close>.
\<close>

record council_member =
  cm_id :: pystr
  cm_model :: pystr
  cm_role :: pystr

definition label :: "council_member \<Rightarrow> pystr" where
  "label m = asc ''Response '' @ cm_id m"

text \<open>
  What the gateway returns for one call: \<open>None\<close> when the call failed, otherwise the
  reply dictionary, of which the program reads the key \<^verbatim>\<open>content\<close> only; a reply is
  modelled by the text under that key, \<open>None\<close> when the key is missing.
  \<^verbatim>\<open>resp.get("content", "")\<close> is \<open>get_content\<close>.
\<close>

type_synonym reply = "pystr option"

definition get_content :: "reply \<Rightarrow> pystr" where
  "get_content r = (case r of None \<Rightarrow> [] | Some t \<Rightarrow> t)"

text \<open>
  The responder gateway \<^verbatim>\<open>query_model(model, messages, timeout)\<close> is a network call
  outside the program. It is a parameter: a function of the place of the call in the
  session, the responder identifier and the content of the single user message. The
  place makes every call independent of every other one, also between two calls with
  the same identifier and the same prompt. The time limit only decides whether a
  reply arrives, which the parameter already decides.
\<close>

datatype call = Stage1Call nat | ReflectionCall nat | RankingCall nat | ChairmanCall

type_synonym gateway = "call \<Rightarrow> pystr \<Rightarrow> pystr \<Rightarrow> reply option"

text \<open>The dictionaries of the Stage-1 results: \<^verbatim>\<open>{member_id, model, response}\<close>.\<close>

record stage1_result =
  s1_member_id :: pystr
  s1_model :: pystr
  s1_response :: pystr

section \<open>Governance roles\<close>

definition GOVERNANCE_ROLES :: "(pystr \<times> pystr) list" where
  "GOVERNANCE_ROLES =
    [(asc ''anthropic/claude-sonnet-4.5'', asc ''Ethics Officer''),
     (asc ''google/gemini-3-pro-preview'', asc ''Systems Architect''),
     (asc ''x-ai/grok-4'', asc ''Red Team'')]"

definition is_chatgpt :: "pystr \<Rightarrow> bool" where
  "is_chatgpt model \<longleftrightarrow>
     contains (asc ''openai/'') (lower model) \<and>
     (contains (asc ''chatgpt'') (lower model) \<or> contains (asc ''gpt'') (lower model))"

definition is_mistral :: "pystr \<Rightarrow> bool" where
  "is_mistral model \<longleftrightarrow> contains (asc ''mistral'') (lower model)"

definition get_governance_role :: "pystr \<Rightarrow> pystr" where
  "get_governance_role model =
     (case map_of GOVERNANCE_ROLES model of
        Some r \<Rightarrow> r
      | None \<Rightarrow>
          if is_chatgpt model then asc ''Systems Integrator''
          else if is_mistral model then asc ''Safety Engineer''
          else asc ''Council Member'')"

section \<open>Stage 1: collect responses\<close>

definition SAFETY_ROLES :: "(pystr \<times> pystr) list" where
  "SAFETY_ROLES =
    [(asc ''anthropic/claude-sonnet-4.5'',
      asc ''You are an ethical analyst focused on alignment, responsible AI behavior, and downstream impacts.''),
     (asc ''google/gemini-3-pro-preview'',
      asc ''You are a systems architect optimizing for clarity, robustness, and comprehensive system design. You will also serve as the Chairman to synthesize final recommendations.''),
     (asc ''x-ai/grok-4'',
      asc ''You are a critical adversarial reviewer actively searching for flaws, edge cases, and hidden risks.'')]"

definition CHATGPT_ROLE :: pystr where
  "CHATGPT_ROLE = asc ''You are a Systems Integrator & Failure-Mode Analyst. Your expertise is in identifying how different components interact, where integration points fail, and what cascade failures might occur. For each analysis, provide: (1) integration risks and failure modes, (2) cross-component dependencies, (3) fault propagation paths, (4) resilience strategies, and (5) system-wide impact assessment.''"

definition MISTRAL_ROLE :: pystr where
  "MISTRAL_ROLE = asc ''You are a Safety Engineer focused on Shadow AI & Data Leakage prevention. Your expertise is in technical controls: AI gateways, DLP/redaction, allowlisting, logging/audit trails, and kill switches. For each recommendation, provide: (1) technical risks, (2) specific controls/guardrails, (3) evidence/logging requirements, (4) testing procedures, and (5) go/no-go recommendation with justification.''"

text \<open>
  The role prefix of a responder: the exact entry of \<open>SAFETY_ROLES\<close>, else the ChatGPT
  or the Mistral text, else none. An empty prefix counts as none
  (\<^verbatim>\<open>if not role_prefix\<close>).
\<close>

definition role_prefix :: "pystr \<Rightarrow> pystr option" where
  "role_prefix model =
     (case map_of SAFETY_ROLES model of
        Some p \<Rightarrow> Some p
      | None \<Rightarrow>
          if is_chatgpt model then Some CHATGPT_ROLE
          else if is_mistral model then Some MISTRAL_ROLE
          else None)"

definition stage1_content :: "pystr \<Rightarrow> pystr \<Rightarrow> pystr" where
  "stage1_content user_query model =
     (case role_prefix model of
        Some p \<Rightarrow> p @ [10, 10] @ user_query
      | None \<Rightarrow> user_query)"

text \<open>
  The loop over \<^verbatim>\<open>zip(COUNCIL_MODELS, responses)\<close>, with the counter
  \<^verbatim>\<open>member_id_counter\<close>: a failed call is skipped, a reply gets the next label
  \<^verbatim>\<open>chr(65 + member_id_counter)\<close>, a member and a result.
\<close>

fun stage1_loop ::
  "nat \<Rightarrow> (pystr \<times> reply option) list \<Rightarrow> py_error + (stage1_result list \<times> council_member list)"
where
  "stage1_loop member_id_counter [] = Inr ([], [])"
| "stage1_loop member_id_counter ((model, None) # rest) = stage1_loop member_id_counter rest"
| "stage1_loop member_id_counter ((model, Some resp) # rest) =
     (case chr_py (65 + member_id_counter) of
        Inl e \<Rightarrow> Inl e
      | Inr member_id \<Rightarrow>
          (case stage1_loop (member_id_counter + 1) rest of
             Inl e \<Rightarrow> Inl e
           | Inr (stage1_results, council_members) \<Rightarrow>
               Inr (\<lparr>s1_member_id = member_id, s1_model = model, s1_response = get_content resp\<rparr>
                      # stage1_results,
                    \<lparr>cm_id = member_id, cm_model = model, cm_role = get_governance_role model\<rparr>
                      # council_members)))"

text \<open>The replies of Stage 1: one call per configured responder, in the list's order.\<close>

definition stage1_responses :: "gateway \<Rightarrow> pystr list \<Rightarrow> pystr \<Rightarrow> reply option list" where
  "stage1_responses query_model COUNCIL_MODELS user_query =
     map (\<lambda>(i, model). query_model (Stage1Call i) model (stage1_content user_query model))
       (enumerate 0 COUNCIL_MODELS)"

definition stage1_collect_responses ::
  "gateway \<Rightarrow> pystr list \<Rightarrow> pystr \<Rightarrow> py_error + (stage1_result list \<times> council_member list)"
where
  "stage1_collect_responses query_model COUNCIL_MODELS user_query =
     stage1_loop 0 (zip COUNCIL_MODELS (stage1_responses query_model COUNCIL_MODELS user_query))"

section \<open>Regular expressions of the program\<close>

text \<open>
  Each pattern of the source is written as the function that tells, for a text, whether
  the pattern matches at its start (and what the match is); \<open>search\<close> and \<open>findall\<close>
  then scan a text from left to right as \<^verbatim>\<open>re.search\<close> and \<^verbatim>\<open>re.findall\<close> do. No
  pattern of the program matches the empty string, so after a match of \<open>n\<close> code
  points \<open>findall\<close> goes on \<open>n\<close> code points further, that is \<open>n - 1\<close> beyond the
  first.
\<close>

fun search :: "(pystr \<Rightarrow> 'a option) \<Rightarrow> pystr \<Rightarrow> 'a option" where
  "search m [] = m []"
| "search m (c # cs) = (case m (c # cs) of Some x \<Rightarrow> Some x | None \<Rightarrow> search m cs)"

fun findall :: "(pystr \<Rightarrow> nat option) \<Rightarrow> pystr \<Rightarrow> pystr list" where
  "findall m [] = []"
| "findall m (c # cs) =
     (case m (c # cs) of
        Some n \<Rightarrow> take n (c # cs) # findall m (drop (n - 1) cs)
      | None \<Rightarrow> findall m cs)"

text \<open>
  A literal of a pattern compiled with \<^verbatim>\<open>re.IGNORECASE\<close>. The literals of the
  program's patterns are ASCII. The engine lets such a literal \<open>d\<close> match a code point
  \<open>c\<close> of the text when both are the same code point or the same ASCII letter in
  either case, and besides
  lets the letter i match U+0130 and U+0131, the letter s match U+017F and the
  letter k match U+212A. \<open>starts_with_ci p s\<close>: the literals \<open>p\<close> match at the start
  of \<open>s\<close>.
\<close>

definition ci_literal :: "nat \<Rightarrow> nat \<Rightarrow> bool" where
  "ci_literal d c \<longleftrightarrow>
     lower_char c = lower_char d \<or>
     (lower_char d = 105 \<and> (c = 304 \<or> c = 305)) \<or>
     (lower_char d = 115 \<and> c = 383) \<or>
     (lower_char d = 107 \<and> c = 8490)"

fun starts_with_ci :: "pystr \<Rightarrow> pystr \<Rightarrow> bool" where
  "starts_with_ci [] s = True"
| "starts_with_ci (d # p) [] = False"
| "starts_with_ci (d # p) (c # cs) = (ci_literal d c \<and> starts_with_ci p cs)"

text \<open>\<^verbatim>\<open>Response [A-Z]\<close>: the length of the match at the start of the text.\<close>

definition match_response :: "pystr \<Rightarrow> nat option" where
  "match_response s =
     (if starts_with (asc ''Response '') s then
        (case drop 9 s of
           [] \<Rightarrow> None
         | c # r \<Rightarrow> if is_upper c then Some 10 else None)
      else None)"

text \<open>
  \<^verbatim>\<open>\d+\.\s*Response [A-Z]\<close>. The greedy \<^verbatim>\<open>\d+\<close> takes the whole run of digits and
  \<^verbatim>\<open>\s*\<close> the whole run of white space; giving a digit or a blank back never helps,
  since the next thing to match is a full stop, respectively the letter R.
\<close>

definition match_numbered :: "pystr \<Rightarrow> nat option" where
  "match_numbered s =
     (let ds = takeWhile is_digit s; r1 = dropWhile is_digit s in
      if ds = [] then None
      else
        (case r1 of
           [] \<Rightarrow> None
         | d # r2 \<Rightarrow>
             if d \<noteq> 46 then None
             else
               (let ws = takeWhile is_space r2; r3 = dropWhile is_space r2 in
                case match_response r3 of
                  None \<Rightarrow> None
                | Some k \<Rightarrow> Some (length ds + 1 + length ws + k))))"

text \<open>
  \<^verbatim>\<open>DECISION:\s*\[?(REVISE|AFFIRM)\]?\<close> with \<^verbatim>\<open>re.IGNORECASE\<close>: group 1 of the match at
  the start of the text.
\<close>

definition match_decision :: "pystr \<Rightarrow> pystr option" where
  "match_decision s =
     (if starts_with_ci (asc ''DECISION:'') s then
        (let r1 = dropWhile is_space (drop 9 s);
             r2 = (case r1 of [] \<Rightarrow> r1 | c # r \<Rightarrow> if c = 91 then r else r1)
         in if starts_with_ci (asc ''REVISE'') r2 \<or> starts_with_ci (asc ''AFFIRM'') r2
            then Some (take 6 r2) else None)
      else None)"

text \<open>
  The end of \<^verbatim>\<open>(.*?)(?=FINAL RESPONSE:|$)\<close>: the lazy group stops at the first place
  where the marker follows or \<^verbatim>\<open>$\<close> holds, which without \<^verbatim>\<open>re.MULTILINE\<close> is the end
  of the text or the place before a line feed that ends the text.
\<close>

fun lazy_group :: "pystr \<Rightarrow> pystr" where
  "lazy_group [] = []"
| "lazy_group (c # cs) =
     (if starts_with_ci (asc ''FINAL RESPONSE:'') (c # cs) \<or> c # cs = [10] then []
      else c # lazy_group cs)"

text \<open>
  \<^verbatim>\<open>JUSTIFICATION.*?:\s*(.*?)(?=FINAL RESPONSE:|$)\<close> with \<^verbatim>\<open>re.DOTALL | re.IGNORECASE\<close>:
  group 1 of the match at the start of the text. After the marker the lazy \<^verbatim>\<open>.*?\<close>
  runs to the first colon (any later colon is tried only if the rest fails, and the
  rest never fails), then the white space is skipped.
\<close>

definition match_justification :: "pystr \<Rightarrow> pystr option" where
  "match_justification s =
     (if starts_with_ci (asc ''JUSTIFICATION'') s then
        (case dropWhile (\<lambda>c. c \<noteq> 58) (drop 13 s) of
           [] \<Rightarrow> None
         | colon # r1 \<Rightarrow> Some (lazy_group (dropWhile is_space r1)))
      else None)"

text \<open>\<^verbatim>\<open>FINAL RESPONSE:\s*(.*)\<close> with \<^verbatim>\<open>re.DOTALL | re.IGNORECASE\<close>: group 1.\<close>

definition match_final_response :: "pystr \<Rightarrow> pystr option" where
  "match_final_response s =
     (if starts_with_ci (asc ''FINAL RESPONSE:'') s
      then Some (dropWhile is_space (drop 15 s)) else None)"

section \<open>Stage 1.5: Delphi reflection\<close>

definition parse_delphi_response :: "pystr \<Rightarrow> pystr \<times> pystr \<times> pystr" where
  "parse_delphi_response response_text =
     (let decision =
            (case search match_decision response_text of
               Some g \<Rightarrow> upper g
             | None \<Rightarrow> asc ''AFFIRM'');
          justification =
            (case search match_justification response_text of
               Some g \<Rightarrow> strip g
             | None \<Rightarrow> asc ''No justification provided'');
          final_response =
            (case search match_final_response response_text of
               Some g \<Rightarrow> strip g
             | None \<Rightarrow> response_text)
      in (decision, take 500 justification, final_response))"

definition explicit :: "pystr list" where
  "explicit = map asc
     [''strongly disagree'', ''fundamental disagreement'', ''cannot support'',
      ''oppose'', ''dangerous recommendation'', ''significant divergence'',
      ''dissent:'', ''high-stakes'', ''human decision required'']"

definition high_risk_triggers :: "pystr list" where
  "high_risk_triggers = map asc
     [''forensic'', ''audit past'', ''export chat'', ''browser logs'', ''chat histories'',
      ''breach notification'', ''gdpr'', ''ccpa'', ''hipaa'', ''regulator'',
      ''ban all'', ''block all'', ''zero tolerance'',
      ''self-host'', ''open-source model'', ''run locally'', ''deploy llama'',
      ''local model'', ''on-prem model'']"

definition detect_material_disagreement :: "pystr \<Rightarrow> bool" where
  "detect_material_disagreement response_text =
     (let text = lower response_text in
      list_ex (\<lambda>p. contains p text) explicit \<or> list_ex (\<lambda>k. contains k text) high_risk_triggers)"

text \<open>\<^verbatim>\<open>re.split(r"[.!?]+", text)\<close>: the pieces between the runs of full stops, exclamation
  and question marks.\<close>

definition is_terminal :: "nat \<Rightarrow> bool" where
  "is_terminal c \<longleftrightarrow> c = 46 \<or> c = 33 \<or> c = 63"

function split_sentences :: "pystr \<Rightarrow> pystr \<Rightarrow> pystr list" where
  "split_sentences acc [] = [rev acc]"
| "split_sentences acc (c # cs) =
     (if is_terminal c then rev acc # split_sentences [] (dropWhile is_terminal cs)
      else split_sentences (c # acc) cs)"
  by pat_completeness auto
termination
  by (relation "measure (\<lambda>(acc, s). length s)") (auto simp: length_dropWhile_le le_imp_less_Suc)

definition summary_words :: "pystr list" where
  "summary_words = map asc
     [''dissent'', ''disagree'', ''concern'', ''risk'', ''oppose'', ''forensic'', ''breach'']"

definition extract_disagreement_summary :: "pystr \<Rightarrow> pystr" where
  "extract_disagreement_summary response_text =
     (case filter (\<lambda>s. list_ex (\<lambda>w. contains w (lower s)) summary_words)
             (split_sentences [] response_text) of
        [] \<Rightarrow> asc ''Material disagreement detected''
      | s # rest \<Rightarrow> take 220 (strip s))"

text \<open>\<^verbatim>\<open>str(i)\<close> for a natural number: its decimal digits.\<close>

function str_nat :: "nat \<Rightarrow> pystr" where
  "str_nat n = (if n < 10 then [48 + n] else str_nat (n div 10) @ [48 + n mod 10])"
  by pat_completeness auto
termination
  by (relation "measure id") auto

text \<open>Several lines joined by line feeds, as a triple-quoted text of the source has them.\<close>

definition lines :: "pystr list \<Rightarrow> pystr" where
  "lines ls = join [10] ls"

definition peer_summary :: "pystr \<Rightarrow> pystr" where
  "peer_summary response =
     strip (take 220 response) @ (if length response > 220 then asc ''...'' else [])"

definition create_peer_digest :: "pystr list \<Rightarrow> pystr" where
  "create_peer_digest peer_responses =
     (if peer_responses = [] then asc ''No peer responses available.''
      else
        (let all_text = lower (join (asc '' '') peer_responses);
             digest_parts =
               [asc ''PEER RESPONSE SUMMARY:''] @
               map (\<lambda>(i, response). [8226] @ asc '' Peer '' @ str_nat i @ asc '': '' @ peer_summary response)
                 (enumerate 1 peer_responses) @
               [[10] @ asc ''KEY THEMES:''] @
               (if list_ex (\<lambda>k. contains k all_text)
                     (map asc [''risk'', ''danger'', ''leak'', ''privacy'', ''security''])
                then [[8226] @ asc '' Multiple peers mention risk/safety concerns''] else []) @
               (if list_ex (\<lambda>k. contains k all_text)
                     (map asc [''recommend'', ''should'', ''plan'', ''steps'', ''phase''])
                then [[8226] @ asc '' Peers provide actionable recommendations''] else []) @
               (if list_ex (\<lambda>k. contains k all_text)
                     (map asc [''disagree'', ''however'', ''but'', ''trade-off'', ''tension''])
                then [[8226] @ asc '' Divergence in perspectives noted''] else [])
         in join [10] digest_parts))"

definition reflection_prompt :: "pystr \<Rightarrow> pystr \<Rightarrow> pystr \<Rightarrow> pystr" where
  "reflection_prompt user_query round1 digest = lines
     [asc ''You are participating in a Delphi-style governance council deliberation.'',
      [],
      asc ''ORIGINAL QUESTION:'',
      user_query,
      [],
      asc ''YOUR INITIAL RESPONSE (Round 1):'',
      round1,
      [],
      asc ''ANONYMIZED PEER FEEDBACK:'',
      digest,
      [],
      asc ''INSTRUCTIONS:'',
      asc ''Based on the peer feedback above, you may either:'',
      asc ''1) REVISE your response if you've identified gaps, errors, or better approaches'',
      asc ''2) AFFIRM your original response if you believe it remains sound'',
      [],
      asc ''Please provide:'',
      [],
      asc ''DECISION: [REVISE or AFFIRM]'',
      [],
      asc ''JUSTIFICATION (2-3 sentences):'',
      asc ''[Explain why you chose to revise or affirm]'',
      [],
      asc ''FINAL RESPONSE:'',
      asc ''[Your revised response OR your affirmed original response]'',
      [],
      asc ''If you have high-stakes disagreement, include a line:'',
      asc ''DISSENT: <one sentence>'',
      [],
      asc ''Be explicit about any remaining disagreements with peers. If you strongly disagree on a high-risk recommendation, state it clearly.'',
      []]"

text \<open>The peers of member \<open>i\<close>: \<^verbatim>\<open>[r["response"] for j, r in enumerate(stage1_results) if j != i]\<close>.\<close>

definition peer_responses :: "nat \<Rightarrow> stage1_result list \<Rightarrow> pystr list" where
  "peer_responses i stage1_results =
     map (\<lambda>(j, r). s1_response r) (filter (\<lambda>(j, r). j \<noteq> i) (enumerate 0 stage1_results))"

definition reflection_responses ::
  "gateway \<Rightarrow> pystr \<Rightarrow> stage1_result list \<Rightarrow> council_member list \<Rightarrow> reply option list"
where
  "reflection_responses query_model user_query stage1_results council_members =
     map (\<lambda>(i, (member, result)).
            query_model (ReflectionCall i) (cm_model member)
              (reflection_prompt user_query (s1_response result)
                 (create_peer_digest (peer_responses i stage1_results))))
       (enumerate 0 (zip council_members stage1_results))"

record delphi_result =
  d_member_id :: pystr
  d_model :: pystr
  d_round1_response :: pystr
  d_round2_response :: pystr
  d_decision :: pystr
  d_revision_reason :: pystr
  d_has_material_disagreement :: bool

record material_disagreement =
  md_member :: pystr
  md_role :: pystr
  md_issue :: pystr

text \<open>
  The loop over \<^verbatim>\<open>zip(council_members, stage1_results, responses)\<close>; it returns
  \<^verbatim>\<open>delphi_results\<close> and \<^verbatim>\<open>material_disagreements\<close>.
\<close>

fun delphi_loop ::
  "(council_member \<times> stage1_result \<times> reply option) list \<Rightarrow>
     delphi_result list \<times> material_disagreement list"
where
  "delphi_loop [] = ([], [])"
| "delphi_loop ((member, round1, None) # rest) =
     (let (delphi_results, material_disagreements) = delphi_loop rest in
      (\<lparr>d_member_id = cm_id member, d_model = cm_model member,
        d_round1_response = s1_response round1, d_round2_response = s1_response round1,
        d_decision = asc ''AFFIRM'',
        d_revision_reason = asc ''Model did not respond to reflection prompt'',
        d_has_material_disagreement = False\<rparr> # delphi_results,
       material_disagreements))"
| "delphi_loop ((member, round1, Some resp) # rest) =
     (let (delphi_results, material_disagreements) = delphi_loop rest;
          response_text = get_content resp;
          (decision, justification, final_response) = parse_delphi_response response_text;
          has_disagreement = detect_material_disagreement response_text
      in
      (\<lparr>d_member_id = cm_id member, d_model = cm_model member,
        d_round1_response = s1_response round1, d_round2_response = final_response,
        d_decision = decision, d_revision_reason = justification,
        d_has_material_disagreement = has_disagreement\<rparr> # delphi_results,
       (if has_disagreement
        then [\<lparr>md_member = cm_model member, md_role = cm_role member,
               md_issue = extract_disagreement_summary response_text\<rparr>]
        else []) @ material_disagreements))"

definition stage1_5_delphi_reflection ::
  "gateway \<Rightarrow> pystr \<Rightarrow> stage1_result list \<Rightarrow> council_member list \<Rightarrow> delphi_result list \<times> bool"
where
  "stage1_5_delphi_reflection query_model user_query stage1_results council_members =
     (let responses = reflection_responses query_model user_query stage1_results council_members;
          (delphi_results, material_disagreements) =
             delphi_loop (zip council_members (zip stage1_results responses));
          needs_human_review =
             (length material_disagreements > 0 \<or>
              list_ex d_has_material_disagreement delphi_results)
      in (delphi_results, needs_human_review))"

section \<open>Stage 2: collect rankings\<close>

text \<open>
  A Python dictionary keeps its keys in the order of their first insertion; it is an
  association list, and \<^verbatim>\<open>d[k] = v\<close> is \<open>dict_set\<close>.
\<close>

fun dict_set :: "('k \<times> 'v) list \<Rightarrow> 'k \<Rightarrow> 'v \<Rightarrow> ('k \<times> 'v) list" where
  "dict_set [] k v = [(k, v)]"
| "dict_set ((k', v') # d) k v = (if k' = k then (k', v) # d else (k', v') # dict_set d k v)"

record mapping_entry =
  rm_model :: pystr
  rm_role :: pystr
  rm_label :: pystr

definition response_mapping_of :: "council_member list \<Rightarrow> (pystr \<times> mapping_entry) list" where
  "response_mapping_of council_members =
     foldl (\<lambda>d member.
              dict_set d (cm_id member)
                \<lparr>rm_model = cm_model member, rm_role = cm_role member, rm_label = label member\<rparr>)
       [] council_members"

definition label_to_model_of :: "council_member list \<Rightarrow> (pystr \<times> pystr) list" where
  "label_to_model_of council_members =
     foldl (\<lambda>d member. dict_set d (label member) (cm_model member)) [] council_members"

definition responses_text :: "council_member list \<Rightarrow> stage1_result list \<Rightarrow> pystr" where
  "responses_text council_members stage1_results =
     join [10, 10]
       (map (\<lambda>(member, result). label member @ asc '':'' @ [10] @ s1_response result)
          (zip council_members stage1_results))"

definition ranking_prompt :: "pystr \<Rightarrow> pystr \<Rightarrow> pystr" where
  "ranking_prompt user_query resp_text = lines
     [asc ''You are evaluating different responses to the following question:'',
      [],
      asc ''Question: '' @ user_query,
      [],
      asc ''Here are the responses from different models (anonymized):'',
      [],
      resp_text,
      [],
      asc ''Your task:'',
      asc ''1) Evaluate each response briefly (strengths + weaknesses).'',
      asc ''2) Then, at the very end, provide a final ranking.'',
      [],
      asc ''IMPORTANT: Your final ranking MUST be formatted EXACTLY as follows:'',
      asc ''- Start with the line \"FINAL RANKING:\" (all caps, with colon)'',
      asc ''- Then list responses from best to worst as a numbered list'',
      asc ''- Each line must be: number, period, space, then ONLY the response label (e.g., \"1. Response A\")'',
      asc ''- Do not add any extra text in the ranking section'',
      [],
      asc ''Now provide your evaluation and ranking:'']"

text \<open>
  \<^verbatim>\<open>s.split(sep)\<close> for a separator that is not empty (the program's is a literal): the
  pieces between the occurrences of the separator, found from left to right.
\<close>

function split_acc :: "pystr \<Rightarrow> pystr \<Rightarrow> pystr \<Rightarrow> pystr list" where
  "split_acc sep acc [] = [rev acc]"
| "split_acc sep acc (c # cs) =
     (if sep \<noteq> [] \<and> starts_with sep (c # cs)
      then rev acc # split_acc sep [] (drop (length sep) (c # cs))
      else split_acc sep (c # acc) cs)"
  by pat_completeness auto
termination
  by (relation "measure (\<lambda>(sep, acc, s). length s)") auto

definition str_split :: "pystr \<Rightarrow> pystr \<Rightarrow> pystr list" where
  "str_split sep s = split_acc sep [] s"

text \<open>
  \<^verbatim>\<open>re.search(r"Response [A-Z]", m).group()\<close>: the first match in \<open>m\<close>; where there is
  none, \<^verbatim>\<open>re.search\<close> returns \<^verbatim>\<open>None\<close> and \<^verbatim>\<open>.group()\<close> raises AttributeError.
\<close>

definition search_response_group :: "pystr \<Rightarrow> py_error + pystr" where
  "search_response_group m =
     (case search (\<lambda>s. map_option (\<lambda>n. take n s) (match_response s)) m of
        None \<Rightarrow> Inl AttributeError
      | Some g \<Rightarrow> Inr g)"

text \<open>A list comprehension whose element may raise: the first error, or all the values.\<close>

fun collect :: "('e + 'a) list \<Rightarrow> 'e + 'a list" where
  "collect [] = Inr []"
| "collect (x # xs) =
     (case x of
        Inl e \<Rightarrow> Inl e
      | Inr v \<Rightarrow> (case collect xs of Inl e \<Rightarrow> Inl e | Inr vs \<Rightarrow> Inr (v # vs)))"

definition parse_ranking_from_text :: "pystr \<Rightarrow> py_error + pystr list" where
  "parse_ranking_from_text ranking_text =
     (if contains (asc ''FINAL RANKING:'') ranking_text then
        (let parts = str_split (asc ''FINAL RANKING:'') ranking_text in
         if length parts \<ge> 2 then
           (let ranking_section = parts ! 1;
                numbered = findall match_numbered ranking_section
            in if numbered \<noteq> [] then collect (map search_response_group numbered)
               else Inr (findall match_response ranking_section))
         else Inr (findall match_response ranking_text))
      else Inr (findall match_response ranking_text))"

text \<open>
  Modelled from the spec: the parallel invocation helper \<^verbatim>\<open>query_models_parallel\<close>
  (\<^verbatim>\<open>invokeAll(responderIDs, messages) -> map[responderID] -> text|failure\<close>) is not
  among the source files. It invokes every responder of the list with the same message
  and returns the map from responder identifier to reply or failure; as a Python
  dictionary the map has one entry per identifier, in the order of the list.
\<close>

definition query_models_parallel ::
  "gateway \<Rightarrow> pystr list \<Rightarrow> pystr \<Rightarrow> (pystr \<times> reply option) list"
where
  "query_models_parallel query_model models content =
     foldl (\<lambda>d (i, model). dict_set d model (query_model (RankingCall i) model content))
       [] (enumerate 0 models)"

record stage2_result =
  s2_model :: pystr
  s2_ranking :: pystr
  s2_parsed_ranking :: "pystr list"

text \<open>The loop over \<^verbatim>\<open>model_responses.items()\<close>.\<close>

fun stage2_loop :: "(pystr \<times> reply option) list \<Rightarrow> py_error + stage2_result list" where
  "stage2_loop [] = Inr []"
| "stage2_loop ((model, None) # rest) = stage2_loop rest"
| "stage2_loop ((model, Some resp) # rest) =
     (let full_text = get_content resp in
      case parse_ranking_from_text full_text of
        Inl e \<Rightarrow> Inl e
      | Inr parsed \<Rightarrow>
          (case stage2_loop rest of
             Inl e \<Rightarrow> Inl e
           | Inr stage2_results \<Rightarrow>
               Inr (\<lparr>s2_model = model, s2_ranking = full_text, s2_parsed_ranking = parsed\<rparr>
                      # stage2_results)))"

record mapping_metadata =
  mm_council_members :: "council_member list"
  mm_response_mapping :: "(pystr \<times> mapping_entry) list"
  mm_label_to_model :: "(pystr \<times> pystr) list"

definition stage2_prompt :: "pystr \<Rightarrow> stage1_result list \<Rightarrow> council_member list \<Rightarrow> pystr" where
  "stage2_prompt user_query stage1_results council_members =
     ranking_prompt user_query (responses_text council_members stage1_results)"

definition stage2_collect_rankings ::
  "gateway \<Rightarrow> pystr list \<Rightarrow> pystr \<Rightarrow> stage1_result list \<Rightarrow> council_member list \<Rightarrow>
     py_error + (stage2_result list \<times> mapping_metadata)"
where
  "stage2_collect_rankings query_model COUNCIL_MODELS user_query stage1_results council_members =
     (let model_responses =
            query_models_parallel query_model COUNCIL_MODELS
              (stage2_prompt user_query stage1_results council_members)
      in case stage2_loop model_responses of
           Inl e \<Rightarrow> Inl e
         | Inr stage2_results \<Rightarrow>
             Inr (stage2_results,
                  \<lparr>mm_council_members = council_members,
                   mm_response_mapping = response_mapping_of council_members,
                   mm_label_to_model = label_to_model_of council_members\<rparr>))"

section \<open>Floating-point numbers\<close>

text \<open>
  A Python \<^verbatim>\<open>float\<close> is an IEEE 754 binary64 number; it is modelled by the rational
  number it denotes. \<open>binary64 q\<close> is the float nearest to \<open>q\<close>, ties to the even
  significand of 53 bits. Every float of the program is a mean of list positions or
  such a mean rounded to two decimals, a number between 1 and the length of a list:
  overflow and subnormal numbers do not arise and are not modelled.
\<close>

definition round_half_even :: "rat \<Rightarrow> int" where
  "round_half_even x =
     (let f = \<lfloor>x\<rfloor>; d = x - of_int f in
      if d < 1 / 2 then f else if d > 1 / 2 then f + 1 else if even f then f else f + 1)"

text \<open>
  The exponent of a positive rational: \<open>ilog2 q\<close> is the integer \<open>e\<close> with
  \<open>2 ^ e \<le> q < 2 ^ (e + 1)\<close>. \<open>log2_nat n\<close> is that exponent for a natural number.
\<close>

fun log2_nat :: "nat \<Rightarrow> nat" where
  "log2_nat n = (if n < 2 then 0 else Suc (log2_nat (n div 2)))"

declare log2_nat.simps [simp del]

definition ilog2 :: "rat \<Rightarrow> int" where
  "ilog2 q =
     (if q \<ge> 1 then int (log2_nat (nat \<lfloor>q\<rfloor>))
      else - int (log2_nat (nat (\<lceil>1 / q\<rceil> - 1)) + 1))"

definition binary64 :: "rat \<Rightarrow> rat" where
  "binary64 q =
     (if q = 0 then 0
      else
        (let a = \<bar>q\<bar>; e = ilog2 a; m = round_half_even (a * 2 powi (52 - e))
         in sgn q * of_int m * 2 powi (e - 52)))"

text \<open>
  \<^verbatim>\<open>a / b\<close> on integers (true division) is the correctly rounded quotient. The
  program divides by the length of a list it has just found not to be empty.
\<close>

definition py_truediv :: "nat \<Rightarrow> nat \<Rightarrow> rat" where
  "py_truediv a b = binary64 (of_nat a / of_nat b)"

text \<open>
  \<^verbatim>\<open>round(x, ndigits)\<close> on a float: the decimal number with \<open>ndigits\<close> digits after
  the point nearest to the exact value of \<open>x\<close>, ties to the even digit, and of that
  decimal number the nearest float.
\<close>

definition round_py :: "rat \<Rightarrow> nat \<Rightarrow> rat" where
  "round_py x ndigits = binary64 (of_int (round_half_even (x * 10 ^ ndigits)) / 10 ^ ndigits)"

section \<open>Rank aggregation\<close>

text \<open>\<^verbatim>\<open>s.replace(old, new)\<close> for an \<open>old\<close> that is not empty.\<close>

function str_replace :: "pystr \<Rightarrow> pystr \<Rightarrow> pystr \<Rightarrow> pystr" where
  "str_replace old new [] = []"
| "str_replace old new (c # cs) =
     (if old \<noteq> [] \<and> starts_with old (c # cs)
      then new @ str_replace old new (drop (length old) (c # cs))
      else c # str_replace old new cs)"
  by pat_completeness auto
termination
  by (relation "measure (\<lambda>(old, new, s). length s)") auto

text \<open>\<^verbatim>\<open>model_positions[k].append(v)\<close> on a \<^verbatim>\<open>defaultdict(list)\<close>.\<close>

definition dict_append :: "('k \<times> 'v list) list \<Rightarrow> 'k \<Rightarrow> 'v \<Rightarrow> ('k \<times> 'v list) list" where
  "dict_append d k v =
     (case map_of d k of
        None \<Rightarrow> d @ [(k, [v])]
      | Some vs \<Rightarrow> dict_set d k (vs @ [v]))"

text \<open>
  \<^verbatim>\<open>ranking.get("parsed_ranking") or parse_ranking_from_text(ranking.get("ranking", ""))\<close>:
  an empty parsed ranking is parsed again from the text.
\<close>

definition parsed_or_reparsed :: "stage2_result \<Rightarrow> py_error + pystr list" where
  "parsed_or_reparsed ranking =
     (if s2_parsed_ranking ranking \<noteq> [] then Inr (s2_parsed_ranking ranking)
      else parse_ranking_from_text (s2_ranking ranking))"

text \<open>The inner loop over \<^verbatim>\<open>enumerate(parsed, start=1)\<close>.\<close>

fun record_positions ::
  "(pystr \<times> mapping_entry) list \<Rightarrow> (pystr \<times> nat list) list \<Rightarrow> (nat \<times> pystr) list \<Rightarrow>
     (pystr \<times> nat list) list"
where
  "record_positions response_mapping model_positions [] = model_positions"
| "record_positions response_mapping model_positions ((position, lbl) # rest) =
     (let response_id = strip (str_replace (asc ''Response '') [] lbl) in
      case map_of response_mapping response_id of
        Some mapping \<Rightarrow>
          record_positions response_mapping
            (dict_append model_positions (rm_model mapping) position) rest
      | None \<Rightarrow> record_positions response_mapping model_positions rest)"

text \<open>The outer loop over \<^verbatim>\<open>stage2_results\<close>.\<close>

fun collect_positions ::
  "(pystr \<times> mapping_entry) list \<Rightarrow> (pystr \<times> nat list) list \<Rightarrow> stage2_result list \<Rightarrow>
     py_error + (pystr \<times> nat list) list"
where
  "collect_positions response_mapping model_positions [] = Inr model_positions"
| "collect_positions response_mapping model_positions (ranking # rest) =
     (case parsed_or_reparsed ranking of
        Inl e \<Rightarrow> Inl e
      | Inr parsed \<Rightarrow>
          collect_positions response_mapping
            (record_positions response_mapping model_positions (enumerate 1 parsed)) rest)"

record aggregate_entry =
  ar_model :: pystr
  ar_role :: pystr
  ar_average_rank :: rat
  ar_rankings_count :: nat

text \<open>The role of a responder: that of the first entry of the mapping with its identifier.\<close>

definition role_of :: "(pystr \<times> mapping_entry) list \<Rightarrow> pystr \<Rightarrow> pystr" where
  "role_of response_mapping model =
     (case find (\<lambda>(resp_id, mapping). rm_model mapping = model) response_mapping of
        Some (resp_id, mapping) \<Rightarrow> rm_role mapping
      | None \<Rightarrow> asc ''Council Member'')"

definition entry_of :: "(pystr \<times> mapping_entry) list \<Rightarrow> pystr \<times> nat list \<Rightarrow> aggregate_entry" where
  "entry_of response_mapping mp =
     (case mp of (model, positions) \<Rightarrow>
        \<lparr>ar_model = model,
         ar_role = role_of response_mapping model,
         ar_average_rank = round_py (py_truediv (sum_list positions) (length positions)) 2,
         ar_rankings_count = length positions\<rparr>)"

text \<open>\<^verbatim>\<open>aggregate.sort(key=...)\<close> is a stable sort, as \<open>sort_key\<close> is.\<close>

definition calculate_aggregate_rankings ::
  "stage2_result list \<Rightarrow> (pystr \<times> mapping_entry) list \<Rightarrow> py_error + aggregate_entry list"
where
  "calculate_aggregate_rankings stage2_results response_mapping =
     (case collect_positions response_mapping [] stage2_results of
        Inl e \<Rightarrow> Inl e
      | Inr model_positions \<Rightarrow>
          Inr (sort_key ar_average_rank
                 (map (entry_of response_mapping)
                    (filter (\<lambda>(model, positions). positions \<noteq> []) model_positions))))"

section \<open>Stage 3: chairman synthesis\<close>

record stage3_result =
  s3_model :: pystr
  s3_response :: pystr
  s3_needs_human_review :: "bool option"

definition synthesis_text_delphi :: "delphi_result list \<Rightarrow> pystr" where
  "synthesis_text_delphi delphi_results =
     join [10, 10]
       (map (\<lambda>r. asc ''Model: '' @ d_model r @ [10] @
                 asc ''Decision: '' @ d_decision r @ [10] @
                 asc ''Reason: '' @ d_revision_reason r @ [10] @
                 asc ''Final Response: '' @ d_round2_response r)
          delphi_results)"

definition synthesis_text_stage1 :: "stage1_result list \<Rightarrow> pystr" where
  "synthesis_text_stage1 stage1_results =
     join [10, 10]
       (map (\<lambda>r. asc ''Model: '' @ s1_model r @ [10] @ asc ''Response: '' @ s1_response r)
          stage1_results)"

definition stage2_text :: "stage2_result list \<Rightarrow> pystr" where
  "stage2_text stage2_results =
     (if stage2_results \<noteq> [] then
        join [10, 10]
          (map (\<lambda>r. asc ''Model: '' @ s2_model r @ [10] @ asc ''Ranking: '' @ s2_ranking r)
             stage2_results)
      else asc ''No rankings available.'')"

text \<open>The en dash U+2013 and the em dash U+2014 of the prompt.\<close>

definition en_dash :: pystr where
  "en_dash = [8211]"

definition em_dash :: pystr where
  "em_dash = [8212]"

definition chairman_prompt_base :: "pystr \<Rightarrow> pystr \<Rightarrow> pystr \<Rightarrow> pystr \<Rightarrow> pystr" where
  "chairman_prompt_base user_query mode_context synthesis_text st2_text = lines
     [asc ''You are the Chairman of an AI Governance Council. Multiple AI models have deliberated on the user's question.'',
      [],
      asc ''Original Question:'',
      user_query,
      [],
      mode_context,
      synthesis_text,
      [],
      asc ''PEER RANKINGS:'',
      st2_text,
      [],
      asc ''You must produce a governance-grade output. Follow this structure exactly:'',
      [],
      asc ''A) CONSENSUS SUMMARY (3'' @ en_dash @ asc ''6 bullets)'',
      asc ''- What do most models agree on?'',
      [],
      asc ''B) KEY DISSENT (only if present)'',
      asc ''- Where do models materially disagree? Preserve dissent; do NOT force consensus.'',
      asc ''- If dissent involves legal/regulatory exposure, retroactive investigation, or blocking policies, mark it as HIGH-STAKES.'',
      [],
      asc ''C) 30'' @ en_dash @ asc ''60 DAY CONSOLIDATED PLAN (phased)'',
      asc ''- Phase 1 (Days 1'' @ en_dash @ asc ''15): immediate containment + safe-harbor rules'',
      asc ''- Phase 2 (Days 15'' @ en_dash @ asc ''30): sanctioned tools + minimal policy'',
      asc ''- Phase 3 (Days 30'' @ en_dash @ asc ''45): technical boundary controls'',
      asc ''- Phase 4 (Days 45'' @ en_dash @ asc ''60): training + monitoring + metrics'',
      asc ''Each phase MUST include: Owner, Action, Output.'',
      [],
      asc ''D) DECISION BOUNDARIES (when to escalate)'',
      asc ''List clear triggers that require human leadership or counsel. At minimum include:'',
      asc ''- handling regulated data (PII/PHI/PCI) or proprietary IP exposure,'',
      asc ''- retroactive forensic investigation or breach-notification decisions,'',
      asc ''- recommendations that materially increase legal or operational exposure,'',
      asc ''- strong unresolved disagreement after Delphi Round 2.'',
      [],
      asc ''E) KILL SWITCH / STOP CONDITIONS (fail-safe)'',
      asc ''Define 1'' @ en_dash @ asc ''2 conditions under which the organization must PAUSE rollout and activate incident response.'',
      asc ''Include who has authority to trigger the stop and what happens next.'',
      []]"

definition escalation_section :: pystr where
  "escalation_section = lines
     [[],
      asc ''F) ESCALATE TO HUMAN REVIEW '' @ em_dash @ asc '' HUMAN DECISION REQUIRED'',
      asc ''State clearly: \"HUMAN DECISION REQUIRED\".'',
      asc ''Describe:'',
      asc ''1) The specific decision point.'',
      asc ''2) 2'' @ en_dash @ asc ''3 options.'',
      asc ''3) Pros/cons + operational impact.'',
      asc ''Use compliance-safe language: do NOT recommend \"ignoring\" past exposure. Instead describe proportional investigation trade-offs and advise consulting counsel where required.'',
      []]"

text \<open>
  The prompt of the chairman. \<^verbatim>\<open>if delphi_results:\<close> holds for a list that is given
  and not empty.
\<close>

definition chairman_prompt ::
  "pystr \<Rightarrow> stage1_result list \<Rightarrow> stage2_result list \<Rightarrow> delphi_result list option \<Rightarrow> bool \<Rightarrow> pystr"
where
  "chairman_prompt user_query stage1_results stage2_results delphi_results needs_human_review =
     (let (synthesis_text, mode_context) =
            (case delphi_results of
               Some (r # rs) \<Rightarrow>
                 (synthesis_text_delphi (r # rs),
                  asc ''After a Delphi reflection round where models reviewed anonymized peer feedback:'')
             | _ \<Rightarrow> (synthesis_text_stage1 stage1_results, asc ''Individual responses:''))
      in chairman_prompt_base user_query mode_context synthesis_text (stage2_text stage2_results)
         @ (if needs_human_review then escalation_section else [])
         @ [10] @ asc ''Provide your final synthesis now.'')"

definition stage3_synthesize_final ::
  "gateway \<Rightarrow> pystr \<Rightarrow> pystr \<Rightarrow> stage1_result list \<Rightarrow> stage2_result list \<Rightarrow>
     delphi_result list option \<Rightarrow> bool \<Rightarrow> stage3_result"
where
  "stage3_synthesize_final query_model CHAIRMAN_MODEL user_query stage1_results stage2_results
       delphi_results needs_human_review =
     (case query_model ChairmanCall CHAIRMAN_MODEL
             (chairman_prompt user_query stage1_results stage2_results delphi_results
                needs_human_review) of
        None \<Rightarrow>
          \<lparr>s3_model = CHAIRMAN_MODEL,
           s3_response = asc ''Error: Unable to generate final synthesis.'',
           s3_needs_human_review = Some needs_human_review\<rparr>
      | Some resp \<Rightarrow>
          \<lparr>s3_model = CHAIRMAN_MODEL,
           s3_response = get_content resp,
           s3_needs_human_review = Some needs_human_review\<rparr>)"

section \<open>The full pipeline\<close>

text \<open>
  The session metadata; the run in which every responder fails returns the empty
  dictionary instead, which is \<open>None\<close> here, and a synthesis object without the key
  \<^verbatim>\<open>needs_human_review\<close>.
\<close>

record metadata =
  meta_council_members :: "council_member list"
  meta_response_mapping :: "(pystr \<times> mapping_entry) list"
  meta_label_to_model :: "(pystr \<times> pystr) list"
  meta_aggregate_rankings :: "aggregate_entry list"
  meta_delphi_mode :: bool
  meta_delphi_results :: "delphi_result list option"
  meta_needs_human_review :: bool

text \<open>
  The configuration \<^verbatim>\<open>COUNCIL_MODELS\<close>, \<^verbatim>\<open>CHAIRMAN_MODEL\<close> and \<^verbatim>\<open>DELPHI_MODE\<close> is
  imported from a module that is not among the source files; it is a parameter.
\<close>

definition ranking_input_of ::
  "bool \<Rightarrow> stage1_result list \<Rightarrow> delphi_result list option \<Rightarrow> stage1_result list"
where
  "ranking_input_of DELPHI_MODE stage1_results delphi_results =
     (case delphi_results of
        Some (r # rs) \<Rightarrow>
          if DELPHI_MODE then
            map (\<lambda>r. \<lparr>s1_member_id = d_member_id r, s1_model = d_model r,
                       s1_response = d_round2_response r\<rparr>) (r # rs)
          else stage1_results
      | _ \<Rightarrow> stage1_results)"

definition run_full_council ::
  "gateway \<Rightarrow> pystr list \<Rightarrow> pystr \<Rightarrow> bool \<Rightarrow> pystr \<Rightarrow>
     py_error + (stage1_result list \<times> stage2_result list \<times> stage3_result \<times> metadata option)"
where
  "run_full_council query_model COUNCIL_MODELS CHAIRMAN_MODEL DELPHI_MODE user_query =
     (case stage1_collect_responses query_model COUNCIL_MODELS user_query of
        Inl e \<Rightarrow> Inl e
      | Inr (stage1_results, council_members) \<Rightarrow>
          if stage1_results = [] then
            Inr ([], [],
                 \<lparr>s3_model = asc ''error'',
                  s3_response = asc ''All models failed to respond. Please try again.'',
                  s3_needs_human_review = None\<rparr>,
                 None)
          else
            (let (delphi_results, needs_human_review) =
                   (if DELPHI_MODE then
                      (case stage1_5_delphi_reflection query_model user_query stage1_results
                              council_members of
                         (rs, flag) \<Rightarrow> (Some rs, flag))
                    else (None, False));
                 ranking_input = ranking_input_of DELPHI_MODE stage1_results delphi_results
             in case stage2_collect_rankings query_model COUNCIL_MODELS user_query ranking_input
                       council_members of
                  Inl e \<Rightarrow> Inl e
                | Inr (stage2_results, mapping_metadata) \<Rightarrow>
                    (let response_mapping = mm_response_mapping mapping_metadata in
                     case calculate_aggregate_rankings stage2_results response_mapping of
                       Inl e \<Rightarrow> Inl e
                     | Inr aggregate_rankings \<Rightarrow>
                         (let stage3_result =
                                stage3_synthesize_final query_model CHAIRMAN_MODEL user_query
                                  stage1_results stage2_results delphi_results needs_human_review
                          in Inr (stage1_results, stage2_results, stage3_result,
                                  Some \<lparr>meta_council_members = mm_council_members mapping_metadata,
                                        meta_response_mapping = response_mapping,
                                        meta_label_to_model = mm_label_to_model mapping_metadata,
                                        meta_aggregate_rankings = aggregate_rankings,
                                        meta_delphi_mode = DELPHI_MODE,
                                        meta_delphi_results =
                                          (if DELPHI_MODE then delphi_results else None),
                                        meta_needs_human_review = needs_human_review\<rparr>)))))"

section \<open>Vocabulary of the properties\<close>

text \<open>The responders of a Stage-1 run whose call succeeded, in the order of the run.\<close>

definition successes :: "(pystr \<times> reply option) list \<Rightarrow> pystr list" where
  "successes mrs = map fst (filter (\<lambda>p. snd p \<noteq> None) mrs)"

text \<open>A text that is one upper-case letter A to Z.\<close>

definition is_upper_letter :: "pystr \<Rightarrow> bool" where
  "is_upper_letter l = (case l of [c] \<Rightarrow> is_upper c | _ \<Rightarrow> False)"

text \<open>Twenty-seven responders, all of which answer in Stage 1.\<close>

definition twenty_seven_replies :: "(pystr \<times> reply option) list" where
  "twenty_seven_replies = map (\<lambda>i. (asc ''m'' @ str_nat i, Some (Some (asc ''ok'')))) [0..<27]"

text \<open>
  A phrase occurs in a text without regard to letter case. The phrases are written in
  small ASCII letters; a code point of the text stands for the code point \<open>d\<close> of a
  phrase when it is \<open>d\<close> itself, the capital ASCII letter of \<open>d\<close>, or the Kelvin sign
  U+212A, the second capital form of the letter k. \<open>occurs_at\<close>: the phrase is read
  code point by code point at the start of the text; \<open>occurs_ci\<close>: it is read
  somewhere in the text.
\<close>

definition same_letter :: "nat \<Rightarrow> nat \<Rightarrow> bool" where
  "same_letter d c \<longleftrightarrow> c = d \<or> (is_upper c \<and> c + 32 = d) \<or> (d = 107 \<and> c = 8490)"

fun occurs_at :: "pystr \<Rightarrow> pystr \<Rightarrow> bool" where
  "occurs_at [] t = True"
| "occurs_at (d # p) [] = False"
| "occurs_at (d # p) (c # t) = (same_letter d c \<and> occurs_at p t)"

fun occurs_ci :: "pystr \<Rightarrow> pystr \<Rightarrow> bool" where
  "occurs_ci p [] = occurs_at p []"
| "occurs_ci p (c # t) = (occurs_at p (c # t) \<or> occurs_ci p t)"

text \<open>A phrase of small letters: ASCII, no capital letter, not empty, not ending in i.\<close>

definition small_phrase :: "pystr \<Rightarrow> bool" where
  "small_phrase p \<longleftrightarrow> p \<noteq> [] \<and> last p \<noteq> 105 \<and> (\<forall>d \<in> set p. d < 128 \<and> \<not> is_upper d)"

text \<open>The part of a text before the first occurrence of a separator (the whole text when
  there is none), and the part after that occurrence.\<close>

fun before_first :: "pystr \<Rightarrow> pystr \<Rightarrow> pystr" where
  "before_first sep [] = []"
| "before_first sep (c # cs) = (if starts_with sep (c # cs) then [] else c # before_first sep cs)"

fun after_first :: "pystr \<Rightarrow> pystr \<Rightarrow> pystr" where
  "after_first sep [] = []"
| "after_first sep (c # cs) =
     (if starts_with sep (c # cs) then drop (length sep) (c # cs) else after_first sep cs)"

text \<open>The last ten code points of a numbered match: its token \<^verbatim>\<open>Response X\<close>.\<close>

definition label_token :: "pystr \<Rightarrow> pystr" where
  "label_token m = drop (length m - 10) m"

text \<open>A label token: \<^verbatim>\<open>Response\<close>, a blank and one upper-case letter.\<close>

definition is_label :: "pystr \<Rightarrow> bool" where
  "is_label l \<longleftrightarrow> (\<exists>c. is_upper c \<and> l = asc ''Response '' @ [c])"

text \<open>
  The section the parser reads when the marker occurs: the text after the first marker,
  up to the next marker if there is one.
\<close>

definition ranking_section :: "pystr \<Rightarrow> pystr" where
  "ranking_section t = before_first (asc ''FINAL RANKING:'') (after_first (asc ''FINAL RANKING:'') t)"

text \<open>The three tiers of the ranking parser.\<close>

definition parsed_labels :: "pystr \<Rightarrow> pystr list" where
  "parsed_labels t =
     (if contains (asc ''FINAL RANKING:'') t then
        (if findall match_numbered (ranking_section t) \<noteq> []
         then map label_token (findall match_numbered (ranking_section t))
         else findall match_response (ranking_section t))
      else findall match_response t)"

text \<open>An evaluation text that names the marker before the ranking block.\<close>

definition two_marker_text :: pystr where
  "two_marker_text =
     asc ''I give my FINAL RANKING: below.'' @ [10] @
     asc ''FINAL RANKING:'' @ [10] @ asc ''1. Response B'' @ [10] @ asc ''2. Response A''"

text \<open>
  The outcome of a member whose reflection call failed, and that of a member who
  answered with a given text.
\<close>

definition pass_through :: "council_member \<Rightarrow> stage1_result \<Rightarrow> delphi_result" where
  "pass_through member round1 =
     \<lparr>d_member_id = cm_id member, d_model = cm_model member,
      d_round1_response = s1_response round1, d_round2_response = s1_response round1,
      d_decision = asc ''AFFIRM'',
      d_revision_reason = asc ''Model did not respond to reflection prompt'',
      d_has_material_disagreement = False\<rparr>"

definition parsed_outcome :: "council_member \<Rightarrow> stage1_result \<Rightarrow> pystr \<Rightarrow> delphi_result" where
  "parsed_outcome member round1 response_text =
     (case parse_delphi_response response_text of
        (decision, justification, final_response) \<Rightarrow>
          \<lparr>d_member_id = cm_id member, d_model = cm_model member,
           d_round1_response = s1_response round1, d_round2_response = final_response,
           d_decision = decision, d_revision_reason = justification,
           d_has_material_disagreement = detect_material_disagreement response_text\<rparr>)"

text \<open>The outcome of one member, from the reply to its reflection call.\<close>

definition outcome_of :: "council_member \<times> stage1_result \<times> reply option \<Rightarrow> delphi_result" where
  "outcome_of x =
     (case x of
        (member, round1, None) \<Rightarrow> pass_through member round1
      | (member, round1, Some resp) \<Rightarrow> parsed_outcome member round1 (get_content resp))"

text \<open>
  A small session: two responders that answer in Stage 1; the first does not answer
  the reflection prompt.
\<close>

definition sample_models :: "pystr list" where
  "sample_models = [asc ''m1'', asc ''m2'']"

fun sample_gateway :: gateway where
  "sample_gateway (Stage1Call i) model content = Some (Some (asc ''answer''))"
| "sample_gateway (ReflectionCall i) model content =
     (if i = 0 then None else Some (Some (asc ''DECISION: REVISE'')))"
| "sample_gateway (RankingCall i) model content = Some (Some (asc ''FINAL RANKING: 1. Response A''))"
| "sample_gateway ChairmanCall model content = Some (Some (asc ''synthesis''))"

definition sample_results :: "stage1_result list" where
  "sample_results =
     [\<lparr>s1_member_id = asc ''A'', s1_model = asc ''m1'', s1_response = asc ''answer''\<rparr>,
      \<lparr>s1_member_id = asc ''B'', s1_model = asc ''m2'', s1_response = asc ''answer''\<rparr>]"

definition sample_members :: "council_member list" where
  "sample_members =
     [\<lparr>cm_id = asc ''A'', cm_model = asc ''m1'', cm_role = asc ''Council Member''\<rparr>,
      \<lparr>cm_id = asc ''B'', cm_model = asc ''m2'', cm_role = asc ''Council Member''\<rparr>]"

text \<open>
  The Stage-2 results for a dictionary of replies: one entry per responder that answered,
  in the order of the dictionary, with the labels the parser reads from the answer.
\<close>

definition stage2_results_of :: "(pystr \<times> reply option) list \<Rightarrow> stage2_result list" where
  "stage2_results_of xs =
     concat (map (\<lambda>(model, resp).
                    case resp of
                      None \<Rightarrow> []
                    | Some r \<Rightarrow>
                        [\<lparr>s2_model = model, s2_ranking = get_content r,
                          s2_parsed_ranking = parsed_labels (get_content r)\<rparr>]) xs)"

text \<open>The sample session with every responder identifier changed, labels and texts kept.\<close>

definition renamed_results :: "stage1_result list" where
  "renamed_results = map (\<lambda>r. r\<lparr>s1_model := asc ''other/'' @ s1_model r\<rparr>) sample_results"

definition renamed_members :: "council_member list" where
  "renamed_members = map (\<lambda>m. m\<lparr>cm_model := asc ''other/'' @ cm_model m\<rparr>) sample_members"

text \<open>
  The reflection outcomes and the flag of a run: those of Stage 1.5 when the Delphi flag
  is set, none and false otherwise.
\<close>

definition reflection_of ::
  "gateway \<Rightarrow> bool \<Rightarrow> pystr \<Rightarrow> stage1_result list \<Rightarrow> council_member list \<Rightarrow>
     delphi_result list option \<times> bool"
where
  "reflection_of q dm uq rs ms =
     (if dm then (Some (fst (stage1_5_delphi_reflection q uq rs ms)),
                  snd (stage1_5_delphi_reflection q uq rs ms))
      else (None, False))"

text \<open>
  A session in which the first responder fails in Stage 1 and answers the ranking prompt
  of Stage 2, while the second answers in Stage 1 only.
\<close>

fun late_gateway :: gateway where
  "late_gateway (Stage1Call i) model content =
     (if i = 0 then None else Some (Some (asc ''answer'')))"
| "late_gateway (ReflectionCall i) model content = None"
| "late_gateway (RankingCall i) model content =
     (if i = 0 then Some (Some (asc ''FINAL RANKING: 1. Response A'')) else None)"
| "late_gateway ChairmanCall model content = Some (Some (asc ''synthesis''))"

text \<open>
  The end-to-end scenario: three responders that all answer in Stage 1, the reflection
  round disabled; the first ranks A, B, C, the second B, A, C, and the answer of the
  third cannot be parsed.
\<close>

definition scenario_models :: "pystr list" where
  "scenario_models = [asc ''m1'', asc ''m2'', asc ''m3'']"

definition rank_ABC :: pystr where
  "rank_ABC = asc ''FINAL RANKING:'' @ [10] @ asc ''1. Response A'' @ [10] @
              asc ''2. Response B'' @ [10] @ asc ''3. Response C''"

definition rank_BAC :: pystr where
  "rank_BAC = asc ''FINAL RANKING:'' @ [10] @ asc ''1. Response B'' @ [10] @
              asc ''2. Response A'' @ [10] @ asc ''3. Response C''"

fun scenario_gateway :: gateway where
  "scenario_gateway (Stage1Call i) model content = Some (Some (asc ''answer''))"
| "scenario_gateway (ReflectionCall i) model content = None"
| "scenario_gateway (RankingCall i) model content =
     Some (Some (if i = 0 then rank_ABC else if i = 1 then rank_BAC
                 else asc ''I cannot decide.''))"
| "scenario_gateway ChairmanCall model content = Some (Some (asc ''synthesis''))"

text \<open>The Stage-1 results, the members and the Stage-2 results of the scenario.\<close>

definition scenario_results :: "stage1_result list" where
  "scenario_results =
     [\<lparr>s1_member_id = asc ''A'', s1_model = asc ''m1'', s1_response = asc ''answer''\<rparr>,
      \<lparr>s1_member_id = asc ''B'', s1_model = asc ''m2'', s1_response = asc ''answer''\<rparr>,
      \<lparr>s1_member_id = asc ''C'', s1_model = asc ''m3'', s1_response = asc ''answer''\<rparr>]"

definition scenario_members :: "council_member list" where
  "scenario_members =
     [\<lparr>cm_id = asc ''A'', cm_model = asc ''m1'', cm_role = asc ''Council Member''\<rparr>,
      \<lparr>cm_id = asc ''B'', cm_model = asc ''m2'', cm_role = asc ''Council Member''\<rparr>,
      \<lparr>cm_id = asc ''C'', cm_model = asc ''m3'', cm_role = asc ''Council Member''\<rparr>]"

definition scenario_rankings :: "stage2_result list" where
  "scenario_rankings =
     [\<lparr>s2_model = asc ''m1'', s2_ranking = rank_ABC,
       s2_parsed_ranking = [asc ''Response A'', asc ''Response B'', asc ''Response C'']\<rparr>,
      \<lparr>s2_model = asc ''m2'', s2_ranking = rank_BAC,
       s2_parsed_ranking = [asc ''Response B'', asc ''Response A'', asc ''Response C'']\<rparr>,
      \<lparr>s2_model = asc ''m3'', s2_ranking = asc ''I cannot decide.'', s2_parsed_ranking = []\<rparr>]"

text \<open>The aggregate ranking and the metadata the code computes in the scenario.\<close>

definition scenario_aggregate :: "aggregate_entry list" where
  "scenario_aggregate =
     [\<lparr>ar_model = asc ''m1'', ar_role = asc ''Council Member'', ar_average_rank = 3 / 2,
       ar_rankings_count = 2\<rparr>,
      \<lparr>ar_model = asc ''m2'', ar_role = asc ''Council Member'', ar_average_rank = 3 / 2,
       ar_rankings_count = 2\<rparr>,
      \<lparr>ar_model = asc ''m3'', ar_role = asc ''Council Member'', ar_average_rank = 3,
       ar_rankings_count = 2\<rparr>]"

definition scenario_metadata :: metadata where
  "scenario_metadata =
     \<lparr>meta_council_members = scenario_members,
      meta_response_mapping = response_mapping_of scenario_members,
      meta_label_to_model = label_to_model_of scenario_members,
      meta_aggregate_rankings = scenario_aggregate,
      meta_delphi_mode = False,
      meta_delphi_results = None,
      meta_needs_human_review = False\<rparr>"

text \<open>
  The vocabulary of the rank aggregator. The responder a label maps to; the sequence of
  labels the aggregator reads from a submission; the mentions of a submission, each the
  1-based position of a label that is in the map with the responder it maps to; the
  mentions of all submissions in the order of recording; the positions recorded for a
  responder; the elements of a list in the order of their first occurrence; the mean of
  a list of positions rounded to two decimals; and the entries of the aggregate ranking
  before sorting, one per responder in the order of first mention.
\<close>

definition responder_of :: "(pystr \<times> mapping_entry) list \<Rightarrow> pystr \<Rightarrow> pystr option" where
  "responder_of rm lbl =
     map_option rm_model (map_of rm (strip (str_replace (asc ''Response '') [] lbl)))"

definition effective_ranking :: "stage2_result \<Rightarrow> pystr list" where
  "effective_ranking r =
     (if s2_parsed_ranking r \<noteq> [] then s2_parsed_ranking r else parsed_labels (s2_ranking r))"

definition mentions_in :: "(pystr \<times> mapping_entry) list \<Rightarrow> (nat \<times> pystr) list \<Rightarrow> (nat \<times> pystr) list" where
  "mentions_in rm ps =
     concat (map (\<lambda>(pos, lbl). case responder_of rm lbl of None \<Rightarrow> [] | Some m \<Rightarrow> [(pos, m)]) ps)"

definition mentions_of :: "(pystr \<times> mapping_entry) list \<Rightarrow> stage2_result \<Rightarrow> (nat \<times> pystr) list" where
  "mentions_of rm r = mentions_in rm (enumerate 1 (effective_ranking r))"

definition all_mentions :: "(pystr \<times> mapping_entry) list \<Rightarrow> stage2_result list \<Rightarrow> (nat \<times> pystr) list" where
  "all_mentions rm subs = concat (map (mentions_of rm) subs)"

definition positions_of :: "(nat \<times> pystr) list \<Rightarrow> pystr \<Rightarrow> nat list" where
  "positions_of ms m = map fst (filter (\<lambda>(pos, x). x = m) ms)"

definition first_seen :: "'a list \<Rightarrow> 'a list" where
  "first_seen xs = foldl (\<lambda>acc x. if x \<in> set acc then acc else acc @ [x]) [] xs"

definition rounded_mean :: "nat list \<Rightarrow> rat" where
  "rounded_mean ps = round_py (py_truediv (sum_list ps) (length ps)) 2"

definition entries_in_order :: "stage2_result list \<Rightarrow> (pystr \<times> mapping_entry) list \<Rightarrow> aggregate_entry list" where
  "entries_in_order subs rm =
     map (\<lambda>m. \<lparr>ar_model = m, ar_role = role_of rm m,
                ar_average_rank = rounded_mean (positions_of (all_mentions rm subs) m),
                ar_rankings_count = length (positions_of (all_mentions rm subs) m)\<rparr>)
       (first_seen (map snd (all_mentions rm subs)))"

text \<open>The dictionary after recording a sequence of mentions, and the list stored under a key.\<close>

definition record_all :: "(pystr \<times> nat list) list \<Rightarrow> (nat \<times> pystr) list \<Rightarrow> (pystr \<times> nat list) list" where
  "record_all mp ms = foldl (\<lambda>mp (pos, m). dict_append mp m pos) mp ms"

definition vals :: "('k \<times> 'v list) list \<Rightarrow> 'k \<Rightarrow> 'v list" where
  "vals d k = (case map_of d k of None \<Rightarrow> [] | Some vs \<Rightarrow> vs)"

text \<open>The number of submissions that mention a responder at least once.\<close>

definition contributing :: "(pystr \<times> mapping_entry) list \<Rightarrow> stage2_result list \<Rightarrow> pystr \<Rightarrow> nat" where
  "contributing rm subs m = length (filter (\<lambda>r. m \<in> snd ` set (mentions_of rm r)) subs)"

text \<open>
  An evaluation without the marker that mentions Response A twice, and the Stage-2
  result built from it.
\<close>

definition repeated_text :: pystr where
  "repeated_text = asc ''Response A is clear. Response A is also short.''"

definition repeated_submission :: stage2_result where
  "repeated_submission =
     \<lparr>s2_model = asc ''m2'', s2_ranking = repeated_text,
      s2_parsed_ranking = [asc ''Response A'', asc ''Response A'']\<rparr>"

text \<open>
  The markers of a reflection response are read without regard to letter case. A code
  point \<open>c\<close> of the text reads as the character \<open>d\<close> of a marker, which is a capital
  ASCII letter, a colon or a blank, when it is \<open>d\<close>, the small letter of \<open>d\<close>, or one of
  the further forms of a letter: U+0130 and U+0131 for I, U+017F for S, U+212A for K.
  \<open>marker_at p s\<close>: the marker \<open>p\<close> is read at the start of \<open>s\<close>.
\<close>

definition reads_as :: "nat \<Rightarrow> nat \<Rightarrow> bool" where
  "reads_as d c \<longleftrightarrow>
     c = d \<or> (is_upper d \<and> c = d + 32) \<or> (d = 73 \<and> (c = 304 \<or> c = 305)) \<or>
     (d = 83 \<and> c = 383) \<or> (d = 75 \<and> c = 8490)"

fun marker_at :: "pystr \<Rightarrow> pystr \<Rightarrow> bool" where
  "marker_at [] s = True"
| "marker_at (d # p) [] = False"
| "marker_at (d # p) (c # cs) = (reads_as d c \<and> marker_at p cs)"








section \<open>Stage 1: member labels\<close>

lemma successes_simps [simp]:
  "successes [] = []"
  "successes ((m, None) # rest) = successes rest"
  "successes ((m, Some r) # rest) = m # successes rest"
  by (simp_all add: successes_def)

lemma stage1_loop_returns:
  "c + length (successes mrs) \<le> 1114047 \<Longrightarrow> \<exists>rs ms. stage1_loop c mrs = Inr (rs, ms)"
proof (induction c mrs rule: stage1_loop.induct)
  case (1 c)
  then show ?case by simp
next
  case (2 c model rest)
  then show ?case by simp
next
  case (3 c model resp rest)
  have ch: "chr_py (65 + c) = Inr [65 + c]" using 3(2) by (simp add: chr_py_def)
  moreover have "\<exists>rs ms. stage1_loop (c + 1) rest = Inr (rs, ms)"
    using 3 ch by simp
  ultimately show ?case by auto
qed

lemma stage1_loop_members:
  "stage1_loop c mrs = Inr (rs, ms) \<Longrightarrow>
     map cm_model ms = successes mrs \<and>
     map cm_id ms = map (\<lambda>i. [65 + c + i]) [0..<length (successes mrs)] \<and>
     map s1_member_id rs = map cm_id ms \<and> map s1_model rs = map cm_model ms"
proof (induction c mrs arbitrary: rs ms rule: stage1_loop.induct)
  case (1 c)
  then show ?case by simp
next
  case (2 c model rest)
  then show ?case by simp
next
  case (3 c model resp rest)
  from 3(2) obtain rs' ms' where
    ch: "chr_py (65 + c) = Inr [65 + c]" and
    rec: "stage1_loop (c + 1) rest = Inr (rs', ms')" and
    rs: "rs = \<lparr>s1_member_id = [65 + c], s1_model = model, s1_response = get_content resp\<rparr> # rs'" and
    ms: "ms = \<lparr>cm_id = [65 + c], cm_model = model, cm_role = get_governance_role model\<rparr> # ms'"
    by (auto simp: chr_py_def split: if_splits sum.splits)
  have ih: "map cm_model ms' = successes rest \<and>
     map cm_id ms' = map (\<lambda>i. [65 + (c + 1) + i]) [0..<length (successes rest)] \<and>
     map s1_member_id rs' = map cm_id ms' \<and> map s1_model rs' = map cm_model ms'"
    using 3(1)[OF ch rec] .
  have "map (\<lambda>i. [65 + c + i]) [0..<Suc (length (successes rest))]
      = [65 + c] # map (\<lambda>i. [65 + (c + 1) + i]) [0..<length (successes rest)]"
    by (simp add: upt_conv_Cons map_Suc_upt[symmetric] del: upt_Suc)
  then show ?case using ih rs ms by simp
qed

lemma distinct_labels: "distinct (map (\<lambda>i. [65 + c + i]) [0..<n::nat])"
  by (simp add: distinct_map inj_on_def)

text \<open>
  What Stage 1 guarantees in general. For every Stage-1 run with at most 1114047
  successful responders the loop returns; the members are exactly the responders whose
  call succeeded, in the order of the input list; the label of the \<open>i\<close>-th member
  (counted from 0) is the single character of code point \<open>65 + i\<close>, so the labels start
  at A and are contiguous; they are pairwise distinct; the Stage-1 results carry the
  same labels and responders; and the number of labels is the number of successes.
  The labels are upper-case letters whenever at most 26 responders succeed.
\<close>

lemma stage1_labels:
  assumes "length (successes mrs) \<le> 1114047"
  shows "\<exists>rs ms. stage1_loop 0 mrs = Inr (rs, ms) \<and>
           map cm_model ms = successes mrs \<and>
           map cm_id ms = map (\<lambda>i. [65 + i]) [0..<length (successes mrs)] \<and>
           distinct (map cm_id ms) \<and>
           map s1_member_id rs = map cm_id ms \<and>
           map s1_model rs = map cm_model ms \<and>
           (length (successes mrs) \<le> 26 \<longrightarrow> list_all is_upper_letter (map cm_id ms))"
proof -
  from assms obtain rs ms where r: "stage1_loop 0 mrs = Inr (rs, ms)"
    using stage1_loop_returns[of 0 mrs] by auto
  note m = stage1_loop_members[OF r]
  have ids: "map cm_id ms = map (\<lambda>i. [65 + i]) [0..<length (successes mrs)]"
    using m by simp
  have d: "distinct (map cm_id ms)"
    using distinct_labels[of 0 "length (successes mrs)"] ids by simp
  have u: "length (successes mrs) \<le> 26 \<longrightarrow> list_all is_upper_letter (map cm_id ms)"
    by (simp add: ids list_all_iff is_upper_letter_def is_upper_def)
  show ?thesis using r m ids d u by blast
qed

lemma stage1_labels_example:
  "\<exists>rs ms. stage1_loop 0
              [(asc ''m1'', Some (Some (asc ''x''))), (asc ''m2'', None), (asc ''m3'', Some None)]
              = Inr (rs, ms) \<and>
           map cm_model ms = [asc ''m1'', asc ''m3''] \<and>
           map cm_id ms = [asc ''A'', asc ''B''] \<and>
           map s1_member_id rs = [asc ''A'', asc ''B''] \<and>
           list_all is_upper_letter (map cm_id ms)"
proof -
  let ?mrs = "[(asc ''m1'', Some (Some (asc ''x''))), (asc ''m2'', None), (asc ''m3'', Some None)]"
  have s: "successes ?mrs = [asc ''m1'', asc ''m3'']" by simp
  have h: "length (successes ?mrs) \<le> 1114047" by (simp only: s) simp
  have h26: "length (successes ?mrs) \<le> 26" by (simp only: s) simp
  from stage1_labels [OF h] h26 obtain rs ms where
    "stage1_loop 0 ?mrs = Inr (rs, ms)" "map cm_model ms = successes ?mrs"
    "map cm_id ms = map (\<lambda>i. [65 + i]) [0..<length (successes ?mrs)]"
    "map s1_member_id rs = map cm_id ms" "list_all is_upper_letter (map cm_id ms)"
    by blast
  moreover have "map (\<lambda>i. [65 + i]) [0..<length (successes ?mrs)] = [asc ''A'', asc ''B'']"
    by (simp only: s) (simp add: asc_def upt_conv_Cons)
  ultimately show ?thesis
    using s by (intro exI[of _ rs] exI[of _ ms]) (simp del: stage1_loop.simps)
qed

text \<open>
  C1, at twenty-seven successful responders. The program labels the members
  \<^verbatim>\<open>chr(65 + member_id_counter)\<close> and notes \<^verbatim>\<open>'A', 'B', 'C'...\<close> beside it, yet the
  counter has no bound: the twenty-seventh member gets \<^verbatim>\<open>chr(91)\<close>, the bracket \<^verbatim>\<open>[\<close>, which
  is not an upper-case letter. Its label \<^verbatim>\<open>Response [\<close> is not matched by the pattern
  \<^verbatim>\<open>Response [A-Z]\<close> of the ranking parser, so a ranking that names this member loses
  it.
\<close>

theorem stage1_label_27:
  "(case stage1_loop 0 twenty_seven_replies of
      Inl e \<Rightarrow> False
    | Inr (rs, ms) \<Rightarrow>
        length ms = 27 \<and> cm_id (ms ! 26) = asc ''['' \<and> \<not> is_upper_letter (cm_id (ms ! 26)) \<and>
        label (ms ! 26) = asc ''Response ['' \<and>
        match_response (label (ms ! 26)) = None) \<and>
   parse_ranking_from_text
     (asc ''FINAL RANKING:'' @ [10] @ asc ''1. Response ['' @ [10] @ asc ''2. Response A'')
     = Inr [asc ''Response A'']"
proof -
  have "case stage1_loop 0 twenty_seven_replies of
      Inl e \<Rightarrow> False
    | Inr (rs, ms) \<Rightarrow>
        length ms = 27 \<and> cm_id (ms ! 26) = asc ''['' \<and> \<not> is_upper_letter (cm_id (ms ! 26)) \<and>
        label (ms ! 26) = asc ''Response ['' \<and>
        match_response (label (ms ! 26)) = None"
    by (simp add: twenty_seven_replies_def upt_conv_Cons chr_py_def asc_def is_upper_letter_def
        is_upper_def label_def match_response_def)
  moreover have "parse_ranking_from_text
     (asc ''FINAL RANKING:'' @ [10] @ asc ''1. Response ['' @ [10] @ asc ''2. Response A'')
     = Inr [asc ''Response A'']"
    by (simp add: parse_ranking_from_text_def asc_def str_split_def match_numbered_def
        match_response_def is_digit_def is_space_def is_upper_def search_response_group_def
        label_token_def)
  ultimately show ?thesis by simp
qed

section \<open>Facts about texts\<close>

lemma starts_with_iff: "starts_with p s \<longleftrightarrow> (\<exists>r. s = p @ r)"
  by (induction p s rule: starts_with.induct) auto

lemma contains_iff: "contains p s \<longleftrightarrow> (\<exists>u v. s = u @ p @ v)"
proof (induction s)
  case Nil
  then show ?case by auto
next
  case (Cons c cs)
  have "(\<exists>u v. c # cs = u @ p @ v) \<longleftrightarrow> (\<exists>r. c # cs = p @ r) \<or> (\<exists>u v. cs = u @ p @ v)"
    by (auto simp: Cons_eq_append_conv)
  then show ?case using Cons by (simp add: starts_with_iff)
qed

text \<open>
  Letter case and digits at some code points beyond ASCII: the Kelvin sign and U+0130,
  the capital sigma at the end and inside of a word, the sharp s, the long s and the
  dotless i, an Arabic-Indic digit and the superscript two (which is no decimal digit).
\<close>

lemma case_examples:
  "lower (asc ''Block ALL'') = asc ''block all''"
  "lower [75, 8490, 304] = [107, 107, 105, 775]"
  "lower [198] = [230]"
  "lower [913, 931] = [945, 962]"
  "lower [931, 945] = [963, 945]"
  "lower [913, 931, 46, 914] = [945, 963, 46, 946]"
  "upper (asc ''Revise'') = asc ''REVISE''"
  "upper [223, 383, 305, 304] = [83, 83, 83, 73, 304]"
  "is_digit 1633" "\<not> is_digit 178" "is_digit 55" "\<not> is_digit 65"
  by (simp_all add: lower_def lower_cp_def lower_char_def is_upper_def asc_def lookup_def
      lower_table_def in_run_def final_sigma_def cased_def case_ignorable_def cased_table_def
      case_ignorable_table_def upper_def upper_cp_def upper_char_def upper_special_def
      upper_table_def is_digit_def decimal_zeros_def)

lemma lower_table_images:
  "list_all (\<lambda>(lo, hi, step, target). 128 \<le> target \<or> (lo = 8490 \<and> hi = 8490)) lower_table"
  by (simp add: lower_table_def)

lemma lookup_lower_ascii:
  assumes "128 \<le> c" and "lookup lower_table c < 128"
  shows "c = 8490"
proof (cases "find (in_run c) lower_table")
  case None
  then show ?thesis using assms by (simp add: lookup_def)
next
  case (Some e)
  obtain lo hi step target where e: "e = (lo, hi, step, target)" by (cases e) auto
  from Some have m: "e \<in> set lower_table" and r: "in_run c e"
    by (auto simp: find_Some_iff)
  from m lower_table_images have "128 \<le> target \<or> (lo = 8490 \<and> hi = 8490)"
    by (auto simp: list_all_iff e)
  moreover have "lookup lower_table c = target + (c - lo)" using Some by (simp add: lookup_def e)
  ultimately show ?thesis using assms r by (auto simp: in_run_def e)
qed

lemma lower_kelvin: "lower_cp 8490 = [107]"
  by (simp add: lower_cp_def lookup_def lower_table_def in_run_def)

text \<open>What one code point of a text contributes to the lower-case text.\<close>

lemma lower_block:
  "c = 931 \<and> lower_from before (c # cs) = [962] @ lower_from (c # before) cs \<or>
   c = 931 \<and> lower_from before (c # cs) = [963] @ lower_from (c # before) cs \<or>
   c < 128 \<and> lower_from before (c # cs) = [lower_char c] @ lower_from (c # before) cs \<or>
   c = 304 \<and> lower_from before (c # cs) = [105, 775] @ lower_from (c # before) cs \<or>
   c = 8490 \<and> lower_from before (c # cs) = [107] @ lower_from (c # before) cs \<or>
   128 \<le> c \<and> c \<noteq> 8490 \<and>
     (\<exists>x. 128 \<le> x \<and> lower_from before (c # cs) = [x] @ lower_from (c # before) cs)"
proof -
  consider "c = 931" | "c < 128" | "c = 304" | "c = 8490"
    | "c \<noteq> 931" "128 \<le> c" "c \<noteq> 304" "c \<noteq> 8490" by linarith
  then show ?thesis
  proof cases
    case 5
    then have "128 \<le> lookup lower_table c" using lookup_lower_ascii[of c] by force
    then show ?thesis using 5 by (simp add: lower_cp_def)
  qed (simp_all add: lower_cp_def lower_kelvin[unfolded lower_cp_def, simplified])
qed

lemma starts_with_lower:
  assumes "small_phrase p"
  shows "starts_with p (lower_from before t) \<longleftrightarrow> occurs_at p t"
  using assms
proof (induction t arbitrary: p before)
  case Nil
  then show ?case by (cases p) (simp_all add: small_phrase_def)
next
  case (Cons c cs)
  from Cons.prems obtain d q where p: "p = d # q" by (cases p) (auto simp: small_phrase_def)
  have d: "d < 128" "\<not> is_upper d" using Cons.prems by (auto simp: small_phrase_def p)
  have q: "q \<noteq> [] \<Longrightarrow> small_phrase q" using Cons.prems by (auto simp: small_phrase_def p)
  have rest: "starts_with q (lower_from (c # before) cs) \<longleftrightarrow> occurs_at q cs"
  proof (cases "q = []")
    case True
    then show ?thesis by simp
  next
    case False
    then show ?thesis using Cons.IH[OF q] by simp
  qed
  have i: "q = [] \<Longrightarrow> d \<noteq> 105" using Cons.prems by (auto simp: small_phrase_def p)
  have h: "q \<noteq> [] \<Longrightarrow> hd q < 128" using Cons.prems by (cases q) (auto simp: small_phrase_def p)
  from lower_block[of c before cs] show ?case
  proof (elim disjE conjE exE)
    assume "c < 128" "lower_from before (c # cs) = [lower_char c] @ lower_from (c # before) cs"
    then show ?thesis using d rest
      by (auto simp: p same_letter_def lower_char_def is_upper_def simp del: lower_from.simps)
  next
    assume "c = 304" "lower_from before (c # cs) = [105, 775] @ lower_from (c # before) cs"
    then show ?thesis using d i h
      by (cases q) (auto simp: p same_letter_def is_upper_def simp del: lower_from.simps)
  next
    assume "c = 8490" "lower_from before (c # cs) = [107] @ lower_from (c # before) cs"
    then show ?thesis using d rest
      by (auto simp: p same_letter_def is_upper_def simp del: lower_from.simps)
  qed (use d rest in \<open>auto simp: p same_letter_def is_upper_def simp del: lower_from.simps\<close>)
qed

lemma contains_lower:
  assumes "small_phrase p"
  shows "contains p (lower_from before t) \<longleftrightarrow> occurs_ci p t"
proof (induction t arbitrary: before)
  case Nil
  then show ?case using assms by (cases p) (simp_all add: small_phrase_def)
next
  case (Cons c cs)
  obtain d q where p: "p = d # q" and d: "d < 128"
    using assms by (cases p) (auto simp: small_phrase_def)
  have "contains p (lower_from before (c # cs)) \<longleftrightarrow>
          starts_with p (lower_from before (c # cs)) \<or> contains p (lower_from (c # before) cs)"
    using lower_block[of c before cs] d
    by (elim disjE conjE exE) (auto simp: p simp del: lower_from.simps)
  then show ?case using Cons starts_with_lower[OF assms] by (simp del: lower_from.simps)
qed

lemma occurs_at_self: "occurs_at p (p @ v)"
  by (induction p) (simp_all add: same_letter_def)

lemma occurs_ci_append: "occurs_ci p w \<Longrightarrow> occurs_ci p (u @ w)"
  by (induction u) simp_all

lemma occurs_ci_start: "occurs_at p w \<Longrightarrow> occurs_ci p w"
  by (cases w) simp_all

section \<open>The disagreement detector\<close>

lemma explicit_small: "p \<in> set explicit \<Longrightarrow> small_phrase p"
  by (auto simp: explicit_def asc_def small_phrase_def is_upper_def)

lemma high_risk_small: "p \<in> set high_risk_triggers \<Longrightarrow> small_phrase p"
  by (auto simp: high_risk_triggers_def asc_def small_phrase_def is_upper_def)

lemma detect_iff:
  "detect_material_disagreement t \<longleftrightarrow>
     (\<exists>p \<in> set explicit \<union> set high_risk_triggers. occurs_ci p t)"
proof -
  have c: "contains p (lower t) \<longleftrightarrow> occurs_ci p t"
    if "p \<in> set explicit \<union> set high_risk_triggers" for p
    using that contains_lower[of p "[]" t] explicit_small[of p] high_risk_small[of p]
    by (auto simp: lower_def)
  show ?thesis
    using c unfolding detect_material_disagreement_def Let_def list_ex_iff by blast
qed

text \<open>
  C8. For every response text the disagreement detector returns true if and only if a
  phrase of the explicit-disagreement list or a keyword of the high-risk list occurs in
  the text, letter case disregarded. In particular every text that contains
  \<^verbatim>\<open>breach notification\<close> is flagged, whatever else it says, and a text in which no
  phrase and no keyword occurs is not flagged. Letter case is disregarded in the
  sense of \<open>occurs_ci\<close>, which compares code points and does not rest on \<open>lower\<close>: the
  text \<^verbatim>\<open>FORENSIC review\<close> is flagged, and so is a text that writes \<^verbatim>\<open>BLOCK ALL\<close> with
  the Kelvin sign for the letter K.
\<close>

theorem detect_material_disagreement_iff:
  "(detect_material_disagreement t \<longleftrightarrow>
      (\<exists>p \<in> set explicit \<union> set high_risk_triggers. occurs_ci p t)) \<and>
   detect_material_disagreement (u @ asc ''breach notification'' @ v) \<and>
   detect_material_disagreement (asc ''FORENSIC review'') \<and>
   detect_material_disagreement (asc ''We should BLOC'' @ [8490] @ asc '' ALL uploads'') \<and>
   \<not> detect_material_disagreement (asc ''I agree with the proposal.'')"
proof -
  have b: "asc ''breach notification'' \<in> set high_risk_triggers"
    and f: "asc ''forensic'' \<in> set high_risk_triggers"
    and k: "asc ''block all'' \<in> set high_risk_triggers"
    by (simp_all add: high_risk_triggers_def)
  have "occurs_ci (asc ''breach notification'') (u @ asc ''breach notification'' @ v)"
    by (intro occurs_ci_append occurs_ci_start occurs_at_self)
  then have 1: "detect_material_disagreement (u @ asc ''breach notification'' @ v)"
    using b detect_iff by blast
  have "occurs_ci (asc ''forensic'') (asc ''FORENSIC review'')"
    by (simp add: asc_def same_letter_def is_upper_def)
  then have 2: "detect_material_disagreement (asc ''FORENSIC review'')"
    using f detect_iff by blast
  have "occurs_ci (asc ''block all'') (asc ''We should BLOC'' @ [8490] @ asc '' ALL uploads'')"
    by (simp add: asc_def same_letter_def is_upper_def)
  then have 3: "detect_material_disagreement (asc ''We should BLOC'' @ [8490] @ asc '' ALL uploads'')"
    using k detect_iff by blast
  have 4: "\<not> detect_material_disagreement (asc ''I agree with the proposal.'')"
    unfolding detect_iff
    by (simp add: explicit_def high_risk_triggers_def asc_def same_letter_def is_upper_def)
  from detect_iff 1 2 3 4 show ?thesis by blast
qed

section \<open>The ranking parser\<close>

lemma split_acc_absent:
  "\<not> contains sep s \<Longrightarrow> split_acc sep acc s = [rev acc @ s]"
  by (induction sep acc s rule: split_acc.induct) auto

lemma before_first_absent: "\<not> contains sep s \<Longrightarrow> before_first sep s = s"
  by (induction s) auto

lemma split_acc_present:
  "sep \<noteq> [] \<Longrightarrow> contains sep s \<Longrightarrow>
     split_acc sep acc s = (rev acc @ before_first sep s) # split_acc sep [] (after_first sep s)"
  by (induction sep acc s rule: split_acc.induct) auto

lemma split_acc_hd:
  "sep \<noteq> [] \<Longrightarrow> \<exists>rest. split_acc sep acc s = (rev acc @ before_first sep s) # rest"
  by (cases "contains sep s") (auto simp: split_acc_present split_acc_absent before_first_absent)

lemma str_split_section:
  assumes "sep \<noteq> []" "contains sep s"
  shows "length (str_split sep s) \<ge> 2 \<and>
         str_split sep s ! 1 = before_first sep (after_first sep s)"
proof -
  obtain rest where "split_acc sep [] (after_first sep s) = before_first sep (after_first sep s) # rest"
    using split_acc_hd[OF assms(1), of "[]" "after_first sep s"] by auto
  then show ?thesis
    using split_acc_present[OF assms, of "[]"] by (simp add: str_split_def)
qed

lemma asc_Response: "asc ''Response '' = [82, 101, 115, 112, 111, 110, 115, 101, 32]"
  by (simp add: asc_def)

lemma match_response_Some:
  "match_response s = Some n \<longleftrightarrow>
     n = 10 \<and> (\<exists>c r. is_upper c \<and> s = asc ''Response '' @ c # r)"
proof (cases "starts_with (asc ''Response '') s")
  case True
  then obtain r where s: "s = asc ''Response '' @ r" by (auto simp: starts_with_iff)
  have d: "drop 9 s = r" by (simp add: s asc_Response)
  show ?thesis
    unfolding match_response_def using True d s by (cases r) auto
next
  case False
  then show ?thesis
    unfolding match_response_def by (auto simp: starts_with_iff)
qed

lemma match_response_not_R: "c \<noteq> 82 \<Longrightarrow> match_response (c # cs) = None"
  by (simp add: match_response_def asc_Response)

lemma match_numbered_Some:
  assumes "match_numbered s = Some n"
  shows "\<exists>ds ws c r. ds \<noteq> [] \<and> (\<forall>d \<in> set ds. is_digit d) \<and> (\<forall>w \<in> set ws. is_space w) \<and>
           is_upper c \<and> s = ds @ [46] @ ws @ asc ''Response '' @ c # r \<and>
           n = length ds + 1 + length ws + 10"
proof -
  let ?ds = "takeWhile is_digit s"
  let ?r1 = "dropWhile is_digit s"
  from assms have ds: "?ds \<noteq> []"
    unfolding match_numbered_def Let_def by (auto split: if_splits)
  from assms ds obtain r2 where r1: "?r1 = 46 # r2"
    unfolding match_numbered_def Let_def by (auto split: if_splits list.splits)
  let ?ws = "takeWhile is_space r2"
  let ?r3 = "dropWhile is_space r2"
  from assms ds r1 obtain k where k: "match_response ?r3 = Some k" and n: "n = length ?ds + 1 + length ?ws + k"
    unfolding match_numbered_def Let_def by (auto split: if_splits option.splits)
  from k obtain c r where c: "is_upper c" "?r3 = asc ''Response '' @ c # r" "k = 10"
    by (auto simp: match_response_Some)
  have "s = ?ds @ ?r1" by simp
  also have "?r1 = 46 # (?ws @ ?r3)" using r1 by simp
  finally have "s = ?ds @ [46] @ ?ws @ asc ''Response '' @ c # r" using c by simp
  moreover have "\<forall>d \<in> set ?ds. is_digit d" by (auto dest: set_takeWhileD)
  moreover have "\<forall>w \<in> set ?ws. is_space w" by (auto dest: set_takeWhileD)
  ultimately show ?thesis using ds c n by blast
qed

lemma findall_elem:
  "m \<in> set (findall f s) \<Longrightarrow> \<exists>s' n. f s' = Some n \<and> m = take n s'"
  by (induction f s rule: findall.induct) (auto split: option.splits)

lemma search_skip:
  assumes "\<forall>x \<in> set pre. x \<noteq> 82"
  shows "search (\<lambda>s. map_option (\<lambda>n. take n s) (match_response s)) (pre @ c # rest)
       = search (\<lambda>s. map_option (\<lambda>n. take n s) (match_response s)) (c # rest)"
  using assms by (induction pre) (auto simp: match_response_not_R)

lemma take_two: "n = length a + length b \<Longrightarrow> take n (a @ b @ r) = a @ b"
  by simp

lemma search_response_group_numbered:
  assumes "match_numbered s = Some n"
  shows "search_response_group (take n s) = Inr (label_token (take n s)) \<and> is_label (label_token (take n s))"
proof -
  from match_numbered_Some[OF assms] obtain ds ws c r where
    ds: "\<forall>d \<in> set ds. is_digit d" and ws: "\<forall>w \<in> set ws. is_space w" and c: "is_upper c" and
    s: "s = ds @ [46] @ ws @ asc ''Response '' @ c # r" and n: "n = length ds + 1 + length ws + 10"
    by blast
  let ?tok = "asc ''Response '' @ [c]"
  have "s = (ds @ [46] @ ws) @ ?tok @ r" by (simp add: s)
  moreover have "n = length (ds @ [46] @ ws) + length ?tok" by (simp add: n asc_Response)
  ultimately have t: "take n s = (ds @ [46] @ ws) @ ?tok"
    using take_two by blast
  have pre: "\<forall>x \<in> set (ds @ [46] @ ws). x \<noteq> 82"
    using ds ws by (auto simp: is_digit_def is_space_def)
  have "match_response ?tok = Some 10"
    using c by (auto simp: match_response_Some)
  then have "search (\<lambda>s. map_option (\<lambda>n. take n s) (match_response s)) ?tok = Some ?tok"
    by (simp add: asc_Response)
  moreover have "search (\<lambda>s. map_option (\<lambda>n. take n s) (match_response s)) ((ds @ [46] @ ws) @ ?tok)
      = search (\<lambda>s. map_option (\<lambda>n. take n s) (match_response s)) ?tok"
    using search_skip[OF pre, of 82 "[101, 115, 112, 111, 110, 115, 101, 32] @ [c]"]
    by (simp add: asc_Response)
  ultimately have "search_response_group (take n s) = Inr ?tok"
    by (simp add: search_response_group_def t)
  moreover have "label_token (take n s) = ?tok"
    by (simp add: label_token_def t asc_Response)
  ultimately show ?thesis using c unfolding is_label_def by auto
qed

lemma collect_groups:
  "(\<forall>m \<in> set ms. \<exists>s n. match_numbered s = Some n \<and> m = take n s) \<Longrightarrow>
     collect (map search_response_group ms) = Inr (map label_token ms)"
proof (induction ms)
  case Nil
  then show ?case by simp
next
  case (Cons m ms)
  then obtain s n where "match_numbered s = Some n" "m = take n s" by auto
  then have "search_response_group m = Inr (label_token m)"
    using search_response_group_numbered by blast
  then show ?case using Cons by simp
qed

lemma findall_response_labels: "l \<in> set (findall match_response s) \<Longrightarrow> is_label l"
proof -
  assume "l \<in> set (findall match_response s)"
  then obtain s' n where "match_response s' = Some n" "l = take n s'"
    using findall_elem by blast
  then show ?thesis
    by (auto simp: match_response_Some is_label_def asc_Response)
qed

lemma findall_numbered_labels:
  "m \<in> set (findall match_numbered s) \<Longrightarrow> is_label (label_token m)"
  using findall_elem search_response_group_numbered by blast

text \<open>
  The parser never raises, and returns the labels of the three tiers: the numbered
  matches of the section, else the bare mentions of the section, else (no marker) the
  bare mentions of the whole text.
\<close>

lemma parse_ranking_from_text_eq: "parse_ranking_from_text t = Inr (parsed_labels t)"
proof (cases "contains (asc ''FINAL RANKING:'') t")
  case False
  then show ?thesis by (simp add: parse_ranking_from_text_def parsed_labels_def)
next
  case True
  have ne: "asc ''FINAL RANKING:'' \<noteq> []" by (simp add: asc_def)
  note sec = str_split_section[OF ne True]
  have "collect (map search_response_group (findall match_numbered (ranking_section t)))
      = Inr (map label_token (findall match_numbered (ranking_section t)))"
    by (rule collect_groups) (use findall_elem in blast)
  then show ?thesis
    using True sec
    by (simp add: parse_ranking_from_text_def parsed_labels_def Let_def ranking_section_def)
qed

lemma parsed_labels_are_labels: "l \<in> set (parsed_labels t) \<Longrightarrow> is_label l"
  unfolding parsed_labels_def
  by (auto split: if_splits dest: findall_response_labels findall_numbered_labels)

lemmas text_eval =
  asc_def str_split_def match_numbered_def match_response_def is_digit_def is_space_def
  is_upper_def search_response_group_def label_token_def

text \<open>
  C4, at a text with two markers. The parser reads \<^verbatim>\<open>parts[1]\<close> of
  \<^verbatim>\<open>ranking_text.split("FINAL RANKING:")\<close>, which ends at the second marker: here it
  returns no label at all, although the text after the first marker holds the numbered
  lines of Response B and Response A.
\<close>

theorem parse_ranking_two_markers:
  "parse_ranking_from_text two_marker_text = Inr [] \<and>
   map label_token (findall match_numbered (after_first (asc ''FINAL RANKING:'') two_marker_text))
     = [asc ''Response B'', asc ''Response A'']"
  by (simp add: two_marker_text_def parse_ranking_from_text_def text_eval)

text \<open>The two examples of the ranking parser: a numbered block after one marker, and two
  mentions in a text without marker.\<close>

lemma parse_ranking_examples:
  "parse_ranking_from_text
     (asc ''FINAL RANKING:'' @ [10] @ asc ''1. Response B'' @ [10] @ asc ''2. Response A'')
     = Inr [asc ''Response B'', asc ''Response A'']"
  "parse_ranking_from_text (asc ''Response C is better than Response A.'')
     = Inr [asc ''Response C'', asc ''Response A'']"
  by (simp_all add: parse_ranking_from_text_def text_eval)

section \<open>Stage 1.5: the reflection round\<close>

lemma delphi_loop_outcomes: "fst (delphi_loop xs) = map outcome_of xs"
  by (induction xs rule: delphi_loop.induct)
     (auto simp: outcome_of_def pass_through_def parsed_outcome_def Let_def split: prod.splits)

lemma delphi_loop_disagreements:
  "snd (delphi_loop xs) \<noteq> [] \<longleftrightarrow> list_ex d_has_material_disagreement (fst (delphi_loop xs))"
  by (induction xs rule: delphi_loop.induct) (auto simp: Let_def split: prod.splits)

lemma length_reflection_responses [simp]:
  "length (reflection_responses q uq rs ms) = min (length ms) (length rs)"
  by (simp add: reflection_responses_def)

lemma stage1_5_outcomes:
  "stage1_5_delphi_reflection q uq rs ms =
     (map outcome_of (zip ms (zip rs (reflection_responses q uq rs ms))),
      list_ex d_has_material_disagreement
        (map outcome_of (zip ms (zip rs (reflection_responses q uq rs ms)))))"
proof -
  let ?xs = "zip ms (zip rs (reflection_responses q uq rs ms))"
  have "delphi_loop ?xs = (fst (delphi_loop ?xs), snd (delphi_loop ?xs))" by simp
  then show ?thesis
    unfolding stage1_5_delphi_reflection_def Let_def
    using delphi_loop_outcomes[of ?xs] delphi_loop_disagreements[of ?xs]
    by (auto simp: split_beta)
qed

lemma outcome_of_fields [simp]:
  "d_member_id (outcome_of (m, r, x)) = cm_id m"
  "d_model (outcome_of (m, r, x)) = cm_model m"
  "d_round1_response (outcome_of (m, r, x)) = s1_response r"
  by (auto simp: outcome_of_def pass_through_def parsed_outcome_def split: option.splits prod.splits)

lemma stage1_lengths:
  "stage1_collect_responses q cms uq = Inr (rs, ms) \<Longrightarrow> length rs = length ms"
  unfolding stage1_collect_responses_def
  by (drule stage1_loop_members) (metis length_map)

text \<open>
  C9. For every session, the reflection round run on the members and results of Stage 1
  produces one outcome per member, in the order of the members, each with the label,
  the responder and the round-1 text of its member. The outcome of a member whose
  reflection call fails is the pass-through outcome: decision AFFIRM, the round-2 text
  equal to the round-1 text, the justification that the model did not respond, and no
  disagreement flagged. The outcome of a member that answers carries the parsed
  decision, justification and final response, so a round-2 text is there in both cases.
  The session flag is raised exactly when some outcome is flagged, so a failed call
  never contributes to it.
\<close>

theorem reflection_outcomes:
  assumes "stage1_collect_responses q cms uq = Inr (rs, ms)"
  shows "\<exists>ds flag. stage1_5_delphi_reflection q uq rs ms = (ds, flag) \<and>
           length ds = length ms \<and>
           map d_member_id ds = map cm_id ms \<and>
           map d_model ds = map cm_model ms \<and>
           map d_round1_response ds = map s1_response rs \<and>
           (\<forall>i < length ms.
              reflection_responses q uq rs ms ! i = None \<longrightarrow>
                ds ! i = pass_through (ms ! i) (rs ! i) \<and>
                d_decision (ds ! i) = asc ''AFFIRM'' \<and>
                d_round2_response (ds ! i) = s1_response (rs ! i) \<and>
                d_revision_reason (ds ! i) = asc ''Model did not respond to reflection prompt'' \<and>
                \<not> d_has_material_disagreement (ds ! i)) \<and>
           (\<forall>i < length ms. \<forall>resp.
              reflection_responses q uq rs ms ! i = Some resp \<longrightarrow>
                ds ! i = parsed_outcome (ms ! i) (rs ! i) (get_content resp)) \<and>
           (flag \<longleftrightarrow> list_ex d_has_material_disagreement ds)"
proof -
  have len: "length rs = length ms" using assms by (rule stage1_lengths)
  let ?resp = "reflection_responses q uq rs ms"
  let ?xs = "zip ms (zip rs ?resp)"
  let ?ds = "map outcome_of ?xs"
  have lx: "length ?xs = length ms" using len by simp
  have nth: "?ds ! i = outcome_of (ms ! i, rs ! i, ?resp ! i)" if "i < length ms" for i
    using that len by simp
  have 1: "length ?ds = length ms" using lx by simp
  have 2: "map d_member_id ?ds = map cm_id ms"
    by (rule nth_equalityI) (use 1 nth in auto)
  have 3: "map d_model ?ds = map cm_model ms"
    by (rule nth_equalityI) (use 1 nth in auto)
  have 4: "map d_round1_response ?ds = map s1_response rs"
    by (rule nth_equalityI) (use 1 nth len in auto)
  have 5: "?ds ! i = pass_through (ms ! i) (rs ! i)" if "i < length ms" "?resp ! i = None" for i
    using nth[OF that(1)] that(2) by (simp add: outcome_of_def)
  have 6: "?ds ! i = parsed_outcome (ms ! i) (rs ! i) (get_content resp)"
    if "i < length ms" "?resp ! i = Some resp" for i resp
    using nth[OF that(1)] that(2) by (simp add: outcome_of_def)
  show ?thesis
    apply (rule exI[of _ ?ds], rule exI[of _ "list_ex d_has_material_disagreement ?ds"])
    apply (simp only: stage1_5_outcomes)
    using 1 2 3 4 5 6 by (simp add: pass_through_def)
qed

lemma sample_stage1:
  "stage1_collect_responses sample_gateway sample_models uq = Inr (sample_results, sample_members)"
  by (simp add: stage1_collect_responses_def stage1_responses_def sample_models_def chr_py_def
      get_content_def get_governance_role_def GOVERNANCE_ROLES_def is_chatgpt_def is_mistral_def
      lower_def lower_cp_def lower_char_def is_upper_def asc_def sample_results_def sample_members_def)

theorem reflection_outcomes_witness:
  "\<exists>ds flag.
     stage1_5_delphi_reflection sample_gateway (asc ''question'') sample_results sample_members
       = (ds, flag) \<and>
     map d_member_id ds = [asc ''A'', asc ''B''] \<and>
     d_decision (ds ! 0) = asc ''AFFIRM'' \<and>
     d_round2_response (ds ! 0) = asc ''answer'' \<and>
     \<not> d_has_material_disagreement (ds ! 0)"
proof -
  let ?q = "asc ''question''"
  have none: "reflection_responses sample_gateway ?q sample_results sample_members ! 0 = None"
    by (simp add: reflection_responses_def sample_results_def sample_members_def)
  have len: "0 < length sample_members" by (simp add: sample_members_def)
  from reflection_outcomes [OF sample_stage1, of ?q] obtain ds flag where
    r: "stage1_5_delphi_reflection sample_gateway ?q sample_results sample_members = (ds, flag)"
       "map d_member_id ds = map cm_id sample_members"
       "\<forall>i < length sample_members.
              reflection_responses sample_gateway ?q sample_results sample_members ! i = None \<longrightarrow>
                ds ! i = pass_through (sample_members ! i) (sample_results ! i) \<and>
                d_decision (ds ! i) = asc ''AFFIRM'' \<and>
                d_round2_response (ds ! i) = s1_response (sample_results ! i) \<and>
                d_revision_reason (ds ! i) = asc ''Model did not respond to reflection prompt'' \<and>
                \<not> d_has_material_disagreement (ds ! i)"
    by blast
  from r(3) len none have "d_decision (ds ! 0) = asc ''AFFIRM'' \<and>
                d_round2_response (ds ! 0) = s1_response (sample_results ! 0) \<and>
                \<not> d_has_material_disagreement (ds ! 0)"
    by blast
  moreover have "s1_response (sample_results ! 0) = asc ''answer''"
    by (simp add: sample_results_def)
  moreover have "map cm_id sample_members = [asc ''A'', asc ''B'']"
    by (simp add: sample_members_def)
  ultimately show ?thesis using r(1,2) by (intro exI[of _ ds] exI[of _ flag]) simp
qed

section \<open>The pipeline with the reflection round disabled\<close>

lemma stage2_loop_eq: "stage2_loop xs = Inr (stage2_results_of xs)"
  by (induction xs rule: stage2_loop.induct)
     (simp_all add: parse_ranking_from_text_eq Let_def stage2_results_of_def)

lemma stage2_loop_returns: "\<exists>s2. stage2_loop xs = Inr s2"
  by (simp add: stage2_loop_eq)

lemma stage2_collect_rankings_returns:
  "\<exists>s2. stage2_collect_rankings q cms uq rs ms =
          Inr (s2, \<lparr>mm_council_members = ms,
                    mm_response_mapping = response_mapping_of ms,
                    mm_label_to_model = label_to_model_of ms\<rparr>)"
proof -
  obtain s2 where "stage2_loop (query_models_parallel q cms (stage2_prompt uq rs ms)) = Inr s2"
    using stage2_loop_returns by blast
  then show ?thesis by (simp add: stage2_collect_rankings_def)
qed

lemma parsed_or_reparsed_returns: "\<exists>p. parsed_or_reparsed r = Inr p"
  by (simp add: parsed_or_reparsed_def parse_ranking_from_text_eq)

lemma collect_positions_returns: "\<exists>mp'. collect_positions rm mp s2 = Inr mp'"
proof (induction s2 arbitrary: mp)
  case Nil
  then show ?case by simp
next
  case (Cons r s2)
  obtain p where "parsed_or_reparsed r = Inr p" using parsed_or_reparsed_returns by blast
  then show ?case using Cons by simp
qed

lemma calculate_aggregate_rankings_returns: "\<exists>agg. calculate_aggregate_rankings s2 rm = Inr agg"
proof -
  obtain mp where "collect_positions rm [] s2 = Inr mp" using collect_positions_returns by blast
  then show ?thesis by (simp add: calculate_aggregate_rankings_def)
qed

lemma chairman_prompt_no_review:
  "chairman_prompt uq rs s2 None False =
     chairman_prompt_base uq (asc ''Individual responses:'') (synthesis_text_stage1 rs)
       (stage2_text s2) @ [10] @ asc ''Provide your final synthesis now.''"
  by (simp add: chairman_prompt_def)

text \<open>
  C10. For every run with the Delphi flag disabled in which Stage 1 returns at least one
  result, the run returns; the flag \<^verbatim>\<open>needs_human_review\<close> is false in the Stage-3
  synthesis object and in the session metadata, whether the chairman answers or not;
  there are no reflection outcomes; and the prompt sent to the chairman is the base
  prompt (question, individual responses, peer rankings, sections A to E) followed
  directly by the closing line, without the escalation section F.
\<close>

theorem delphi_disabled_no_escalation:
  assumes "stage1_collect_responses q cms uq = Inr (rs, ms)" and "rs \<noteq> []"
  shows "\<exists>s2 s3 meta prompt.
           run_full_council q cms ch False uq = Inr (rs, s2, s3, Some meta) \<and>
           s3_needs_human_review s3 = Some False \<and>
           \<not> meta_needs_human_review meta \<and>
           meta_delphi_results meta = None \<and>
           prompt = chairman_prompt_base uq (asc ''Individual responses:'')
                      (synthesis_text_stage1 rs) (stage2_text s2)
                    @ [10] @ asc ''Provide your final synthesis now.'' \<and>
           s3_response s3 =
             (case q ChairmanCall ch prompt of
                None \<Rightarrow> asc ''Error: Unable to generate final synthesis.''
              | Some resp \<Rightarrow> get_content resp)"
proof -
  obtain s2 where s2: "stage2_collect_rankings q cms uq rs ms =
          Inr (s2, \<lparr>mm_council_members = ms,
                    mm_response_mapping = response_mapping_of ms,
                    mm_label_to_model = label_to_model_of ms\<rparr>)"
    using stage2_collect_rankings_returns by blast
  obtain agg where agg: "calculate_aggregate_rankings s2 (response_mapping_of ms) = Inr agg"
    using calculate_aggregate_rankings_returns by blast
  let ?s3 = "stage3_synthesize_final q ch uq rs s2 None False"
  let ?meta = "\<lparr>meta_council_members = ms,
                meta_response_mapping = response_mapping_of ms,
                meta_label_to_model = label_to_model_of ms,
                meta_aggregate_rankings = agg,
                meta_delphi_mode = False,
                meta_delphi_results = None,
                meta_needs_human_review = False\<rparr>"
  have run: "run_full_council q cms ch False uq = Inr (rs, s2, ?s3, Some ?meta)"
    using assms s2 agg by (simp add: run_full_council_def ranking_input_of_def)
  have flag: "s3_needs_human_review ?s3 = Some False"
    by (simp add: stage3_synthesize_final_def split: option.splits)
  have resp: "s3_response ?s3 =
             (case q ChairmanCall ch (chairman_prompt uq rs s2 None False) of
                None \<Rightarrow> asc ''Error: Unable to generate final synthesis.''
              | Some resp \<Rightarrow> get_content resp)"
    by (simp add: stage3_synthesize_final_def split: option.splits)
  show ?thesis
    using run flag resp by (simp add: chairman_prompt_no_review)
qed

theorem delphi_disabled_no_escalation_witness:
  "\<exists>s2 s3 meta.
     run_full_council sample_gateway sample_models (asc ''m1'') False (asc ''question'')
       = Inr (sample_results, s2, s3, Some meta) \<and>
     s3_needs_human_review s3 = Some False \<and>
     \<not> meta_needs_human_review meta \<and>
     s3_response s3 = asc ''synthesis''"
proof -
  have ne: "sample_results \<noteq> []" by (simp add: sample_results_def)
  from delphi_disabled_no_escalation [OF sample_stage1 ne, of "asc ''m1''"]
  obtain s2 s3 meta prompt where
    "run_full_council sample_gateway sample_models (asc ''m1'') False (asc ''question'')
       = Inr (sample_results, s2, s3, Some meta)"
    "s3_needs_human_review s3 = Some False" "\<not> meta_needs_human_review meta"
    "s3_response s3 =
             (case sample_gateway ChairmanCall (asc ''m1'') prompt of
                None \<Rightarrow> asc ''Error: Unable to generate final synthesis.''
              | Some resp \<Rightarrow> get_content resp)"
    by blast
  then show ?thesis
    by (intro exI[of _ s2] exI[of _ s3] exI[of _ meta]) (simp add: get_content_def)
qed

section \<open>Anonymity of the prompts\<close>

lemma responses_text_labels:
  "responses_text ms rs =
     join [10, 10]
       (map (\<lambda>(l, r). (asc ''Response '' @ l) @ asc '':'' @ [10] @ r)
          (zip (map cm_id ms) (map s1_response rs)))"
  by (simp add: responses_text_def label_def zip_map_map split_def comp_def)

lemma join_contains: "x \<in> set xs \<Longrightarrow> \<exists>pre post. join sep xs = pre @ x @ post"
proof (induction sep xs rule: join.induct)
  case (1 sep)
  then show ?case by simp
next
  case (2 sep y)
  then have "join sep [y] = [] @ x @ []" by simp
  then show ?case by blast
next
  case (3 sep y z zs)
  show ?case
  proof (cases "x = y")
    case True
    then have "join sep (y # z # zs) = [] @ x @ (sep @ join sep (z # zs))" by simp
    then show ?thesis by blast
  next
    case False
    with 3 obtain pre post where "join sep (z # zs) = pre @ x @ post" by auto
    then have "join sep (y # z # zs) = (y @ sep @ pre) @ x @ post" by simp
    then show ?thesis by blast
  qed
qed

lemma contains_appendI: "contains p s \<Longrightarrow> contains p (a @ s @ b)"
  unfolding contains_iff by (metis append.assoc)

lemma contains_prefixI: "contains p (p @ s)"
  unfolding contains_iff by (metis append_Nil)

lemma lines_contains: "x \<in> set ls \<Longrightarrow> contains x (lines ls)"
  unfolding lines_def contains_iff using join_contains by blast

lemma contains_trans: "contains a b \<Longrightarrow> contains b c \<Longrightarrow> contains a c"
  unfolding contains_iff by (metis append.assoc)

lemma chairman_prompt_contains_synthesis:
  "contains synthesis_text (chairman_prompt_base uq mode_context synthesis_text st2)"
  unfolding chairman_prompt_base_def by (rule lines_contains) simp

lemma chairman_prompt_contains_rankings:
  "contains st2 (chairman_prompt_base uq mode_context synthesis_text st2)"
  unfolding chairman_prompt_base_def by (rule lines_contains) simp

lemma contains_append_left: "contains p s \<Longrightarrow> contains p (s @ b)"
  using contains_appendI[of p s "[]" b] by simp

lemma chairman_names_stage1_members:
  assumes "r \<in> set rs"
  shows "contains (asc ''Model: '' @ s1_model r) (chairman_prompt uq rs s2 None flag)"
proof -
  let ?x = "asc ''Model: '' @ s1_model r @ [10] @ asc ''Response: '' @ s1_response r"
  have "?x \<in> set (map (\<lambda>r. asc ''Model: '' @ s1_model r @ [10] @ asc ''Response: '' @ s1_response r) rs)"
    using assms by auto
  then have "contains ?x (synthesis_text_stage1 rs)"
    unfolding synthesis_text_stage1_def contains_iff using join_contains by blast
  moreover have "contains (asc ''Model: '' @ s1_model r) ?x"
    using contains_prefixI[of "asc ''Model: '' @ s1_model r"] by simp
  ultimately have "contains (asc ''Model: '' @ s1_model r) (synthesis_text_stage1 rs)"
    using contains_trans by blast
  then have "contains (asc ''Model: '' @ s1_model r)
     (chairman_prompt_base uq (asc ''Individual responses:'') (synthesis_text_stage1 rs) (stage2_text s2))"
    using chairman_prompt_contains_synthesis contains_trans by blast
  then show ?thesis
    unfolding chairman_prompt_def by (simp add: contains_append_left)
qed

lemma chairman_names_rankers:
  assumes "r \<in> set s2"
  shows "contains (asc ''Model: '' @ s2_model r) (chairman_prompt uq rs s2 ds flag)"
proof -
  let ?x = "asc ''Model: '' @ s2_model r @ [10] @ asc ''Ranking: '' @ s2_ranking r"
  have ne: "s2 \<noteq> []" using assms by auto
  have "?x \<in> set (map (\<lambda>r. asc ''Model: '' @ s2_model r @ [10] @ asc ''Ranking: '' @ s2_ranking r) s2)"
    using assms by auto
  then have "contains ?x (join [10, 10]
      (map (\<lambda>r. asc ''Model: '' @ s2_model r @ [10] @ asc ''Ranking: '' @ s2_ranking r) s2))"
    unfolding contains_iff using join_contains by blast
  then have "contains ?x (stage2_text s2)"
    using ne by (simp add: stage2_text_def)
  moreover have "contains (asc ''Model: '' @ s2_model r) ?x"
    using contains_prefixI[of "asc ''Model: '' @ s2_model r"] by simp
  ultimately have c: "contains (asc ''Model: '' @ s2_model r) (stage2_text s2)"
    using contains_trans by blast
  have "contains (asc ''Model: '' @ s2_model r)
     (chairman_prompt_base uq mc st (stage2_text s2))" for mc st
    using c chairman_prompt_contains_rankings contains_trans by blast
  then show ?thesis
    unfolding chairman_prompt_def by (auto simp: contains_append_left Let_def split: option.splits list.splits)
qed

lemma chairman_names_delphi_members:
  assumes "d \<in> set dl"
  shows "contains (asc ''Model: '' @ d_model d) (chairman_prompt uq rs s2 (Some dl) flag)"
proof -
  let ?f = "\<lambda>r. asc ''Model: '' @ d_model r @ [10] @
                 asc ''Decision: '' @ d_decision r @ [10] @
                 asc ''Reason: '' @ d_revision_reason r @ [10] @
                 asc ''Final Response: '' @ d_round2_response r"
  obtain x xs where dl: "dl = x # xs" using assms by (cases dl) auto
  have "?f d \<in> set (map ?f dl)" using assms by auto
  then have "contains (?f d) (synthesis_text_delphi dl)"
    unfolding synthesis_text_delphi_def contains_iff using join_contains by blast
  moreover have "contains (asc ''Model: '' @ d_model d) (?f d)"
    using contains_prefixI[of "asc ''Model: '' @ d_model d"] by simp
  ultimately have "contains (asc ''Model: '' @ d_model d) (synthesis_text_delphi dl)"
    using contains_trans by blast
  then have "contains (asc ''Model: '' @ d_model d)
     (chairman_prompt_base uq mc (synthesis_text_delphi dl) (stage2_text s2))" for mc
    using chairman_prompt_contains_synthesis contains_trans by blast
  then show ?thesis
    unfolding chairman_prompt_def dl[symmetric] by (simp add: contains_append_left dl)
qed

text \<open>
  C2 (as amended). The Stage-2 ranking prompt is built from the labels of the members and
  the texts of their responses only: two sessions whose members have the same labels
  and the same response texts get the same ranking prompt, whatever the responder
  identifiers are. The Stage-3 chairman prompt is not anonymous: it names the responder
  identifier of every member (\<^verbatim>\<open>Model: <identifier>\<close>) before its response or, in
  reflection mode, before its reflection outcome, and the identifier of every responder
  that ranked before its ranking.
\<close>

theorem ranking_prompt_anonymous:
  "(map cm_id ms = map cm_id ms' \<and> map s1_response rs = map s1_response rs' \<longrightarrow>
      stage2_prompt uq rs ms = stage2_prompt uq rs' ms') \<and>
   (\<forall>r \<in> set rs. contains (asc ''Model: '' @ s1_model r) (chairman_prompt uq rs s2 None flag)) \<and>
   (\<forall>d \<in> set dl. contains (asc ''Model: '' @ d_model d) (chairman_prompt uq rs s2 (Some dl) flag)) \<and>
   (\<forall>r \<in> set s2. contains (asc ''Model: '' @ s2_model r) (chairman_prompt uq rs s2 ds flag))"
  using chairman_names_stage1_members chairman_names_delphi_members chairman_names_rankers
  by (auto simp: stage2_prompt_def responses_text_labels)

theorem ranking_prompt_anonymous_witness:
  "stage2_prompt (asc ''question'') sample_results sample_members
     = stage2_prompt (asc ''question'') renamed_results renamed_members \<and>
   contains (asc ''Model: m1'') (chairman_prompt (asc ''question'') sample_results [] None False)"
proof -
  have 1: "map cm_id sample_members = map cm_id renamed_members"
    by (simp add: renamed_members_def comp_def)
  have 2: "map s1_response sample_results = map s1_response renamed_results"
    by (simp add: renamed_results_def comp_def)
  have 3: "\<lparr>s1_member_id = asc ''A'', s1_model = asc ''m1'', s1_response = asc ''answer''\<rparr>
             \<in> set sample_results"
    by (simp add: sample_results_def)
  have 4: "asc ''Model: m1'' = asc ''Model: '' @ asc ''m1''" by (simp add: asc_def)
  from ranking_prompt_anonymous
         [of sample_members renamed_members sample_results renamed_results "asc ''question''" "[]" False
            "[]" None]
       1 2 3
  show ?thesis unfolding 4 by fastforce
qed

text \<open>
  The claim as stated fails for the chairman prompt: changing the responder identifiers
  of the sample session, with labels and response texts kept, changes the prompt.
\<close>

theorem chairman_prompt_counterexample:
  "map cm_id sample_members = map cm_id renamed_members \<and>
   map s1_response sample_results = map s1_response renamed_results \<and>
   chairman_prompt (asc ''question'') sample_results [] None False
     \<noteq> chairman_prompt (asc ''question'') renamed_results [] None False"
  by (simp add: renamed_members_def renamed_results_def sample_results_def sample_members_def
      chairman_prompt_def chairman_prompt_base_def lines_def synthesis_text_stage1_def asc_def)

section \<open>Responders that fail in Stage 1\<close>

lemma stage2_collect_rankings_eq:
  "stage2_collect_rankings q cms uq rs ms =
     Inr (stage2_results_of (query_models_parallel q cms (stage2_prompt uq rs ms)),
          \<lparr>mm_council_members = ms,
           mm_response_mapping = response_mapping_of ms,
           mm_label_to_model = label_to_model_of ms\<rparr>)"
  by (simp add: stage2_collect_rankings_def stage2_loop_eq)

lemma run_full_council_shape:
  assumes "stage1_collect_responses q cms uq = Inr (rs, ms)" and "rs \<noteq> []"
  shows "\<exists>agg.
     calculate_aggregate_rankings
       (stage2_results_of (query_models_parallel q cms
          (stage2_prompt uq (ranking_input_of dm rs (fst (reflection_of q dm uq rs ms))) ms)))
       (response_mapping_of ms) = Inr agg \<and>
     run_full_council q cms ch dm uq =
       Inr (rs,
            stage2_results_of (query_models_parallel q cms
              (stage2_prompt uq (ranking_input_of dm rs (fst (reflection_of q dm uq rs ms))) ms)),
            stage3_synthesize_final q ch uq rs
              (stage2_results_of (query_models_parallel q cms
                 (stage2_prompt uq (ranking_input_of dm rs (fst (reflection_of q dm uq rs ms))) ms)))
              (fst (reflection_of q dm uq rs ms)) (snd (reflection_of q dm uq rs ms)),
            Some \<lparr>meta_council_members = ms,
                  meta_response_mapping = response_mapping_of ms,
                  meta_label_to_model = label_to_model_of ms,
                  meta_aggregate_rankings = agg,
                  meta_delphi_mode = dm,
                  meta_delphi_results = fst (reflection_of q dm uq rs ms),
                  meta_needs_human_review = snd (reflection_of q dm uq rs ms)\<rparr>)"
proof -
  let ?s2 = "stage2_results_of (query_models_parallel q cms
          (stage2_prompt uq (ranking_input_of dm rs (fst (reflection_of q dm uq rs ms))) ms))"
  obtain agg where agg: "calculate_aggregate_rankings ?s2 (response_mapping_of ms) = Inr agg"
    using calculate_aggregate_rankings_returns by blast
  show ?thesis
    apply (rule exI[of _ agg])
    using assms agg
    by (cases dm)
       (simp_all add: run_full_council_def reflection_of_def stage2_collect_rankings_eq
          split_beta Let_def)
qed

lemma dict_set_keys: "fst ` set (dict_set d k v) = insert k (fst ` set d)"
  by (induction d k v rule: dict_set.induct) auto

lemma dict_set_values: "snd ` set (dict_set d k v) \<subseteq> insert v (snd ` set d)"
  by (induction d k v rule: dict_set.induct) auto

lemma foldl_dict_set_values:
  "snd ` set (foldl (\<lambda>d x. dict_set d (f x) (g x)) d xs) \<subseteq> snd ` set d \<union> g ` set xs"
proof (induction xs arbitrary: d)
  case Nil
  then show ?case by simp
next
  case (Cons x xs)
  have "snd ` set (foldl (\<lambda>d x. dict_set d (f x) (g x)) (dict_set d (f x) (g x)) xs)
        \<subseteq> snd ` set (dict_set d (f x) (g x)) \<union> g ` set xs"
    by (rule Cons.IH)
  then show ?case using dict_set_values[of d "f x" "g x"] by auto
qed

lemma response_mapping_models:
  assumes "(k, e) \<in> set (response_mapping_of ms)"
  shows "rm_model e \<in> set (map cm_model ms)"
proof -
  let ?g = "\<lambda>member. \<lparr>rm_model = cm_model member, rm_role = cm_role member,
                       rm_label = label member\<rparr>"
  have "snd ` set (response_mapping_of ms) \<subseteq> ?g ` set ms"
    unfolding response_mapping_of_def
    using foldl_dict_set_values[of cm_id ?g "[]" ms] by simp
  moreover have "e \<in> snd ` set (response_mapping_of ms)" using assms by force
  ultimately have "e \<in> ?g ` set ms" by blast
  then show ?thesis by auto
qed

lemma label_to_model_models:
  assumes "(l, m) \<in> set (label_to_model_of ms)"
  shows "m \<in> set (map cm_model ms)"
proof -
  have "snd ` set (label_to_model_of ms) \<subseteq> cm_model ` set ms"
    unfolding label_to_model_of_def
    using foldl_dict_set_values[of label cm_model "[]" ms] by simp
  moreover have "m \<in> snd ` set (label_to_model_of ms)" using assms by force
  ultimately show ?thesis by auto
qed

lemma dict_append_keys: "fst ` set (dict_append d k v) = insert k (fst ` set d)"
  by (auto simp: dict_append_def dict_set_keys split: option.splits)

lemma record_positions_keys:
  "fst ` set (record_positions rm mp ps) \<subseteq> fst ` set mp \<union> (rm_model \<circ> snd) ` set rm"
proof (induction rm mp ps rule: record_positions.induct)
  case (1 rm mp)
  then show ?case by simp
next
  case (2 rm mp position lbl rest)
  define R where "R = (rm_model \<circ> snd) ` set rm"
  define rid where "rid = strip (str_replace (asc ''Response '') [] lbl)"
  show ?case
  proof (cases "map_of rm rid")
    case None
    then have "record_positions rm mp ((position, lbl) # rest) = record_positions rm mp rest"
      by (simp add: rid_def)
    moreover have "fst ` set (record_positions rm mp rest) \<subseteq> fst ` set mp \<union> R"
      unfolding R_def using None by (intro 2(1)[OF refl]) (simp add: rid_def)
    ultimately show ?thesis by (simp only: R_def)
  next
    case (Some e)
    let ?mp' = "dict_append mp (rm_model e) position"
    have step: "record_positions rm mp ((position, lbl) # rest) = record_positions rm ?mp' rest"
      using Some by (simp add: rid_def)
    have "(rid, e) \<in> set rm" using Some by (rule map_of_SomeD)
    then have e: "rm_model e \<in> R" unfolding R_def by force
    have ih: "fst ` set (record_positions rm ?mp' rest) \<subseteq> fst ` set ?mp' \<union> R"
      unfolding R_def using Some by (intro 2(2)[OF refl]) (simp add: rid_def)
    have k: "fst ` set ?mp' = insert (rm_model e) (fst ` set mp)"
      by (rule dict_append_keys)
    have "fst ` set ?mp' \<union> R \<subseteq> fst ` set mp \<union> R"
      unfolding k using e by blast
    with ih have "fst ` set (record_positions rm ?mp' rest) \<subseteq> fst ` set mp \<union> R"
      by (rule subset_trans)
    then show ?thesis by (simp only: step R_def)
  qed
qed

lemma collect_positions_keys:
  "collect_positions rm mp s2 = Inr mp' \<Longrightarrow>
     fst ` set mp' \<subseteq> fst ` set mp \<union> (rm_model \<circ> snd) ` set rm"
proof (induction s2 arbitrary: mp)
  case Nil
  then show ?case by auto
next
  case (Cons r s2)
  then obtain parsed where p: "parsed_or_reparsed r = Inr parsed"
    and c: "collect_positions rm (record_positions rm mp (enumerate 1 parsed)) s2 = Inr mp'"
    by (auto split: sum.splits)
  from Cons.IH[OF c] record_positions_keys[of rm mp "enumerate 1 parsed"]
  show ?case by blast
qed

lemma aggregate_models:
  assumes "calculate_aggregate_rankings s2 rm = Inr agg"
  shows "set (map ar_model agg) \<subseteq> (rm_model \<circ> snd) ` set rm"
proof -
  from assms obtain mp where mp: "collect_positions rm [] s2 = Inr mp"
    and agg: "agg = sort_key ar_average_rank
                 (map (entry_of rm) (filter (\<lambda>(model, positions). positions \<noteq> []) mp))"
    by (auto simp: calculate_aggregate_rankings_def split: sum.splits)
  have "set (map ar_model agg) \<subseteq> fst ` set mp"
    by (force simp: agg entry_of_def)
  then show ?thesis using collect_positions_keys[OF mp] by auto
qed

lemma stage1_models:
  "stage1_collect_responses q cms uq = Inr (rs, ms) \<Longrightarrow>
     map cm_model ms = successes (zip cms (stage1_responses q cms uq)) \<and>
     map s1_model rs = map cm_model ms"
  unfolding stage1_collect_responses_def by (drule stage1_loop_members) simp

lemma reflection_models:
  assumes "length rs = length ms"
  shows "map d_model (fst (stage1_5_delphi_reflection q uq rs ms)) = map cm_model ms"
proof -
  let ?xs = "zip ms (zip rs (reflection_responses q uq rs ms))"
  have "map d_model (map outcome_of ?xs) = map cm_model ms"
    by (rule nth_equalityI) (use assms in auto)
  then show ?thesis by (simp add: stage1_5_outcomes)
qed

text \<open>
  C3 (as amended). In every run that returns its metadata, a responder of which no
  Stage-1 call succeeded is absent from the Stage-1 results, from the Identity Registry
  (the council-member list, the response mapping and the label-to-model map), from the
  aggregate rankings and from the reflection outcomes.
\<close>

theorem failed_responder_absent:
  assumes run: "run_full_council q cms ch dm uq = Inr (s1, s2, s3, Some meta)"
    and failed: "m \<notin> set (successes (zip cms (stage1_responses q cms uq)))"
  shows "m \<notin> set (map s1_model s1) \<and>
         m \<notin> set (map cm_model (meta_council_members meta)) \<and>
         m \<notin> (rm_model \<circ> snd) ` set (meta_response_mapping meta) \<and>
         m \<notin> snd ` set (meta_label_to_model meta) \<and>
         m \<notin> set (map ar_model (meta_aggregate_rankings meta)) \<and>
         (\<forall>ds. meta_delphi_results meta = Some ds \<longrightarrow> m \<notin> set (map d_model ds))"
proof -
  obtain rs ms where st: "stage1_collect_responses q cms uq = Inr (rs, ms)"
    using run by (cases "stage1_collect_responses q cms uq") (auto simp: run_full_council_def)
  have ne: "rs \<noteq> []"
    using run st by (auto simp: run_full_council_def)
  from run_full_council_shape[OF st ne, where dm = dm and ch = ch] obtain agg where
    agg: "calculate_aggregate_rankings
       (stage2_results_of (query_models_parallel q cms
          (stage2_prompt uq (ranking_input_of dm rs (fst (reflection_of q dm uq rs ms))) ms)))
       (response_mapping_of ms) = Inr agg" and
    s1: "s1 = rs" and
    meta: "meta = \<lparr>meta_council_members = ms,
                  meta_response_mapping = response_mapping_of ms,
                  meta_label_to_model = label_to_model_of ms,
                  meta_aggregate_rankings = agg,
                  meta_delphi_mode = dm,
                  meta_delphi_results = fst (reflection_of q dm uq rs ms),
                  meta_needs_human_review = snd (reflection_of q dm uq rs ms)\<rparr>"
    using run by auto
  have models: "map cm_model ms = successes (zip cms (stage1_responses q cms uq))"
    and rmodels: "map s1_model rs = map cm_model ms"
    using stage1_models[OF st] by auto
  have m: "m \<notin> set (map cm_model ms)" using failed models by simp
  have 1: "m \<notin> set (map s1_model s1)" using m rmodels s1 by simp
  have 3: "m \<notin> (rm_model \<circ> snd) ` set (response_mapping_of ms)"
    using m response_mapping_models by fastforce
  have 4: "m \<notin> snd ` set (label_to_model_of ms)"
    using m label_to_model_models by fastforce
  have 5: "m \<notin> set (map ar_model agg)"
    using aggregate_models[OF agg] 3 by blast
  have 6: "m \<notin> set (map d_model ds)" if "fst (reflection_of q dm uq rs ms) = Some ds" for ds
  proof -
    from that have "ds = fst (stage1_5_delphi_reflection q uq rs ms)"
      by (auto simp: reflection_of_def split: if_splits)
    then have "map d_model ds = map cm_model ms"
      using reflection_models[OF stage1_lengths[OF st]] by simp
    then show ?thesis using m by simp
  qed
  show ?thesis using 1 m 3 4 5 6 by (simp add: meta)
qed

lemma late_stage1:
  "stage1_collect_responses late_gateway sample_models uq =
     Inr ([\<lparr>s1_member_id = asc ''A'', s1_model = asc ''m2'', s1_response = asc ''answer''\<rparr>],
          [\<lparr>cm_id = asc ''A'', cm_model = asc ''m2'', cm_role = asc ''Council Member''\<rparr>])"
  by (simp add: stage1_collect_responses_def stage1_responses_def sample_models_def chr_py_def
      get_content_def get_governance_role_def GOVERNANCE_ROLES_def is_chatgpt_def is_mistral_def
      lower_def lower_cp_def lower_char_def is_upper_def asc_def)

lemma late_successes:
  "successes (zip sample_models (stage1_responses late_gateway sample_models uq)) = [asc ''m2'']"
  by (simp add: stage1_responses_def sample_models_def)

lemma late_rankers:
  "map s2_model (stage2_results_of (query_models_parallel late_gateway sample_models p))
     = [asc ''m1'']"
  by (simp add: stage2_results_of_def query_models_parallel_def sample_models_def asc_def)

theorem failed_responder_absent_witness:
  "\<exists>s1 s2 s3 meta.
     run_full_council late_gateway sample_models (asc ''m2'') False (asc ''question'')
       = Inr (s1, s2, s3, Some meta) \<and>
     asc ''m1'' \<notin> set (map s1_model s1) \<and>
     asc ''m1'' \<notin> set (map cm_model (meta_council_members meta)) \<and>
     asc ''m1'' \<notin> set (map ar_model (meta_aggregate_rankings meta))"
proof -
  have ne: "[\<lparr>s1_member_id = asc ''A'', s1_model = asc ''m2'', s1_response = asc ''answer''\<rparr>] \<noteq> []"
    by simp
  from run_full_council_shape[OF late_stage1 ne, where dm = False and ch = "asc ''m2''"
         and uq = "asc ''question''"]
  obtain s1 s2 s3 meta where
    run: "run_full_council late_gateway sample_models (asc ''m2'') False (asc ''question'')
            = Inr (s1, s2, s3, Some meta)"
    by blast
  have f: "asc ''m1'' \<notin> set (successes (zip sample_models
             (stage1_responses late_gateway sample_models (asc ''question''))))"
    by (simp add: late_successes asc_def)
  from failed_responder_absent[OF run f] run show ?thesis by blast
qed

text \<open>
  The claim as stated fails for Stage 2 and Stage 3: the ranking prompt goes to every
  configured responder, so a responder that failed in Stage 1 and answers in Stage 2 is
  in the Stage-2 results, and the chairman prompt names it.
\<close>

theorem failed_responder_counterexample:
  "\<exists>s1 s2 s3 meta.
     run_full_council late_gateway sample_models (asc ''m2'') False (asc ''question'')
       = Inr (s1, s2, s3, meta) \<and>
     asc ''m1'' \<notin> set (successes (zip sample_models
        (stage1_responses late_gateway sample_models (asc ''question'')))) \<and>
     asc ''m1'' \<in> set (map s2_model s2) \<and>
     contains (asc ''Model: '' @ asc ''m1'') (chairman_prompt (asc ''question'') s1 s2 None False)"
proof -
  have ne: "[\<lparr>s1_member_id = asc ''A'', s1_model = asc ''m2'', s1_response = asc ''answer''\<rparr>] \<noteq> []"
    by simp
  let ?s2 = "stage2_results_of (query_models_parallel late_gateway sample_models
     (stage2_prompt (asc ''question'')
        (ranking_input_of False
           [\<lparr>s1_member_id = asc ''A'', s1_model = asc ''m2'', s1_response = asc ''answer''\<rparr>]
           (fst (reflection_of late_gateway False (asc ''question'')
                  [\<lparr>s1_member_id = asc ''A'', s1_model = asc ''m2'', s1_response = asc ''answer''\<rparr>]
                  [\<lparr>cm_id = asc ''A'', cm_model = asc ''m2'', cm_role = asc ''Council Member''\<rparr>])))
        [\<lparr>cm_id = asc ''A'', cm_model = asc ''m2'', cm_role = asc ''Council Member''\<rparr>]))"
  from run_full_council_shape[OF late_stage1 ne, where dm = False and ch = "asc ''m2''"
         and uq = "asc ''question''"]
  obtain s3 meta where
    run: "run_full_council late_gateway sample_models (asc ''m2'') False (asc ''question'')
            = Inr ([\<lparr>s1_member_id = asc ''A'', s1_model = asc ''m2'', s1_response = asc ''answer''\<rparr>],
                   ?s2, s3, meta)"
    by blast
  have f: "asc ''m1'' \<notin> set (successes (zip sample_models
             (stage1_responses late_gateway sample_models (asc ''question''))))"
    by (simp add: late_successes asc_def)
  have r: "asc ''m1'' \<in> set (map s2_model ?s2)"
    by (simp only: late_rankers) simp
  then obtain x where x: "x \<in> set ?s2" "s2_model x = asc ''m1''" by auto
  have c: "contains (asc ''Model: '' @ asc ''m1'')
     (chairman_prompt (asc ''question'')
        [\<lparr>s1_member_id = asc ''A'', s1_model = asc ''m2'', s1_response = asc ''answer''\<rparr>]
        ?s2 None False)"
    using chairman_names_rankers[OF x(1)] x(2) by simp
  from run f r c show ?thesis by blast
qed

section \<open>The end-to-end scenario\<close>

lemma log2_nat_Suc_0 [simp]: "log2_nat (Suc 0) = 0"
  by (subst log2_nat.simps) simp

lemma log2_nat_small [simp]: "log2_nat 1 = 0" "log2_nat 2 = 1" "log2_nat 3 = 1"
  by (subst log2_nat.simps, simp)+

lemma f1: "\<lfloor>(3::rat) / 2\<rfloor> = 1" "\<lfloor>(3::rat)\<rfloor> = 3" "\<lfloor>(2::rat)\<rfloor> = 2"
  by (simp_all add: floor_eq_iff)

lemma i1: "ilog2 (3/2) = 0" "ilog2 3 = 1" "ilog2 2 = 1" "ilog2 1 = 0"
  by (simp_all add: ilog2_def f1)

lemma p1: "(2::rat) powi 52 = 4503599627370496" "(2::rat) powi 51 = 2251799813685248"
  by (simp_all add: power_int_def)

lemma r1: "round_half_even (of_int k) = k"
  by (simp add: round_half_even_def Let_def)

lemma p2: "(2::rat) powi (-52) = 1 / 4503599627370496" "(2::rat) powi (-51) = 1 / 2251799813685248"
  by (simp_all only: power_int_minus p1 inverse_eq_divide)

lemma r2: "round_half_even (numeral k) = numeral k"
  using r1[of "numeral k"] by simp

lemma binary64_small:
  "binary64 (3 / 2) = 3 / 2" "binary64 3 = 3" "binary64 2 = 2"
  by (simp_all add: binary64_def Let_def i1 p1 p2 r2)

text \<open>
  The means of the scenario, and the mean of the positions 1 and 3, in floating point:
  1.5, 3.0 and 2.0 are floats, and rounding them to two decimals changes nothing.
\<close>

lemma round_py_examples:
  "round_py (py_truediv 3 2) 2 = 3 / 2"
  "round_py (py_truediv 6 2) 2 = 3"
  "round_py (py_truediv 4 2) 2 = 2"
  by (simp_all add: round_py_def py_truediv_def binary64_small r2)

lemma scenario_stage1:
  "stage1_collect_responses scenario_gateway scenario_models uq
     = Inr (scenario_results, scenario_members)"
  by (simp add: stage1_collect_responses_def stage1_responses_def scenario_models_def chr_py_def
      get_content_def get_governance_role_def GOVERNANCE_ROLES_def is_chatgpt_def is_mistral_def
      lower_def lower_cp_def lower_char_def is_upper_def asc_def scenario_results_def scenario_members_def)

lemma scenario_parsed:
  "parsed_labels rank_ABC = [asc ''Response A'', asc ''Response B'', asc ''Response C'']"
  "parsed_labels rank_BAC = [asc ''Response B'', asc ''Response A'', asc ''Response C'']"
  "parsed_labels (asc ''I cannot decide.'') = []"
  using parse_ranking_from_text_eq[of rank_ABC] parse_ranking_from_text_eq[of rank_BAC]
    parse_ranking_from_text_eq[of "asc ''I cannot decide.''"]
  by (simp_all add: rank_ABC_def rank_BAC_def parse_ranking_from_text_def text_eval)

lemma scenario_stage2:
  "stage2_results_of (query_models_parallel scenario_gateway scenario_models p) = scenario_rankings"
  by (simp add: stage2_results_of_def query_models_parallel_def scenario_models_def
      scenario_rankings_def get_content_def scenario_parsed)
     (simp add: asc_def)

lemma scenario_mapping:
  "response_mapping_of scenario_members =
     [(asc ''A'', \<lparr>rm_model = asc ''m1'', rm_role = asc ''Council Member'', rm_label = asc ''Response A''\<rparr>),
      (asc ''B'', \<lparr>rm_model = asc ''m2'', rm_role = asc ''Council Member'', rm_label = asc ''Response B''\<rparr>),
      (asc ''C'', \<lparr>rm_model = asc ''m3'', rm_role = asc ''Council Member'', rm_label = asc ''Response C''\<rparr>)]"
  by (simp add: response_mapping_of_def scenario_members_def label_def asc_def)

lemma scenario_ids:
  "strip (str_replace (asc ''Response '') [] (asc ''Response A'')) = asc ''A''"
  "strip (str_replace (asc ''Response '') [] (asc ''Response B'')) = asc ''B''"
  "strip (str_replace (asc ''Response '') [] (asc ''Response C'')) = asc ''C''"
  by (simp_all add: asc_def strip_def lstrip_def rstrip_def is_space_def)

lemma scenario_positions:
  "collect_positions (response_mapping_of scenario_members) [] scenario_rankings =
     Inr [(asc ''m1'', [1, 2]), (asc ''m2'', [2, 1]), (asc ''m3'', [3, 3])]"
  unfolding scenario_mapping scenario_rankings_def
  by (simp add: parsed_or_reparsed_def parse_ranking_from_text_eq scenario_parsed)
     (simp add: dict_append_def asc_def strip_def lstrip_def rstrip_def is_space_def)

lemma scenario_means:
  "round_py (py_truediv (sum_list [1, 2]) (length [1::nat, 2])) 2 = 3 / 2"
  "round_py (py_truediv (sum_list [2, 1]) (length [2::nat, 1])) 2 = 3 / 2"
  "round_py (py_truediv (sum_list [3, 3]) (length [3::nat, 3])) 2 = 3"
proof -
  have "sum_list [1, 2::nat] = 3" "sum_list [2, 1::nat] = 3" "sum_list [3, 3::nat] = 6"
    "length [1::nat, 2] = 2" "length [2::nat, 1] = 2" "length [3::nat, 3] = 2"
    by simp_all
  then show
    "round_py (py_truediv (sum_list [1, 2]) (length [1::nat, 2])) 2 = 3 / 2"
    "round_py (py_truediv (sum_list [2, 1]) (length [2::nat, 1])) 2 = 3 / 2"
    "round_py (py_truediv (sum_list [3, 3]) (length [3::nat, 3])) 2 = 3"
    by (simp_all only: round_py_examples)
qed

lemma scenario_entries:
  "map (entry_of (response_mapping_of scenario_members))
     [(asc ''m1'', [1, 2]), (asc ''m2'', [2, 1]), (asc ''m3'', [3, 3])] = scenario_aggregate"
  unfolding entry_of_def list.map prod.case scenario_means
  by (simp add: role_of_def scenario_mapping scenario_aggregate_def)

lemma scenario_aggregation:
  "calculate_aggregate_rankings scenario_rankings (response_mapping_of scenario_members)
     = Inr scenario_aggregate"
proof -
  have "filter (\<lambda>(model, positions). positions \<noteq> [])
          [(asc ''m1'', [1, 2::nat]), (asc ''m2'', [2, 1]), (asc ''m3'', [3, 3])]
        = [(asc ''m1'', [1, 2]), (asc ''m2'', [2, 1]), (asc ''m3'', [3, 3])]"
    by simp
  moreover have "sort_key ar_average_rank scenario_aggregate = scenario_aggregate"
    by (simp add: scenario_aggregate_def)
  ultimately show ?thesis
    unfolding calculate_aggregate_rankings_def scenario_positions
    by (simp only: scenario_entries sum.case)
qed

lemma scenario_labels:
  "label_to_model_of scenario_members =
     [(asc ''Response A'', asc ''m1''), (asc ''Response B'', asc ''m2''),
      (asc ''Response C'', asc ''m3'')]"
  by (simp add: label_to_model_of_def scenario_members_def label_def asc_def)

lemma scenario_run:
  "\<exists>s3. run_full_council scenario_gateway scenario_models (asc ''m1'') False (asc ''question'') =
     Inr (scenario_results, scenario_rankings, s3,
          Some scenario_metadata) \<and>
     s3_needs_human_review s3 = Some False"
proof -
  have ne: "scenario_results \<noteq> []" by (simp add: scenario_results_def)
  from run_full_council_shape[OF scenario_stage1 ne, where dm = False and ch = "asc ''m1''"
         and uq = "asc ''question''"]
  show ?thesis
    unfolding scenario_stage2 scenario_aggregation
    by (auto simp: reflection_of_def stage3_synthesize_final_def scenario_metadata_def
        split: option.splits)
qed

text \<open>
  C6 (as amended). In the end-to-end scenario the three members get the labels A, B and
  C; the two parseable submissions rank A, B, C and B, A, C; the aggregate ranking lists
  the responder of label A first with mean 1.5, the responder of label B second with
  mean 1.5 (A comes first in the tie because the first submission, read first, names it
  first), and the responder of label C third with mean 3.0, each with two recorded
  positions; and \<^verbatim>\<open>needs_human_review\<close> is false in the metadata and in the synthesis
  object.
\<close>

theorem end_to_end_scenario:
  "\<exists>s2 s3 meta.
     run_full_council scenario_gateway scenario_models (asc ''m1'') False (asc ''question'')
       = Inr (scenario_results, s2, s3, Some meta) \<and>
     map cm_id (meta_council_members meta) = [asc ''A'', asc ''B'', asc ''C''] \<and>
     meta_label_to_model meta =
       [(asc ''Response A'', asc ''m1''), (asc ''Response B'', asc ''m2''),
        (asc ''Response C'', asc ''m3'')] \<and>
     map s2_parsed_ranking s2 =
       [[asc ''Response A'', asc ''Response B'', asc ''Response C''],
        [asc ''Response B'', asc ''Response A'', asc ''Response C''], []] \<and>
     map (\<lambda>e. (ar_model e, ar_average_rank e, ar_rankings_count e)) (meta_aggregate_rankings meta)
       = [(asc ''m1'', 3 / 2, 2), (asc ''m2'', 3 / 2, 2), (asc ''m3'', 3, 2)] \<and>
     \<not> meta_delphi_mode meta \<and>
     \<not> meta_needs_human_review meta \<and>
     s3_needs_human_review s3 = Some False"
proof -
  from scenario_run obtain s3 where
    "run_full_council scenario_gateway scenario_models (asc ''m1'') False (asc ''question'') =
     Inr (scenario_results, scenario_rankings, s3,
          Some scenario_metadata)"
    "s3_needs_human_review s3 = Some False"
    by blast
  moreover have "map cm_id scenario_members = [asc ''A'', asc ''B'', asc ''C'']"
    by (simp add: scenario_members_def)
  moreover have "map s2_parsed_ranking scenario_rankings =
       [[asc ''Response A'', asc ''Response B'', asc ''Response C''],
        [asc ''Response B'', asc ''Response A'', asc ''Response C''], []]"
    by (simp add: scenario_rankings_def)
  moreover have "map (\<lambda>e. (ar_model e, ar_average_rank e, ar_rankings_count e)) scenario_aggregate
       = [(asc ''m1'', 3 / 2, 2), (asc ''m2'', 3 / 2, 2), (asc ''m3'', 3, 2)]"
    by (simp add: scenario_aggregate_def)
  ultimately show ?thesis
    by (intro exI[of _ scenario_rankings] exI[of _ s3] exI[of _ scenario_metadata])
       (simp add: scenario_labels scenario_metadata_def)
qed

text \<open>
  The claim as stated fails: the first entry of the aggregate ranking is the responder
  of label A and the second that of label B, not the other way round.
\<close>

theorem end_to_end_scenario_counterexample:
  "\<exists>s2 s3 meta.
     run_full_council scenario_gateway scenario_models (asc ''m1'') False (asc ''question'')
       = Inr (scenario_results, s2, s3, Some meta) \<and>
     map_of (meta_label_to_model meta) (asc ''Response A'')
       = Some (ar_model (meta_aggregate_rankings meta ! 0)) \<and>
     map_of (meta_label_to_model meta) (asc ''Response B'')
       = Some (ar_model (meta_aggregate_rankings meta ! 1)) \<and>
     ar_model (meta_aggregate_rankings meta ! 0) \<noteq> ar_model (meta_aggregate_rankings meta ! 1)"
proof -
  from scenario_run obtain s3 where
    "run_full_council scenario_gateway scenario_models (asc ''m1'') False (asc ''question'') =
     Inr (scenario_results, scenario_rankings, s3,
          Some scenario_metadata)"
    by blast
  moreover have "map_of (label_to_model_of scenario_members) (asc ''Response A'')
       = Some (ar_model (scenario_aggregate ! 0))"
    "map_of (label_to_model_of scenario_members) (asc ''Response B'')
       = Some (ar_model (scenario_aggregate ! 1))"
    "ar_model (scenario_aggregate ! 0) \<noteq> ar_model (scenario_aggregate ! 1)"
    by (simp_all add: scenario_labels scenario_aggregate_def asc_def)
  ultimately show ?thesis
    by (intro exI[of _ scenario_rankings] exI[of _ s3] exI[of _ scenario_metadata])
       (simp add: scenario_metadata_def)
qed

section \<open>The rank aggregator\<close>

lemma record_all_simps [simp]:
  "record_all mp [] = mp"
  "record_all mp ((pos, m) # ms) = record_all (dict_append mp m pos) ms"
  by (simp_all add: record_all_def)

lemma record_all_append: "record_all mp (a @ b) = record_all (record_all mp a) b"
  by (simp add: record_all_def)

lemma mentions_in_simps [simp]:
  "mentions_in rm [] = []"
  "mentions_in rm ((pos, lbl) # ps) =
     (case responder_of rm lbl of None \<Rightarrow> [] | Some m \<Rightarrow> [(pos, m)]) @ mentions_in rm ps"
  by (simp_all add: mentions_in_def)

lemma record_positions_eq:
  "record_positions rm mp ps = record_all mp (mentions_in rm ps)"
  by (induction rm mp ps rule: record_positions.induct)
     (auto simp: responder_of_def Let_def split: option.splits)

lemma parsed_or_reparsed_eq: "parsed_or_reparsed r = Inr (effective_ranking r)"
  by (simp add: parsed_or_reparsed_def effective_ranking_def parse_ranking_from_text_eq)

lemma collect_positions_eq:
  "collect_positions rm mp subs = Inr (record_all mp (all_mentions rm subs))"
  by (induction subs arbitrary: mp)
     (simp_all add: all_mentions_def parsed_or_reparsed_eq record_positions_eq mentions_of_def
        record_all_append)

lemma dict_set_map_fst:
  "map fst (dict_set d k v) = (if k \<in> fst ` set d then map fst d else map fst d @ [k])"
  by (induction d k v rule: dict_set.induct) auto

lemma dict_set_map_of: "map_of (dict_set d k v) = (map_of d)(k \<mapsto> v)"
  by (induction d k v rule: dict_set.induct) (auto simp: fun_eq_iff)

lemma dict_append_map_fst:
  "map fst (dict_append d k v) = (if k \<in> fst ` set d then map fst d else map fst d @ [k])"
  by (auto simp: dict_append_def dict_set_map_fst map_of_eq_None_iff split: option.splits)

lemma vals_dict_append:
  "vals (dict_append d k v) k' = (if k' = k then vals d k @ [v] else vals d k')"
  by (auto simp: vals_def dict_append_def dict_set_map_of split: option.splits)

lemma positions_of_simps [simp]:
  "positions_of [] m = []"
  "positions_of ((pos, x) # ms) m = (if x = m then pos # positions_of ms m else positions_of ms m)"
  "positions_of (a @ b) m = positions_of a m @ positions_of b m"
  by (simp_all add: positions_of_def)

lemma record_all_keys:
  "map fst (record_all mp ms) =
     foldl (\<lambda>acc x. if x \<in> set acc then acc else acc @ [x]) (map fst mp) (map snd ms)"
proof (induction ms arbitrary: mp)
  case Nil
  then show ?case by simp
next
  case (Cons a ms)
  obtain pos m where a: "a = (pos, m)" by (cases a)
  show ?case by (simp add: a Cons dict_append_map_fst)
qed

lemma record_all_vals: "vals (record_all mp ms) k = vals mp k @ positions_of ms k"
proof (induction ms arbitrary: mp)
  case Nil
  then show ?case by simp
next
  case (Cons a ms)
  obtain pos m where a: "a = (pos, m)" by (cases a)
  show ?case by (simp add: a Cons vals_dict_append)
qed

lemma foldl_seen_distinct:
  "distinct acc \<Longrightarrow> distinct (foldl (\<lambda>acc x. if x \<in> set acc then acc else acc @ [x]) acc xs)"
  by (induction xs arbitrary: acc) auto

lemma foldl_seen_set:
  "set (foldl (\<lambda>acc x. if x \<in> set acc then acc else acc @ [x]) acc xs) = set acc \<union> set xs"
  by (induction xs arbitrary: acc) auto

lemma first_seen_distinct: "distinct (first_seen xs)"
  by (simp add: first_seen_def foldl_seen_distinct)

lemma first_seen_set [simp]: "set (first_seen xs) = set xs"
  by (simp add: first_seen_def foldl_seen_set)

lemma assoc_list_by_keys:
  "distinct (map fst d) \<Longrightarrow> d = map (\<lambda>k. (k, vals d k)) (map fst d)"
proof (induction d)
  case Nil
  then show ?case by simp
next
  case (Cons a d)
  obtain k v where a: "a = (k, v)" by (cases a)
  have 1: "vals ((k, v) # d) k = v" by (simp add: vals_def)
  have 2: "map (\<lambda>k'. (k', vals ((k, v) # d) k')) (map fst d) = map (\<lambda>k'. (k', vals d k')) (map fst d)"
  proof (rule map_cong[OF refl])
    fix x assume "x \<in> set (map fst d)"
    then have "x \<noteq> k" using Cons.prems a by auto
    then show "(x, vals ((k, v) # d) x) = (x, vals d x)" by (simp add: vals_def)
  qed
  have "distinct (map fst d)" using Cons.prems by simp
  then have 3: "d = map (\<lambda>k'. (k', vals d k')) (map fst d)" by (rule Cons.IH)
  have "map (\<lambda>k'. (k', vals ((k, v) # d) k')) (map fst ((k, v) # d))
      = (k, vals ((k, v) # d) k) # map (\<lambda>k'. (k', vals ((k, v) # d) k')) (map fst d)"
    by simp
  also have "\<dots> = (k, v) # map (\<lambda>k'. (k', vals d k')) (map fst d)"
    by (simp only: 1 2)
  also have "\<dots> = (k, v) # d"
    by (simp only: 3[symmetric])
  finally show ?case by (simp only: a)
qed

lemma record_all_closed:
  "record_all [] ms = map (\<lambda>m. (m, positions_of ms m)) (first_seen (map snd ms))"
proof -
  have k: "map fst (record_all [] ms) = first_seen (map snd ms)"
    by (simp add: record_all_keys first_seen_def)
  then have d: "distinct (map fst (record_all [] ms))" by (simp add: first_seen_distinct)
  have v0: "vals ([] :: (pystr \<times> nat list) list) x = []" for x
    by (simp add: vals_def)
  have v: "vals (record_all [] ms) x = positions_of ms x" for x
    by (simp only: record_all_vals v0 append_Nil)
  have "record_all [] ms = map (\<lambda>k. (k, vals (record_all [] ms) k)) (map fst (record_all [] ms))"
    by (rule assoc_list_by_keys[OF d])
  then show ?thesis by (simp only: v k)
qed

lemma positions_of_nonempty: "positions_of ms m \<noteq> [] \<longleftrightarrow> m \<in> snd ` set ms"
  by (induction ms) (auto simp: positions_of_def)

lemma calculate_aggregate_rankings_eq:
  "calculate_aggregate_rankings subs rm = Inr (sort_key ar_average_rank (entries_in_order subs rm))"
proof -
  let ?ms = "all_mentions rm subs"
  let ?mp = "map (\<lambda>m. (m, positions_of ?ms m)) (first_seen (map snd ?ms))"
  have "\<forall>x \<in> set ?mp. (\<lambda>(model, positions). positions \<noteq> []) x"
    by (auto simp: positions_of_nonempty)
  then have f: "filter (\<lambda>(model, positions). positions \<noteq> []) ?mp = ?mp"
    by (simp only: filter_True)
  have e: "map (entry_of rm) ?mp = entries_in_order subs rm"
    by (simp add: entries_in_order_def entry_of_def rounded_mean_def comp_def)
  show ?thesis
    unfolding calculate_aggregate_rankings_def collect_positions_eq record_all_closed
    by (simp only: sum.case f e)
qed

lemma mentions_in_iff:
  "(pos, m) \<in> set (mentions_in rm ps) \<longleftrightarrow> (\<exists>lbl. (pos, lbl) \<in> set ps \<and> responder_of rm lbl = Some m)"
  by (induction ps) (auto split: option.splits)

lemma mentions_of_iff:
  "(pos, m) \<in> set (mentions_of rm r) \<longleftrightarrow>
     (\<exists>i < length (effective_ranking r).
        pos = i + 1 \<and> responder_of rm (effective_ranking r ! i) = Some m)"
proof -
  have "(pos, m) \<in> set (mentions_of rm r) \<longleftrightarrow>
     (\<exists>lbl. 1 \<le> pos \<and> pos < length (effective_ranking r) + 1 \<and>
            effective_ranking r ! (pos - 1) = lbl \<and> responder_of rm lbl = Some m)"
    by (simp add: mentions_of_def mentions_in_iff in_set_enumerate_eq)
  also have "\<dots> \<longleftrightarrow> (\<exists>i < length (effective_ranking r).
        pos = i + 1 \<and> responder_of rm (effective_ranking r ! i) = Some m)"
  proof
    assume "\<exists>lbl. 1 \<le> pos \<and> pos < length (effective_ranking r) + 1 \<and>
            effective_ranking r ! (pos - 1) = lbl \<and> responder_of rm lbl = Some m"
    then have "pos - 1 < length (effective_ranking r) \<and> pos = (pos - 1) + 1 \<and>
       responder_of rm (effective_ranking r ! (pos - 1)) = Some m" by auto
    then show "\<exists>i < length (effective_ranking r).
        pos = i + 1 \<and> responder_of rm (effective_ranking r ! i) = Some m" by blast
  next
    assume "\<exists>i < length (effective_ranking r).
        pos = i + 1 \<and> responder_of rm (effective_ranking r ! i) = Some m"
    then show "\<exists>lbl. 1 \<le> pos \<and> pos < length (effective_ranking r) + 1 \<and>
            effective_ranking r ! (pos - 1) = lbl \<and> responder_of rm lbl = Some m" by auto
  qed
  finally show ?thesis .
qed

lemma positions_once:
  assumes "length (positions_of ms m) \<le> 1"
  shows "length (positions_of ms m) = (if m \<in> snd ` set ms then 1 else 0)"
proof (cases "m \<in> snd ` set ms")
  case True
  then have "positions_of ms m \<noteq> []" by (simp add: positions_of_nonempty)
  then have "length (positions_of ms m) \<ge> 1" by (cases "positions_of ms m") auto
  with assms True show ?thesis by simp
next
  case False
  then have "positions_of ms m = []" using positions_of_nonempty by blast
  with False show ?thesis by simp
qed

lemma count_is_contributing:
  "(\<forall>r \<in> set subs. length (positions_of (mentions_of rm r) m) \<le> 1) \<Longrightarrow>
     length (positions_of (all_mentions rm subs) m) = contributing rm subs m"
proof (induction subs)
  case Nil
  then show ?case by (simp add: all_mentions_def contributing_def)
next
  case (Cons r subs)
  have "length (positions_of (mentions_of rm r) m) = (if m \<in> snd ` set (mentions_of rm r) then 1 else 0)"
    using Cons.prems by (intro positions_once) simp
  moreover have "length (positions_of (all_mentions rm subs) m) = contributing rm subs m"
    using Cons by simp
  ultimately show ?case
    by (simp add: all_mentions_def contributing_def)
qed

lemma entries_models:
  "map ar_model (entries_in_order subs rm) = first_seen (map snd (all_mentions rm subs))"
  by (simp add: entries_in_order_def comp_def)

text \<open>
  C5 (as amended). The rank aggregator never raises and is the following function of
  the submissions and the label-to-responder map. For each submission it records the
  1-based position of every label of the parsed sequence that is in the map against the
  responder it maps to, and skips the other labels. It reports one entry for each
  responder with at least one recorded position, and none for the others; the entry
  holds the mean of the positions (their sum divided by their number, rounded to two
  decimals, in floating point) and the number of recorded positions. The entries are
  sorted by ascending mean, and entries with equal means keep the order in which their
  responders were first met while recording. The number of recorded positions is the
  number of contributing submissions whenever no submission mentions the responder more
  than once.
\<close>

theorem aggregate_rankings_spec:
  "calculate_aggregate_rankings subs rm = Inr (sort_key ar_average_rank (entries_in_order subs rm)) \<and>
   sorted (map ar_average_rank (sort_key ar_average_rank (entries_in_order subs rm))) \<and>
   (\<forall>k. filter (\<lambda>e. ar_average_rank e = k) (sort_key ar_average_rank (entries_in_order subs rm))
        = filter (\<lambda>e. ar_average_rank e = k) (entries_in_order subs rm)) \<and>
   map ar_model (entries_in_order subs rm) = first_seen (map snd (all_mentions rm subs)) \<and>
   distinct (map ar_model (entries_in_order subs rm)) \<and>
   (\<forall>m. m \<in> set (map ar_model (entries_in_order subs rm))
        \<longleftrightarrow> positions_of (all_mentions rm subs) m \<noteq> []) \<and>
   ((pos, m) \<in> set (mentions_of rm r) \<longleftrightarrow>
      (\<exists>i < length (effective_ranking r).
         pos = i + 1 \<and> responder_of rm (effective_ranking r ! i) = Some m)) \<and>
   ((\<forall>r \<in> set subs. length (positions_of (mentions_of rm r) m) \<le> 1) \<longrightarrow>
      length (positions_of (all_mentions rm subs) m) = contributing rm subs m)"
  using calculate_aggregate_rankings_eq[of subs rm] mentions_of_iff[of pos m rm r]
    count_is_contributing[of subs rm m]
  by (simp add: sort_key_stable entries_models first_seen_distinct positions_of_nonempty)

lemma scenario_responders:
  "responder_of (response_mapping_of scenario_members) (asc ''Response A'') = Some (asc ''m1'')"
  "responder_of (response_mapping_of scenario_members) (asc ''Response B'') = Some (asc ''m2'')"
  "responder_of (response_mapping_of scenario_members) (asc ''Response C'') = Some (asc ''m3'')"
  unfolding responder_of_def scenario_ids scenario_mapping by (simp_all add: asc_def)

lemma scenario_mentions:
  "map (mentions_of (response_mapping_of scenario_members)) scenario_rankings =
     [[(1, asc ''m1''), (2, asc ''m2''), (3, asc ''m3'')],
      [(1, asc ''m2''), (2, asc ''m1''), (3, asc ''m3'')],
      []]"
  by (simp add: scenario_rankings_def mentions_of_def effective_ranking_def scenario_parsed
      scenario_responders)

theorem aggregate_rankings_spec_witness:
  "calculate_aggregate_rankings scenario_rankings (response_mapping_of scenario_members)
     = Inr (sort_key ar_average_rank
              (entries_in_order scenario_rankings (response_mapping_of scenario_members))) \<and>
   length (positions_of (all_mentions (response_mapping_of scenario_members) scenario_rankings)
             (asc ''m1''))
     = contributing (response_mapping_of scenario_members) scenario_rankings (asc ''m1'') \<and>
   contributing (response_mapping_of scenario_members) scenario_rankings (asc ''m1'') = 2"
proof -
  let ?rm = "response_mapping_of scenario_members"
  have m: "map (mentions_of ?rm) scenario_rankings =
     [[(1, asc ''m1''), (2, asc ''m2''), (3, asc ''m3'')],
      [(1, asc ''m2''), (2, asc ''m1''), (3, asc ''m3'')],
      []]"
    by (rule scenario_mentions)
  have "\<forall>ms \<in> set (map (mentions_of ?rm) scenario_rankings).
          length (positions_of ms (asc ''m1'')) \<le> 1"
    unfolding m by (simp add: asc_def)
  then have h: "\<forall>r \<in> set scenario_rankings.
          length (positions_of (mentions_of ?rm r) (asc ''m1'')) \<le> 1"
    by simp
  have "length (filter (\<lambda>ms. asc ''m1'' \<in> snd ` set ms) (map (mentions_of ?rm) scenario_rankings)) = 2"
    unfolding m by (simp add: asc_def)
  then have c: "contributing ?rm scenario_rankings (asc ''m1'') = 2"
    by (simp add: contributing_def filter_map comp_def)
  from aggregate_rankings_spec[of scenario_rankings ?rm _ "asc ''m1''"] h c
  show ?thesis by simp
qed

lemma repeated_parsed:
  "parse_ranking_from_text repeated_text = Inr [asc ''Response A'', asc ''Response A'']"
  by (simp add: repeated_text_def parse_ranking_from_text_def text_eval)

lemma repeated_mentions:
  "mentions_of (response_mapping_of scenario_members) repeated_submission
     = [(1, asc ''m1''), (2, asc ''m1'')]"
  by (simp add: repeated_submission_def mentions_of_def effective_ranking_def scenario_responders)

text \<open>
  The claim as stated fails for the count: a single submission that mentions Response A
  twice gives the responder of A the count 2, while one submission contributes.
\<close>

theorem aggregate_rankings_counterexample:
  "parse_ranking_from_text (s2_ranking repeated_submission)
     = Inr (s2_parsed_ranking repeated_submission) \<and>
   (\<exists>e. calculate_aggregate_rankings [repeated_submission] (response_mapping_of scenario_members)
          = Inr [e] \<and>
        ar_model e = asc ''m1'' \<and> ar_rankings_count e = 2 \<and>
        contributing (response_mapping_of scenario_members) [repeated_submission] (asc ''m1'') = 1)"
proof -
  let ?rm = "response_mapping_of scenario_members"
  have am: "all_mentions ?rm [repeated_submission] = [(1, asc ''m1''), (2, asc ''m1'')]"
    by (simp add: all_mentions_def repeated_mentions)
  have fs: "first_seen (map snd (all_mentions ?rm [repeated_submission])) = [asc ''m1'']"
    unfolding am by (simp add: first_seen_def)
  have po: "positions_of (all_mentions ?rm [repeated_submission]) (asc ''m1'') = [1, 2]"
    unfolding am by simp
  have "entries_in_order [repeated_submission] ?rm =
     [\<lparr>ar_model = asc ''m1'', ar_role = role_of ?rm (asc ''m1''),
       ar_average_rank = rounded_mean [1, 2], ar_rankings_count = length [1::nat, 2]\<rparr>]"
    by (simp add: entries_in_order_def fs po)
  then have "calculate_aggregate_rankings [repeated_submission] ?rm =
     Inr [\<lparr>ar_model = asc ''m1'', ar_role = role_of ?rm (asc ''m1''),
           ar_average_rank = rounded_mean [1, 2], ar_rankings_count = length [1::nat, 2]\<rparr>]"
    by (simp add: calculate_aggregate_rankings_eq)
  moreover have "contributing ?rm [repeated_submission] (asc ''m1'') = 1"
    by (simp add: contributing_def repeated_mentions)
  moreover have "parse_ranking_from_text (s2_ranking repeated_submission)
     = Inr (s2_parsed_ranking repeated_submission)"
    by (simp add: repeated_submission_def repeated_parsed)
  ultimately show ?thesis by simp
qed

section \<open>The reflection parser\<close>





lemma marker_at_Nil [simp]: "marker_at p [] \<longleftrightarrow> p = []"
  by (cases p) simp_all

lemma marker_at_length: "marker_at p s \<Longrightarrow> length p \<le> length s"
  by (induction p s rule: marker_at.induct) simp_all


lemma marker_at_append: "marker_at p (w @ v) \<Longrightarrow> length w = length p \<Longrightarrow> marker_at p w"
  by (induction p w rule: marker_at.induct) auto




lemma rstrip_Nil [simp]: "rstrip [] = []"
  by (simp add: rstrip_def)




lemma strip_dropWhile [simp]: "strip (dropWhile is_space s) = strip s"
  by (simp add: strip_def lstrip_def)



































end
